(* ===== verification/Prelude.thy ===== *)
theory Prelude
  imports Complex_Main "HOL-Library.List_Lexorder" "HOL-Library.Char_ord" "HOL-Library.Countable"
begin

text \<open>
  Shared vocabulary of the development: the exceptions the agent's code throws and the
  result type that carries them, the narrowing integer conversions of C++20, the
  operations of \<open>std::string\<close> and of \<open>std::map<std::string, T>\<close> the sources
  use, and the lemma collections the component theories rely on.
\<close>

named_theorems res_simps \<open>evaluation of sequenced results\<close>
named_theorems int_simps \<open>narrowing conversions\<close>

section \<open>Exceptions and results\<close>

text \<open>One constructor per family of exception the sources throw or let through.\<close>

datatype exn =
    JsonTypeError              \<comment> \<open>\<open>nlohmann::json::type_error\<close>\<close>
  | JsonParseError             \<comment> \<open>\<open>nlohmann::json::parse_error\<close>\<close>
  | JsonOutOfRange             \<comment> \<open>\<open>nlohmann::json::out_of_range\<close> (\<open>at\<close>)\<close>
  | RuntimeError string        \<comment> \<open>\<open>std::runtime_error\<close>\<close>
  | InvalidArgument string     \<comment> \<open>\<open>std::invalid_argument\<close>\<close>
  | OutOfRange                 \<comment> \<open>\<open>std::out_of_range\<close>\<close>
  | FilesystemError string     \<comment> \<open>\<open>std::filesystem::filesystem_error\<close>\<close>
  | RevertedRestart            \<comment> \<open>\<open>runtime::reverted_restart_required\<close>\<close>
  | SetupCancelled             \<comment> \<open>\<open>installer::setup_cancelled\<close>\<close>

type_synonym 'a res = "exn + 'a"

definition rbind :: "'a res \<Rightarrow> ('a \<Rightarrow> 'b res) \<Rightarrow> 'b res" where
  "rbind r f = (case r of Inl e \<Rightarrow> Inl e | Inr x \<Rightarrow> f x)"

lemma rbind_Inl [simp, res_simps]: "rbind (Inl e) f = Inl e"
  by (simp add: rbind_def)

lemma rbind_Inr [simp, res_simps]: "rbind (Inr x) f = f x"
  by (simp add: rbind_def)

lemma rbind_eq_Inr: "rbind r f = Inr y \<longleftrightarrow> (\<exists>x. r = Inr x \<and> f x = Inr y)"
  by (cases r) simp_all

lemma rbind_eq_Inl: "rbind r f = Inl e \<longleftrightarrow> r = Inl e \<or> (\<exists>x. r = Inr x \<and> f x = Inl e)"
  by (cases r) simp_all

lemma rbind_assoc: "rbind (rbind r f) g = rbind r (\<lambda>x. rbind (f x) g)"
  by (cases r) simp_all

definition is_ok :: "'a res \<Rightarrow> bool" where
  "is_ok r = (case r of Inl _ \<Rightarrow> False | Inr _ \<Rightarrow> True)"

lemma is_ok_simps [simp]: "is_ok (Inr x)" "\<not> is_ok (Inl e)"
  by (simp_all add: is_ok_def)

section \<open>Machine integers\<close>

text \<open>
  \<open>static_cast<int>\<close>, \<open>static_cast<int64_t>\<close> and \<open>static_cast<uint64_t>\<close> of an
  integer keep the low bits (C++20). They are written on \<open>int\<close> with the wrap-around
  explicit.
\<close>

definition as_int32 :: "int \<Rightarrow> int" where
  "as_int32 n = (n + 2147483648) mod 4294967296 - 2147483648"

definition as_int64 :: "int \<Rightarrow> int" where
  "as_int64 n = (n + 9223372036854775808) mod 18446744073709551616 - 9223372036854775808"

definition as_uint64 :: "int \<Rightarrow> int" where
  "as_uint64 n = n mod 18446744073709551616"

definition in_int32 :: "int \<Rightarrow> bool" where
  "in_int32 n \<longleftrightarrow> - 2147483648 \<le> n \<and> n < 2147483648"

definition in_int64 :: "int \<Rightarrow> bool" where
  "in_int64 n \<longleftrightarrow> - 9223372036854775808 \<le> n \<and> n < 9223372036854775808"

lemma as_int32_id [simp, int_simps]: "in_int32 n \<Longrightarrow> as_int32 n = n"
  by (simp add: as_int32_def in_int32_def)

lemma as_int64_id [simp, int_simps]: "in_int64 n \<Longrightarrow> as_int64 n = n"
  by (simp add: as_int64_def in_int64_def)

lemma as_int32_range [simp]: "in_int32 (as_int32 n)"
proof -
  have "0 \<le> (n + 2147483648) mod 4294967296" "(n + 2147483648) mod 4294967296 < 4294967296"
    by simp_all
  then show ?thesis by (simp add: as_int32_def in_int32_def)
qed

lemma as_int64_range [simp]: "in_int64 (as_int64 n)"
proof -
  have "0 \<le> (n + 9223372036854775808) mod 18446744073709551616"
    and "(n + 9223372036854775808) mod 18446744073709551616 < 18446744073709551616"
    by simp_all
  then show ?thesis by (simp add: as_int64_def in_int64_def)
qed

text \<open>Conversion of a floating value to an integer type drops the fraction.\<close>

definition trunc_rat :: "rat \<Rightarrow> int" where
  "trunc_rat r = (if 0 \<le> r then \<lfloor>r\<rfloor> else \<lceil>r\<rceil>)"

definition clamp :: "int \<Rightarrow> int \<Rightarrow> int \<Rightarrow> int" where
  "clamp v lo hi = (if v < lo then lo else if hi < v then hi else v)"

lemma clamp_bounds: "lo \<le> hi \<Longrightarrow> lo \<le> clamp v lo hi \<and> clamp v lo hi \<le> hi"
  by (simp add: clamp_def)

lemma clamp_id: "lo \<le> v \<Longrightarrow> v \<le> hi \<Longrightarrow> clamp v lo hi = v"
  by (simp add: clamp_def)

section \<open>Strings\<close>

definition starts_with :: "string \<Rightarrow> string \<Rightarrow> bool" where
  "starts_with p s \<longleftrightarrow> take (length p) s = p"

definition ends_with :: "string \<Rightarrow> string \<Rightarrow> bool" where
  "ends_with p s \<longleftrightarrow> length p \<le> length s \<and> drop (length s - length p) s = p"

text \<open>\<open>s.find(p)\<close>: the least position at which \<open>p\<close> occurs, \<open>None\<close> for \<open>npos\<close>.\<close>

fun find_sub :: "string \<Rightarrow> string \<Rightarrow> nat option" where
  "find_sub p [] = (if p = [] then Some 0 else None)"
| "find_sub p (c # cs) =
     (if starts_with p (c # cs) then Some 0 else map_option Suc (find_sub p cs))"

definition contains_sub :: "string \<Rightarrow> string \<Rightarrow> bool" where
  "contains_sub p s \<longleftrightarrow> find_sub p s \<noteq> None"

text \<open>\<open>s.find(c)\<close> and \<open>s.find_first_of(cs)\<close>; \<open>s.rfind(c)\<close> and \<open>s.find_last_of(c)\<close>.\<close>

fun find_first :: "(char \<Rightarrow> bool) \<Rightarrow> string \<Rightarrow> nat option" where
  "find_first P [] = None"
| "find_first P (c # cs) = (if P c then Some 0 else map_option Suc (find_first P cs))"

fun find_last :: "(char \<Rightarrow> bool) \<Rightarrow> string \<Rightarrow> nat option" where
  "find_last P [] = None"
| "find_last P (c # cs) =
     (case find_last P cs of Some i \<Rightarrow> Some (Suc i) | None \<Rightarrow> if P c then Some 0 else None)"

text \<open>\<open>s.substr(i, n)\<close> for a position inside the string.\<close>

definition substr :: "string \<Rightarrow> nat \<Rightarrow> nat \<Rightarrow> string" where
  "substr s i n = take n (drop i s)"

definition code_of :: "char \<Rightarrow> nat" where
  "code_of c = of_char c"

definition is_digit :: "char \<Rightarrow> bool" where
  "is_digit c \<longleftrightarrow> 48 \<le> code_of c \<and> code_of c \<le> 57"

definition is_upper :: "char \<Rightarrow> bool" where
  "is_upper c \<longleftrightarrow> 65 \<le> code_of c \<and> code_of c \<le> 90"

definition is_lower :: "char \<Rightarrow> bool" where
  "is_lower c \<longleftrightarrow> 97 \<le> code_of c \<and> code_of c \<le> 122"

text \<open>\<open>std::isalnum\<close> and \<open>tolower\<close> in the "C" locale.\<close>

definition is_alnum :: "char \<Rightarrow> bool" where
  "is_alnum c \<longleftrightarrow> is_digit c \<or> is_upper c \<or> is_lower c"

definition to_lower :: "char \<Rightarrow> char" where
  "to_lower c = (if is_upper c then char_of (code_of c + 32) else c)"

text \<open>Trailing newline, carriage return and space are removed.\<close>

definition is_trail :: "char \<Rightarrow> bool" where
  "is_trail c \<longleftrightarrow> c = CHR 0x0A \<or> c = CHR 0x0D \<or> c = CHR '' ''"

definition rtrim :: "string \<Rightarrow> string" where
  "rtrim s = rev (dropWhile is_trail (rev s))"

definition digit_of :: "nat \<Rightarrow> char" where
  "digit_of n = char_of (48 + n mod 10)"

text \<open>\<open>std::to_string\<close> on a non-negative and on a signed integer.\<close>

function show_nat :: "nat \<Rightarrow> string" where
  "show_nat n = (if n < 10 then [digit_of n] else show_nat (n div 10) @ [digit_of n])"
  by pat_completeness auto
termination
  by (relation "measure id") auto

declare show_nat.simps [simp del]

definition show_int :: "int \<Rightarrow> string" where
  "show_int i = (if i < 0 then CHR ''-'' # show_nat (nat (- i)) else show_nat (nat i))"

text \<open>\<open>std::isspace\<close> in the "C" locale.\<close>

definition is_space :: "char \<Rightarrow> bool" where
  "is_space c \<longleftrightarrow> code_of c = 32 \<or> (9 \<le> code_of c \<and> code_of c \<le> 13)"

text \<open>The pieces between newlines as \<open>std::getline\<close> delivers them: a last empty piece is none.\<close>

fun split_on :: "char \<Rightarrow> string \<Rightarrow> string list" where
  "split_on c [] = [[]]"
| "split_on c (x # xs) =
     (if x = c then [] # split_on c xs
      else case split_on c xs of [] \<Rightarrow> [[x]] | p # ps \<Rightarrow> (x # p) # ps)"

definition getlines :: "string \<Rightarrow> string list" where
  "getlines s = (let ls = split_on (CHR 0x0A) s in if last ls = [] then butlast ls else ls)"

text \<open>
  Extraction of integers from a stream in base ten: the value and what is left, or a failure
  (after which the stream delivers nothing more). \<open>uint64_t\<close> wraps a negative literal and
  fails on overflow.
\<close>

fun dec_number :: "int \<Rightarrow> string \<Rightarrow> int" where
  "dec_number acc [] = acc"
| "dec_number acc (c # cs) = dec_number (10 * acc + int (code_of c - 48)) cs"

definition take_number :: "string \<Rightarrow> (int \<times> int \<times> string) option" where
  "take_number s =
     (let s = dropWhile is_space s;
          neg = (s \<noteq> [] \<and> hd s = CHR ''-'');
          s = (if s \<noteq> [] \<and> (hd s = CHR ''-'' \<or> hd s = CHR ''+'') then tl s else s);
          ds = takeWhile is_digit s
      in if ds = [] then None else Some (if neg then - 1 else 1, dec_number 0 ds, drop (length ds) s))"

definition extract_u64 :: "string \<Rightarrow> (int \<times> string) option" where
  "extract_u64 s =
     (case take_number s of
        None \<Rightarrow> None
      | Some (sg, n, rest) \<Rightarrow>
          if n \<ge> 18446744073709551616 then None else Some (as_uint64 (sg * n), rest))"

text \<open>Repeated extraction into variables that start at zero.\<close>

fun extract_many :: "nat \<Rightarrow> string \<Rightarrow> int list" where
  "extract_many 0 s = []"
| "extract_many (Suc n) s =
     (case extract_u64 s of
        None \<Rightarrow> replicate (Suc n) 0
      | Some (v, rest) \<Rightarrow> v # extract_many n rest)"

lemma extract_many_length [simp]: "length (extract_many n s) = n"
  by (induction n s rule: extract_many.induct) (auto split: option.splits)

text \<open>Lower-case hexadecimal digits, two for a byte, and their value.\<close>

definition hex_digit :: "nat \<Rightarrow> char" where
  "hex_digit n = (if n < 10 then char_of (48 + n) else char_of (87 + n))"

definition hex_byte :: "nat \<Rightarrow> string" where
  "hex_byte n = [hex_digit (n div 16), hex_digit (n mod 16)]"

definition hex_value :: "char \<Rightarrow> nat option" where
  "hex_value c =
     (let n = code_of c in
      if 48 \<le> n \<and> n \<le> 57 then Some (n - 48)
      else if 97 \<le> n \<and> n \<le> 102 then Some (n - 87)
      else if 65 \<le> n \<and> n \<le> 70 then Some (n - 55)
      else None)"

lemma hex_digit_code: "n < 16 \<Longrightarrow> code_of (hex_digit n) = (if n < 10 then 48 + n else 87 + n)"
  by (simp add: hex_digit_def code_of_def)

lemma hex_value_digit: "n < 16 \<Longrightarrow> hex_value (hex_digit n) = Some n"
  by (simp add: hex_value_def hex_digit_code Let_def)

lemma starts_with_append [simp]: "starts_with p (p @ s)"
  by (simp add: starts_with_def)

lemma starts_with_Nil [simp]: "starts_with [] s"
  by (simp add: starts_with_def)

lemma starts_with_iff: "starts_with p s \<longleftrightarrow> (\<exists>t. s = p @ t)"
  unfolding starts_with_def by (metis append_take_drop_id append_eq_conv_conj)

lemma find_sub_Some:
  "find_sub p s = Some i \<Longrightarrow> take (length p) (drop i s) = p \<and> i + length p \<le> length s"
proof (induction p s arbitrary: i rule: find_sub.induct)
  case (1 p)
  then show ?case by (auto split: if_splits)
next
  case (2 p c cs)
  show ?case
  proof (cases "starts_with p (c # cs)")
    case True
    then have "length p \<le> length (c # cs)"
      unfolding starts_with_def by (metis length_take min.cobounded1)
    with True 2 show ?thesis by (simp add: starts_with_def)
  next
    case False
    with 2 show ?thesis by auto
  qed
qed

lemma find_sub_append: "\<exists>i. find_sub p (s @ p @ t) = Some i \<and> i \<le> length s"
proof (induction s)
  case Nil
  show ?case
  proof (cases "p @ t")
    case Nil
    then show ?thesis by simp
  next
    case (Cons a list)
    then have "starts_with p (a # list)" by (metis starts_with_append)
    with Cons show ?thesis by simp
  qed
next
  case (Cons c s)
  then show ?case by auto
qed

lemma contains_sub_iff: "contains_sub p s \<longleftrightarrow> (\<exists>u v. s = u @ p @ v)"
proof
  assume "contains_sub p s"
  then obtain i where "find_sub p s = Some i" by (auto simp: contains_sub_def)
  then have "take (length p) (drop i s) = p" using find_sub_Some by blast
  then have "s = take i s @ p @ drop (length p) (drop i s)"
    by (metis append_take_drop_id)
  then show "\<exists>u v. s = u @ p @ v" by blast
next
  assume "\<exists>u v. s = u @ p @ v"
  then obtain u v where "s = u @ p @ v" by blast
  then show "contains_sub p s" using find_sub_append [of p u v] by (auto simp: contains_sub_def)
qed

lemma find_first_None: "find_first P s = None \<longleftrightarrow> (\<forall>c\<in>set s. \<not> P c)"
  by (induction s) auto

lemma find_first_Some: "find_first P s = Some i \<Longrightarrow> i < length s \<and> P (s ! i)"
  by (induction s arbitrary: i) (auto split: if_splits)

lemma rtrim_no_trail: "rtrim s \<noteq> [] \<Longrightarrow> \<not> is_trail (last (rtrim s))"
  by (simp add: rtrim_def last_rev hd_dropWhile)

lemma show_nat_digits: "\<forall>c \<in> set (show_nat n). is_digit c"
proof (induction n rule: show_nat.induct)
  case (1 n)
  have d: "is_digit (digit_of n)" for n
  proof -
    have "n mod 10 < 10" by simp
    then show ?thesis
      by (simp add: is_digit_def code_of_def digit_of_def)
  qed
  show ?case
    using 1 d by (subst show_nat.simps) auto
qed

section \<open>Ordered maps keyed by strings\<close>

text \<open>
  \<open>std::map<std::string, T>\<close>, which is also how a JSON object is kept: an association
  list in ascending key order without duplicates. \<open>smap_put\<close> is
  \<open>operator[]\<close> followed by an assignment, \<open>smap_get\<close> is \<open>find\<close>.
\<close>

type_synonym 'a smap = "(string \<times> 'a) list"

fun smap_put :: "string \<Rightarrow> 'a \<Rightarrow> 'a smap \<Rightarrow> 'a smap" where
  "smap_put k v [] = [(k, v)]"
| "smap_put k v ((k', v') # m) =
     (if k = k' then (k, v) # m
      else if k < k' then (k, v) # (k', v') # m
      else (k', v') # smap_put k v m)"

definition smap_get :: "'a smap \<Rightarrow> string \<Rightarrow> 'a option" where
  "smap_get m k = map_of m k"

definition smap_del :: "string \<Rightarrow> 'a smap \<Rightarrow> 'a smap" where
  "smap_del k m = filter (\<lambda>(k', _). k' \<noteq> k) m"

definition smap_of :: "(string \<times> 'a) list \<Rightarrow> 'a smap" where
  "smap_of kvs = fold (\<lambda>(k, v) m. smap_put k v m) kvs []"

definition smap_inv :: "'a smap \<Rightarrow> bool" where
  "smap_inv m \<longleftrightarrow> sorted_wrt (<) (map fst m)"

lemma set_smap_put: "set (map fst (smap_put k v m)) = insert k (set (map fst m))"
  by (induction k v m rule: smap_put.induct) auto

lemma smap_put_inv: "smap_inv m \<Longrightarrow> smap_inv (smap_put k v m)"
proof (induction k v m rule: smap_put.induct)
  case (1 k v)
  then show ?case by (simp add: smap_inv_def)
next
  case (2 k v k' v' m)
  from 2(2) have inv: "smap_inv m" and le: "\<forall>x \<in> set (map fst m). k' < x"
    by (auto simp: smap_inv_def)
  consider "k = k'" | "k < k'" | "k' < k" by fastforce
  then show ?case
  proof cases
    case 1
    with inv le show ?thesis by (simp add: smap_inv_def)
  next
    case 2
    with inv le show ?thesis by (auto simp: smap_inv_def)
  next
    case 3
    then have ne: "\<not> k = k'" "\<not> k < k'" by auto
    from 2(1) [OF ne inv] have "smap_inv (smap_put k v m)" .
    moreover have "\<forall>x \<in> set (map fst (smap_put k v m)). k' < x"
      using le 3 set_smap_put [of k v m] by auto
    ultimately show ?thesis using ne by (simp add: smap_inv_def)
  qed
qed

lemma smap_get_put [simp]: "smap_get (smap_put k v m) k' = (if k' = k then Some v else smap_get m k')"
  by (induction k v m rule: smap_put.induct) (auto simp: smap_get_def)

lemma smap_get_Nil [simp]: "smap_get [] k = None"
  by (simp add: smap_get_def)

lemma smap_get_single [simp]: "smap_get [(k, v)] k' = (if k' = k then Some v else None)"
  by (simp add: smap_get_def)

lemma smap_get_del [simp]: "smap_get (smap_del k m) k' = (if k' = k then None else smap_get m k')"
  by (induction m) (auto simp: smap_get_def smap_del_def)

lemma smap_del_inv: "smap_inv m \<Longrightarrow> smap_inv (smap_del k m)"
  unfolding smap_inv_def smap_del_def
  by (induction m) (auto simp: case_prod_beta)

lemma smap_of_inv: "smap_inv (smap_of kvs)"
proof -
  have "smap_inv m \<Longrightarrow> smap_inv (fold (\<lambda>(k, v) m. smap_put k v m) kvs m)" for m :: "'a smap"
    by (induction kvs arbitrary: m) (auto simp: smap_put_inv)
  then show ?thesis by (simp add: smap_of_def smap_inv_def)
qed

text \<open>
  The laws the clients of such a map rely on, as an interface: the JSON objects, the
  configuration file and the resource table are all written against it.
\<close>

locale string_map =
  fixes empty :: "'m"
    and put :: "string \<Rightarrow> 'v \<Rightarrow> 'm \<Rightarrow> 'm"
    and get :: "'m \<Rightarrow> string \<Rightarrow> 'v option"
    and del :: "string \<Rightarrow> 'm \<Rightarrow> 'm"
    and inv :: "'m \<Rightarrow> bool"
  assumes get_empty: "get empty k = None"
    and get_put: "get (put k v m) k' = (if k' = k then Some v else get m k')"
    and get_del: "get (del k m) k' = (if k' = k then None else get m k')"
    and inv_empty: "inv empty"
    and inv_put: "inv m \<Longrightarrow> inv (put k v m)"
    and inv_del: "inv m \<Longrightarrow> inv (del k m)"
begin

definition puts :: "(string \<times> 'v) list \<Rightarrow> 'm \<Rightarrow> 'm" where
  "puts kvs m = fold (\<lambda>(k, v) m. put k v m) kvs m"

lemma get_put_same: "get (put k v m) k = Some v"
  by (simp add: get_put)

lemma get_put_other: "k' \<noteq> k \<Longrightarrow> get (put k v m) k' = get m k'"
  by (simp add: get_put)

lemma get_puts: "get (puts kvs m) k = (case map_of (rev kvs) k of Some v \<Rightarrow> Some v | None \<Rightarrow> get m k)"
proof (induction kvs arbitrary: m)
  case Nil
  then show ?case by (simp add: puts_def)
next
  case (Cons kv kvs)
  obtain k' v' where kv: "kv = (k', v')" by (cases kv)
  have "puts (kv # kvs) m = puts kvs (put k' v' m)" by (simp add: puts_def kv)
  then show ?case using Cons.IH [of "put k' v' m"]
    by (auto simp: kv get_put map_add_def split: option.splits)
qed

lemma get_puts_frame: "k \<notin> fst ` set kvs \<Longrightarrow> get (puts kvs m) k = get m k"
proof -
  assume "k \<notin> fst ` set kvs"
  then have "map_of (rev kvs) k = None" by (simp add: map_of_eq_None_iff)
  then show ?thesis by (simp add: get_puts)
qed

lemma inv_puts: "inv m \<Longrightarrow> inv (puts kvs m)"
  by (induction kvs arbitrary: m) (auto simp: puts_def inv_put)

end

interpretation sm: string_map "[]" smap_put smap_get smap_del smap_inv
  by unfold_locales (simp_all add: smap_put_inv smap_del_inv, simp add: smap_inv_def)

lemma smap_get_of: "smap_get (smap_of kvs) k = map_of (rev kvs) k"
  using sm.get_puts [of kvs "[]" k]
  by (simp add: smap_of_def sm.puts_def split: option.splits)

end
