(* ===== verification/Json_Values.thy ===== *)
theory Json_Values
  imports Prelude
begin

text \<open>
  The JSON values the agent reads and writes. The sources use \<open>nlohmann::json\<close>; its value
  model is a tagged union with three kinds of number (signed, unsigned, floating) and
  objects kept as an ordered map. The accessors below are the ones the sources call, with
  the exceptions that library documents: \<open>value(key, default)\<close> throws a type error on a
  value that is not an object and on a present member of the wrong type, \<open>get<T>\<close> converts
  between the kinds of number.

  The text codec itself (\<open>json::parse\<close>, \<open>dump\<close>) is not under the sources: it is a
  parameter \<open>jp\<close>, \<open>jd\<close> of every definition that reads or writes JSON text.
\<close>

datatype json =
    JNull
  | JBool bool
  | JInt int       \<comment> \<open>\<open>number_integer\<close>, an \<open>int64_t\<close>\<close>
  | JUint int      \<comment> \<open>\<open>number_unsigned\<close>, a \<open>uint64_t\<close>\<close>
  | JFloat rat     \<comment> \<open>\<open>number_float\<close>, a finite \<open>double\<close>\<close>
  | JStr string
  | JArr "json list"
  | JObj "(string \<times> json) list"

instance json :: countable
  by countable_datatype

definition jobj :: "(string \<times> json) list \<Rightarrow> json" where
  "jobj kvs = JObj (smap_of kvs)"

fun is_object :: "json \<Rightarrow> bool" where
  "is_object (JObj _) = True"
| "is_object _ = False"

fun is_string :: "json \<Rightarrow> bool" where
  "is_string (JStr _) = True"
| "is_string _ = False"

fun is_array :: "json \<Rightarrow> bool" where
  "is_array (JArr _) = True"
| "is_array _ = False"

fun is_number_integer :: "json \<Rightarrow> bool" where
  "is_number_integer (JInt _) = True"
| "is_number_integer (JUint _) = True"
| "is_number_integer _ = False"

fun is_number :: "json \<Rightarrow> bool" where
  "is_number (JFloat _) = True"
| "is_number j = is_number_integer j"

text \<open>\<open>find\<close> and \<open>contains\<close>: only an object has members.\<close>

fun jfind :: "json \<Rightarrow> string \<Rightarrow> json option" where
  "jfind (JObj m) k = smap_get m k"
| "jfind _ k = None"

definition jcontains :: "json \<Rightarrow> string \<Rightarrow> bool" where
  "jcontains j k \<longleftrightarrow> jfind j k \<noteq> None"

text \<open>\<open>empty()\<close>: true of null and of an empty array or object only.\<close>

fun jempty :: "json \<Rightarrow> bool" where
  "jempty JNull = True"
| "jempty (JArr xs) = (xs = [])"
| "jempty (JObj m) = (m = [])"
| "jempty _ = False"

text \<open>Assignment through \<open>operator[](key)\<close>: null becomes an object, other kinds throw.\<close>

fun jset :: "json \<Rightarrow> string \<Rightarrow> json \<Rightarrow> json res" where
  "jset (JObj m) k v = Inr (JObj (smap_put k v m))"
| "jset JNull k v = Inr (JObj (smap_put k v []))"
| "jset _ k v = Inl JsonTypeError"

fun get_string :: "json \<Rightarrow> string res" where
  "get_string (JStr s) = Inr s"
| "get_string _ = Inl JsonTypeError"

fun get_bool :: "json \<Rightarrow> bool res" where
  "get_bool (JBool b) = Inr b"
| "get_bool _ = Inl JsonTypeError"

text \<open>
  \<open>get<int>\<close> narrows by \<open>static_cast\<close> and also takes a boolean; \<open>get<int64_t>\<close> takes
  numbers only. A floating value drops its fraction (a value out of the range of the
  target is undefined in C++; the model keeps the low bits).
\<close>

fun get_int :: "json \<Rightarrow> int res" where
  "get_int (JInt n) = Inr (as_int32 n)"
| "get_int (JUint n) = Inr (as_int32 n)"
| "get_int (JFloat r) = Inr (as_int32 (trunc_rat r))"
| "get_int (JBool b) = Inr (if b then 1 else 0)"
| "get_int _ = Inl JsonTypeError"

fun get_int64 :: "json \<Rightarrow> int res" where
  "get_int64 (JInt n) = Inr (as_int64 n)"
| "get_int64 (JUint n) = Inr (as_int64 n)"
| "get_int64 (JFloat r) = Inr (as_int64 (trunc_rat r))"
| "get_int64 _ = Inl JsonTypeError"

text \<open>
  \<open>get<double>\<close>: an integer is rounded to the nearest \<open>double\<close>; \<open>rd\<close> is the rounding of
  the platform.
\<close>

fun get_double :: "(rat \<Rightarrow> rat) \<Rightarrow> json \<Rightarrow> rat res" where
  "get_double rd (JInt n) = Inr (rd (of_int n))"
| "get_double rd (JUint n) = Inr (rd (of_int n))"
| "get_double rd (JFloat r) = Inr r"
| "get_double rd _ = Inl JsonTypeError"

definition jvalue :: "(json \<Rightarrow> 'a res) \<Rightarrow> json \<Rightarrow> string \<Rightarrow> 'a \<Rightarrow> 'a res" where
  "jvalue get j k d =
     (if \<not> is_object j then Inl JsonTypeError
      else case jfind j k of None \<Rightarrow> Inr d | Some v \<Rightarrow> get v)"

lemma jvalue_absent: "is_object j \<Longrightarrow> jfind j k = None \<Longrightarrow> jvalue get j k d = Inr d"
  by (simp add: jvalue_def)

lemma jvalue_present: "jfind j k = Some v \<Longrightarrow> jvalue get j k d = get v"
  by (cases j) (auto simp: jvalue_def)

lemma jfind_jobj [simp]: "jfind (jobj kvs) k = map_of (rev kvs) k"
  by (simp add: jobj_def smap_get_of)

lemma is_object_jobj [simp]: "is_object (jobj kvs)"
  by (simp add: jobj_def)

lemma jfind_jset: "jset j k v = Inr j' \<Longrightarrow> jfind j' k' = (if k' = k then Some v else jfind j k')"
  by (cases j) auto

lemma is_object_iff: "is_object j \<longleftrightarrow> (\<exists>m. j = JObj m)"
  by (cases j) simp_all

lemma jcontains_object: "jcontains j k \<Longrightarrow> is_object j"
  by (cases j) (simp_all add: jcontains_def)

section \<open>Text\<close>

text \<open>
  Reading back what was written: a non-negative signed integer is read as an unsigned
  one, everything else as itself. The law holds of plain values: strings in ASCII (other
  text may not be UTF-8, which \<open>dump\<close> refuses), integers in range, no floating number.
\<close>

primrec jnorm :: "json \<Rightarrow> json" where
  "jnorm JNull = JNull"
| "jnorm (JBool b) = JBool b"
| "jnorm (JInt n) = (if 0 \<le> n then JUint n else JInt n)"
| "jnorm (JUint n) = JUint n"
| "jnorm (JFloat r) = JFloat r"
| "jnorm (JStr s) = JStr s"
| "jnorm (JArr xs) = JArr (map jnorm xs)"
| "jnorm (JObj m) = JObj (map (map_prod id jnorm) m)"

definition ascii :: "string \<Rightarrow> bool" where
  "ascii s \<longleftrightarrow> (\<forall>c\<in>set s. code_of c < 128)"

primrec jplain :: "json \<Rightarrow> bool" where
  "jplain JNull = True"
| "jplain (JBool b) = True"
| "jplain (JInt n) = in_int64 n"
| "jplain (JUint n) = (0 \<le> n \<and> n < 18446744073709551616)"
| "jplain (JFloat r) = False"
| "jplain (JStr s) = ascii s"
| "jplain (JArr xs) = list_all id (map jplain xs)"
| "jplain (JObj m) = (smap_inv m \<and> list_all (\<lambda>(k, b). ascii k \<and> b) (map (map_prod id jplain) m))"

definition json_text :: "(string \<Rightarrow> json option) \<Rightarrow> (json \<Rightarrow> string) \<Rightarrow> bool" where
  "json_text jp jd \<longleftrightarrow> (\<forall>j. jplain j \<longrightarrow> jp (jd j) = Some (jnorm j))"

lemma json_textD: "json_text jp jd \<Longrightarrow> jplain j \<Longrightarrow> jp (jd j) = Some (jnorm j)"
  by (simp add: json_text_def)

lemma smap_get_norm: "smap_get (map (map_prod id f) m) k = map_option f (smap_get m k)"
  by (induction m) (auto simp: smap_get_def)

lemma jfind_jnorm [simp]: "jfind (jnorm j) k = map_option jnorm (jfind j k)"
  by (cases j) (simp_all add: smap_get_norm)

lemma is_object_jnorm [simp]: "is_object (jnorm j) = is_object j"
  by (cases j) simp_all

lemma get_string_jnorm [simp]: "get_string (jnorm j) = get_string j"
  by (cases j) simp_all

lemma get_bool_jnorm [simp]: "get_bool (jnorm j) = get_bool j"
  by (cases j) simp_all

lemma get_int_jnorm [simp]: "get_int (jnorm j) = get_int j"
  by (cases j) simp_all

lemma get_int64_jnorm [simp]: "get_int64 (jnorm j) = get_int64 j"
  by (cases j) simp_all

lemma jnorm_kind [simp]:
  "is_string (jnorm j) = is_string j"
  "is_array (jnorm j) = is_array j"
  "is_number_integer (jnorm j) = is_number_integer j"
  "is_number (jnorm j) = is_number j"
  "jempty (jnorm j) = jempty j"
  by (cases j; simp)+

lemma get_comp_jnorm [simp]: "get_string \<circ> jnorm = get_string" "get_bool \<circ> jnorm = get_bool"
  by (simp_all add: fun_eq_iff)

lemma case_jnorm_string [simp]:
  "(case jnorm v of JStr t \<Rightarrow> f t | _ \<Rightarrow> d) = (case v of JStr t \<Rightarrow> f t | _ \<Rightarrow> d)"
  by (cases v) simp_all

lemma jvalue_jnorm:
  "(\<And>v. get (jnorm v) = get v) \<Longrightarrow> jvalue get (jnorm j) k d = jvalue get j k d"
  by (auto simp: jvalue_def split: option.splits)

lemmas jvalue_norms [simp] =
  jvalue_jnorm [where get = get_string, OF get_string_jnorm]
  jvalue_jnorm [where get = get_bool, OF get_bool_jnorm]
  jvalue_jnorm [where get = get_int, OF get_int_jnorm]
  jvalue_jnorm [where get = get_int64, OF get_int64_jnorm]

lemma jplain_jnorm: "jplain j \<Longrightarrow> jplain (jnorm j)"
proof (induction j)
  case (JInt n)
  then show ?case by (simp add: in_int64_def)
next
  case (JArr xs)
  then show ?case by (auto simp: list_all_iff)
next
  case (JObj m)
  have keys: "map fst (map (map_prod id jnorm) m) = map fst m"
    by (induction m) auto
  have "\<forall>x \<in> set m. jplain (jnorm (snd x))"
    using JObj by (force simp: list_all_iff)
  with JObj.prems keys show ?case by (auto simp: list_all_iff smap_inv_def)
qed simp_all

lemma jplain_jobj:
  assumes "\<forall>(k, v) \<in> set kvs. ascii k \<and> jplain v"
  shows "jplain (jobj kvs)"
proof -
  have put: "\<forall>x \<in> set m. P x \<Longrightarrow> P (k, v) \<Longrightarrow> \<forall>x \<in> set (smap_put k v m). P x"
    for P and k :: string and v :: json and m
    by (induction k v m rule: smap_put.induct) auto
  have "\<forall>x \<in> set m. case x of (k, v) \<Rightarrow> ascii k \<and> jplain v \<Longrightarrow>
      \<forall>x \<in> set (fold (\<lambda>(k, v) m. smap_put k v m) kvs m). case x of (k, v) \<Rightarrow> ascii k \<and> jplain v" for m
    using assms
  proof (induction kvs arbitrary: m)
    case Nil
    then show ?case by simp
  next
    case (Cons kv kvs)
    obtain k v where kv: "kv = (k, v)" by (cases kv)
    have "\<forall>x \<in> set (smap_put k v m). case x of (k, v) \<Rightarrow> ascii k \<and> jplain v"
      by (rule put) (use Cons.prems kv in auto)
    then show ?case using Cons.IH Cons.prems(2) kv by simp
  qed
  from this [of "[]"] have "\<forall>(k, v) \<in> set (smap_of kvs). ascii k \<and> jplain v"
    by (auto simp: smap_of_def)
  then show ?thesis
    by (auto simp: jobj_def smap_of_inv list_all_iff)
qed

text \<open>
  A codec that obeys the law, for instantiating the parameters: a value is written as a
  word whose length numbers it.
\<close>

definition ref_dump :: "json \<Rightarrow> string" where
  "ref_dump j = replicate (to_nat j) (CHR ''j'')"

definition ref_parse :: "string \<Rightarrow> json option" where
  "ref_parse s = Some (jnorm (from_nat (length s)))"

lemma ref_text: "ref_parse (ref_dump j) = Some (jnorm j)"
  by (simp add: ref_parse_def ref_dump_def)

lemma json_text_ref: "json_text ref_parse ref_dump"
  by (simp add: json_text_def ref_text)

end
