(* ===== verification/Update_Marker.thy ===== *)
theory Update_Marker
  imports Json_Values
begin

text \<open>
  The state the update watchdog keeps on disk (\<open>src/thinr/update/update_marker.hpp\<close>,
  \<open>update_marker.cpp\<close>): the marker of an update in flight, the durable record of the last
  reverted update, and their JSON forms.
\<close>

definition UPDATE_STATE_FILE :: string where "UPDATE_STATE_FILE = ''update.state''"
definition UPDATE_REVERTED_FILE :: string where "UPDATE_REVERTED_FILE = ''update.reverted''"

datatype update_phase = PhaseNone | Pending | RolledBack

fun phase_to_string :: "update_phase \<Rightarrow> string" where
  "phase_to_string Pending = ''pending''"
| "phase_to_string RolledBack = ''rolled_back''"
| "phase_to_string PhaseNone = ''none''"

definition phase_from_string :: "string \<Rightarrow> update_phase option" where
  "phase_from_string text =
     (if text = ''pending'' then Some Pending
      else if text = ''rolled_back'' then Some RolledBack
      else if text = ''none'' then Some PhaseNone
      else None)"

lemma phase_strings [simp]: "phase_from_string (phase_to_string p) = Some p"
  by (cases p) (simp_all add: phase_from_string_def)

section \<open>The marker\<close>

record update_marker =
  um_phase :: update_phase
  um_from :: string
  um_to :: string
  um_prev_binary :: string
  um_started_at :: int
  um_attempts :: int
  um_deadline_s :: int
  um_report_attempts :: int

definition default_marker :: update_marker where
  "default_marker = \<lparr>um_phase = PhaseNone, um_from = [], um_to = [], um_prev_binary = [],
     um_started_at = 0, um_attempts = 0, um_deadline_s = 90, um_report_attempts = 0\<rparr>"

definition marker_to_json :: "update_marker \<Rightarrow> json" where
  "marker_to_json m = jobj
     [(''phase'', JStr (phase_to_string (um_phase m))),
      (''from'', JStr (um_from m)),
      (''to'', JStr (um_to m)),
      (''prev_binary'', JStr (um_prev_binary m)),
      (''started_at'', JInt (um_started_at m)),
      (''attempts'', JInt (um_attempts m)),
      (''deadline_s'', JInt (um_deadline_s m)),
      (''report_attempts'', JInt (um_report_attempts m))]"

definition marker_dump :: "(json \<Rightarrow> string) \<Rightarrow> update_marker \<Rightarrow> string" where
  "marker_dump jd m = jd (marker_to_json m)"

text \<open>
  No phase, or one that is not a known word, is \<open>nullopt\<close>; any other member of the wrong
  type makes \<open>value\<close> throw.
\<close>

definition marker_from_json :: "json \<Rightarrow> update_marker option res" where
  "marker_from_json j =
     (if \<not> is_object j then Inr None
      else case jfind j ''phase'' of
        Some (JStr t) \<Rightarrow>
          (case phase_from_string t of
             None \<Rightarrow> Inr None
           | Some ph \<Rightarrow>
               rbind (jvalue get_string j ''from'' []) (\<lambda>from.
               rbind (jvalue get_string j ''to'' []) (\<lambda>to.
               rbind (jvalue get_string j ''prev_binary'' []) (\<lambda>prev.
               rbind (jvalue get_int64 j ''started_at'' 0) (\<lambda>started.
               rbind (jvalue get_int j ''attempts'' 0) (\<lambda>attempts.
               rbind (jvalue get_int j ''deadline_s'' 90) (\<lambda>deadline.
               rbind (jvalue get_int j ''report_attempts'' 0) (\<lambda>reports.
                 Inr (Some \<lparr>um_phase = ph, um_from = from, um_to = to, um_prev_binary = prev,
                   um_started_at = started, um_attempts = attempts, um_deadline_s = deadline,
                   um_report_attempts = reports\<rparr>)))))))))
      | _ \<Rightarrow> Inr None)"

definition marker_parse :: "(string \<Rightarrow> json option) \<Rightarrow> string \<Rightarrow> update_marker option res" where
  "marker_parse jp text = (case jp text of None \<Rightarrow> Inr None | Some j \<Rightarrow> marker_from_json j)"

section \<open>The reverted record\<close>

record reverted_info =
  rv_version :: string
  rv_restored :: string
  rv_reason :: string
  rv_at :: int

definition reverted_to_json :: "reverted_info \<Rightarrow> json" where
  "reverted_to_json r = jobj
     [(''version'', JStr (rv_version r)),
      (''restored'', JStr (rv_restored r)),
      (''reason'', JStr (rv_reason r)),
      (''at'', JInt (rv_at r))]"

definition reverted_dump :: "(json \<Rightarrow> string) \<Rightarrow> reverted_info \<Rightarrow> string" where
  "reverted_dump jd r = jd (reverted_to_json r)"

definition reverted_from_json :: "json \<Rightarrow> reverted_info option res" where
  "reverted_from_json j =
     (if \<not> is_object j then Inr None
      else case jfind j ''version'' of
        Some (JStr v) \<Rightarrow>
          if v = [] then Inr None
          else
            rbind (jvalue get_string j ''restored'' []) (\<lambda>restored.
            rbind (jvalue get_string j ''reason'' []) (\<lambda>reason.
            rbind (jvalue get_int64 j ''at'' 0) (\<lambda>tm.
              Inr (Some \<lparr>rv_version = v, rv_restored = restored, rv_reason = reason, rv_at = tm\<rparr>))))
      | _ \<Rightarrow> Inr None)"

definition reverted_parse :: "(string \<Rightarrow> json option) \<Rightarrow> string \<Rightarrow> reverted_info option res" where
  "reverted_parse jp text = (case jp text of None \<Rightarrow> Inr None | Some j \<Rightarrow> reverted_from_json j)"

section \<open>Lemmas\<close>

definition marker_ok :: "update_marker \<Rightarrow> bool" where
  "marker_ok m \<longleftrightarrow> ascii (um_from m) \<and> ascii (um_to m) \<and> ascii (um_prev_binary m) \<and>
     in_int64 (um_started_at m) \<and> in_int32 (um_attempts m) \<and> in_int32 (um_deadline_s m) \<and>
     in_int32 (um_report_attempts m)"

definition reverted_ok :: "reverted_info \<Rightarrow> bool" where
  "reverted_ok r \<longleftrightarrow> rv_version r \<noteq> [] \<and> ascii (rv_version r) \<and> ascii (rv_restored r) \<and>
     ascii (rv_reason r) \<and> in_int64 (rv_at r)"

lemma int32_int64: "in_int32 n \<Longrightarrow> in_int64 n"
  by (simp add: in_int32_def in_int64_def)

lemma marker_find [simp]:
  "jfind (marker_to_json m) ''phase'' = Some (JStr (phase_to_string (um_phase m)))"
  "jfind (marker_to_json m) ''from'' = Some (JStr (um_from m))"
  "jfind (marker_to_json m) ''to'' = Some (JStr (um_to m))"
  "jfind (marker_to_json m) ''prev_binary'' = Some (JStr (um_prev_binary m))"
  "jfind (marker_to_json m) ''started_at'' = Some (JInt (um_started_at m))"
  "jfind (marker_to_json m) ''attempts'' = Some (JInt (um_attempts m))"
  "jfind (marker_to_json m) ''deadline_s'' = Some (JInt (um_deadline_s m))"
  "jfind (marker_to_json m) ''report_attempts'' = Some (JInt (um_report_attempts m))"
  "is_object (marker_to_json m)"
  by (simp_all add: marker_to_json_def)

lemma reverted_find [simp]:
  "jfind (reverted_to_json r) ''version'' = Some (JStr (rv_version r))"
  "jfind (reverted_to_json r) ''restored'' = Some (JStr (rv_restored r))"
  "jfind (reverted_to_json r) ''reason'' = Some (JStr (rv_reason r))"
  "jfind (reverted_to_json r) ''at'' = Some (JInt (rv_at r))"
  "is_object (reverted_to_json r)"
  by (simp_all add: reverted_to_json_def)

lemma marker_plain: "marker_ok m \<Longrightarrow> jplain (marker_to_json m)"
  unfolding marker_to_json_def
  by (intro jplain_jobj, cases "um_phase m")
     (simp_all add: marker_ok_def int32_int64, simp_all add: ascii_def code_of_def)

lemma reverted_plain: "reverted_ok r \<Longrightarrow> jplain (reverted_to_json r)"
  unfolding reverted_to_json_def
  by (intro jplain_jobj) (simp add: reverted_ok_def, simp add: ascii_def code_of_def)

lemma marker_read_back:
  "marker_ok m \<Longrightarrow> marker_from_json (jnorm (marker_to_json m)) = Inr (Some m)"
  by (simp add: marker_from_json_def jvalue_present marker_ok_def)

lemma reverted_read_back:
  "reverted_ok r \<Longrightarrow> reverted_from_json (jnorm (reverted_to_json r)) = Inr (Some r)"
  by (simp add: reverted_from_json_def jvalue_present reverted_ok_def)

lemma marker_parse_dump:
  "json_text jp jd \<Longrightarrow> marker_ok m \<Longrightarrow> marker_parse jp (marker_dump jd m) = Inr (Some m)"
  by (simp add: marker_parse_def marker_dump_def json_textD marker_plain marker_read_back)

lemma reverted_parse_dump:
  "json_text jp jd \<Longrightarrow> reverted_ok r \<Longrightarrow> reverted_parse jp (reverted_dump jd r) = Inr (Some r)"
  by (simp add: reverted_parse_def reverted_dump_def json_textD reverted_plain reverted_read_back)

lemma marker_parse_range:
  assumes "marker_from_json j = Inr (Some m)"
  shows "in_int32 (um_attempts m) \<and> in_int32 (um_deadline_s m)"
proof -
  have r: "jvalue get_int j k d = Inr n \<Longrightarrow> in_int32 d \<Longrightarrow> in_int32 n" for k d n
    by (auto simp: jvalue_def in_int32_def split: if_splits option.splits elim!: get_int.elims)
       (use as_int32_range in \<open>auto simp: in_int32_def\<close>)
  show ?thesis
    using assms r [of "''attempts''" 0] r [of "''deadline_s''" 90]
    by (auto simp: marker_from_json_def rbind_eq_Inr in_int32_def split: if_splits option.splits json.splits)
qed

section \<open>Properties\<close>

text \<open>
  C27. The two on-disk records survive a write and a read: what the watchdog wrote before
  a restart is exactly what the next process reads, field by field.
\<close>

theorem marker_and_record_roundtrip:
  assumes "json_text jp jd" and "marker_ok m" and "reverted_ok r"
  shows "marker_parse jp (marker_dump jd m) = Inr (Some m) \<and>
    reverted_parse jp (reverted_dump jd r) = Inr (Some r)"
  using assms by (simp_all add: marker_parse_dump reverted_parse_dump)

definition demo_marker :: update_marker where
  "demo_marker = \<lparr>um_phase = Pending, um_from = ''v1.7.5'', um_to = ''v1.8.0'',
     um_prev_binary = ''/bin/agent.prev'', um_started_at = 1762000000, um_attempts = 0,
     um_deadline_s = 90, um_report_attempts = 0\<rparr>"

definition demo_reverted :: reverted_info where
  "demo_reverted = \<lparr>rv_version = ''v1.8.0'', rv_restored = ''v1.7.5'', rv_reason = ''deadline'', rv_at = 1762000100\<rparr>"

lemma demo_marker_ok: "marker_ok demo_marker"
  by (simp add: marker_ok_def demo_marker_def ascii_def code_of_def in_int32_def in_int64_def)

lemma demo_reverted_ok: "reverted_ok demo_reverted"
  by (simp add: reverted_ok_def demo_reverted_def ascii_def code_of_def in_int64_def)

theorem marker_and_record_roundtrip_witness:
  "marker_parse ref_parse (marker_dump ref_dump demo_marker) = Inr (Some demo_marker) \<and>
   reverted_parse ref_parse (reverted_dump ref_dump demo_reverted) = Inr (Some demo_reverted)"
  using marker_and_record_roundtrip [OF json_text_ref demo_marker_ok demo_reverted_ok] by simp

text \<open>
  A marker file is rejected as \<open>nullopt\<close> only when it is not an object or has no valid
  phase. With a valid phase, a text member that is not a string or a number member that is
  not a number is not rejected: the parse throws, although the header promises \<open>nullopt\<close>.
\<close>

theorem marker_ill_typed_throws:
  assumes "jp text = Some j" and "jfind j ''phase'' = Some (JStr t)" and "phase_from_string t \<noteq> None"
    and "(\<exists>k \<in> {''from'', ''to'', ''prev_binary''}. \<exists>v. jfind j k = Some v \<and> \<not> is_string v) \<or>
         (\<exists>k \<in> {''attempts'', ''deadline_s''}. \<exists>v. jfind j k = Some v \<and> (is_string v \<or> is_object v))"
  shows "marker_parse jp text = Inl JsonTypeError"
proof -
  have obj: "is_object j" using assms(2) by (cases j) auto
  have str: "jvalue get_string j k d = Inl e \<Longrightarrow> e = JsonTypeError" for k d e
    by (auto simp: jvalue_def split: if_splits option.splits elim: get_string.elims)
  have i64: "jvalue get_int64 j k d = Inl e \<Longrightarrow> e = JsonTypeError" for k d e
    by (auto simp: jvalue_def split: if_splits option.splits elim: get_int64.elims)
  have i32: "jvalue get_int j k d = Inl e \<Longrightarrow> e = JsonTypeError" for k d e
    by (auto simp: jvalue_def split: if_splits option.splits elim: get_int.elims)
  have bad1: "jfind j k = Some v \<Longrightarrow> \<not> is_string v \<Longrightarrow> jvalue get_string j k d = Inl JsonTypeError" for k v d
    by (cases v) (simp_all add: jvalue_present)
  have bad2: "jfind j k = Some v \<Longrightarrow> is_string v \<or> is_object v \<Longrightarrow> jvalue get_int j k d = Inl JsonTypeError" for k v d
    by (cases v) (simp_all add: jvalue_present)
  have "\<exists>e. marker_from_json j = Inl e"
    using assms(2-4) obj bad1 bad2
    by (cases "marker_from_json j")
       (auto simp: marker_from_json_def rbind_eq_Inr split: option.splits)
  then obtain e where e: "marker_from_json j = Inl e" by blast
  then have "e = JsonTypeError"
    using assms(2,3) obj
    by (auto simp: marker_from_json_def rbind_eq_Inl dest: str i64 i32)
  with e assms(1) show ?thesis by (simp add: marker_parse_def)
qed

theorem marker_ill_typed_throws_witness:
  "marker_parse (\<lambda>_. Some (jobj [(''phase'', JStr ''pending''), (''attempts'', JStr ''1'')])) ''x''
     = Inl JsonTypeError"
  by (rule marker_ill_typed_throws [where t = "''pending''", OF refl])
     (simp_all add: phase_from_string_def)

end
