(* ===== verification/Watchdog_Core.thy ===== *)
theory Watchdog_Core
  imports Update_Marker
begin

text \<open>
  The pure decisions of the rollback watchdog
  (\<open>src/thinr/update/watchdog_core.hpp\<close>, \<open>watchdog_core.cpp\<close>): what to do at process
  start, what to do with an event once armed, and whether the poll loop skips a version
  that was reverted.
\<close>

definition WATCHDOG_MAX_ATTEMPTS :: int where "WATCHDOG_MAX_ATTEMPTS = 3"

datatype boot_action = CleanStart | ReportRolledBack | Arm | Rollback | ClearNoRevert

record boot_decision =
  bd_action :: boot_action
  bd_marker :: update_marker
  bd_detail :: string

text \<open>The increment of an \<open>int\<close> is kept at 32 bits (the overflow itself is undefined in C++).\<close>

definition decide_boot :: "update_marker option \<Rightarrow> string \<Rightarrow> boot_decision" where
  "decide_boot marker running_version =
     (case marker of
        None \<Rightarrow> \<lparr>bd_action = CleanStart, bd_marker = default_marker, bd_detail = ''no update marker''\<rparr>
      | Some m \<Rightarrow>
          if um_phase m = PhaseNone then
            \<lparr>bd_action = CleanStart, bd_marker = default_marker, bd_detail = ''no update marker''\<rparr>
          else if um_phase m = RolledBack then
            \<lparr>bd_action = ReportRolledBack, bd_marker = m,
             bd_detail = ''previous rollback pending report''\<rparr>
          else if running_version \<noteq> um_to m then
            \<lparr>bd_action = ClearNoRevert, bd_marker = m,
             bd_detail = ''running version is not the swap target; clearing without revert''\<rparr>
          else
            let armed = m\<lparr>um_attempts := as_int32 (um_attempts m + 1)\<rparr> in
            if um_attempts armed > WATCHDOG_MAX_ATTEMPTS then
              \<lparr>bd_action = Rollback, bd_marker = armed,
               bd_detail = ''crash loop: attempts exhausted''\<rparr>
            else
              \<lparr>bd_action = Arm, bd_marker = armed,
               bd_detail = ''new binary on trial; arming watchdog''\<rparr>)"

datatype runtime_event = StreamsReady | AuthFailed | AuthFailedIo | StateOther | Deadline

datatype runtime_action = Ignore | Confirm | RollbackNow

fun decide_runtime :: "runtime_event \<Rightarrow> runtime_action" where
  "decide_runtime StreamsReady = Confirm"
| "decide_runtime AuthFailed = RollbackNow"
| "decide_runtime Deadline = RollbackNow"
| "decide_runtime AuthFailedIo = Ignore"
| "decide_runtime StateOther = Ignore"

text \<open>The subtraction is on \<open>int64_t\<close>.\<close>

definition skip_reverted_version :: "reverted_info \<Rightarrow> string \<Rightarrow> int \<Rightarrow> int \<Rightarrow> bool" where
  "skip_reverted_version rv candidate_version now cooldown_s =
     (if rv_version rv \<noteq> candidate_version then False
      else if rv_reason rv \<noteq> ''deadline'' then True
      else as_int64 (now - rv_at rv) < cooldown_s)"

section \<open>Lemmas\<close>

lemma decide_boot_simps:
  "bd_action (decide_boot None v) = CleanStart"
  "um_phase m = PhaseNone \<Longrightarrow> bd_action (decide_boot (Some m) v) = CleanStart"
  "um_phase m = RolledBack \<Longrightarrow> bd_action (decide_boot (Some m) v) = ReportRolledBack"
  "um_phase m = Pending \<Longrightarrow> v \<noteq> um_to m \<Longrightarrow> bd_action (decide_boot (Some m) v) = ClearNoRevert"
  "um_phase m = Pending \<Longrightarrow> v = um_to m \<Longrightarrow>
     bd_action (decide_boot (Some m) v) =
       (if as_int32 (um_attempts m + 1) > WATCHDOG_MAX_ATTEMPTS then Rollback else Arm)"
  "um_phase m = Pending \<Longrightarrow> v = um_to m \<Longrightarrow>
     bd_marker (decide_boot (Some m) v) = m\<lparr>um_attempts := as_int32 (um_attempts m + 1)\<rparr>"
  by (simp_all add: decide_boot_def Let_def)

lemma attempts_step:
  "in_int32 n \<Longrightarrow> n < 2147483647 \<Longrightarrow> as_int32 (n + 1) = n + 1"
  by (simp add: in_int32_def)

lemma rollback_iff:
  "bd_action (decide_boot marker v) = Rollback \<longleftrightarrow>
     (\<exists>m. marker = Some m \<and> um_phase m = Pending \<and> v = um_to m \<and>
          as_int32 (um_attempts m + 1) > WATCHDOG_MAX_ATTEMPTS)"
proof (cases marker)
  case None
  then show ?thesis by (simp add: decide_boot_simps)
next
  case (Some m)
  then show ?thesis
    by (cases "um_phase m"; cases "v = um_to m") (simp_all add: decide_boot_simps)
qed

text \<open>
  The boots of one trial: each start reads the marker that the one before persisted. The
  list holds the action of every start, up to and including the first that is not \<open>Arm\<close>.
\<close>

fun trial_boots :: "nat \<Rightarrow> update_marker \<Rightarrow> string \<Rightarrow> boot_action list" where
  "trial_boots 0 m v = []"
| "trial_boots (Suc n) m v =
     (let d = decide_boot (Some m) v in
      bd_action d # (if bd_action d = Arm then trial_boots n (bd_marker d) v else []))"

lemma trial_boots_arm:
  assumes "um_phase m = Pending" and "um_to m = v" and "um_attempts m < 3" and "- 2147483648 \<le> um_attempts m"
  shows "trial_boots (Suc n) m v = Arm # trial_boots n (m\<lparr>um_attempts := um_attempts m + 1\<rparr>) v"
proof -
  have "as_int32 (um_attempts m + 1) = um_attempts m + 1"
    using assms by (simp add: in_int32_def)
  with assms show ?thesis
    by (simp add: decide_boot_simps WATCHDOG_MAX_ATTEMPTS_def)
qed

lemma trial_boots_rollback:
  assumes "um_phase m = Pending" and "um_to m = v" and "3 \<le> um_attempts m" and "um_attempts m < 2147483647"
  shows "trial_boots (Suc n) m v = [Rollback]"
proof -
  have "as_int32 (um_attempts m + 1) = um_attempts m + 1"
    using assms by (simp add: in_int32_def)
  with assms show ?thesis
    by (simp add: decide_boot_simps WATCHDOG_MAX_ATTEMPTS_def)
qed

section \<open>Properties\<close>

text \<open>
  Which boots revert: exactly those of the version an update in flight installed, once
  its attempts are used up. A process that is not the swap target, one without a marker and
  one that still owes the report of an earlier rollback are never reverted.
\<close>

theorem boot_reverts_iff:
  assumes "\<forall>m. marker = Some m \<longrightarrow> in_int32 (um_attempts m) \<and> um_attempts m < 2147483647"
  shows "bd_action (decide_boot marker running_version) = Rollback \<longleftrightarrow>
    (\<exists>m. marker = Some m \<and> um_phase m = Pending \<and> running_version = um_to m \<and> 3 \<le> um_attempts m)"
proof -
  have "(as_int32 (um_attempts m + 1) > WATCHDOG_MAX_ATTEMPTS) = (3 \<le> um_attempts m)" if "marker = Some m" for m
    using assms that attempts_step [of "um_attempts m"] by (simp add: WATCHDOG_MAX_ATTEMPTS_def)
  then show ?thesis using rollback_iff [of marker running_version] by auto
qed

theorem boot_reverts_iff_witness:
  "bd_action (decide_boot (Some (demo_marker\<lparr>um_attempts := 3\<rparr>)) ''v1.8.0'') = Rollback"
  by (subst boot_reverts_iff) (simp_all add: in_int32_def demo_marker_def)

text \<open>
  A new binary that never confirms is started exactly three times and reverted on the
  fourth start, whatever the number of starts after the swap.
\<close>

theorem three_boots_then_rollback:
  assumes "um_phase m = Pending" and "um_attempts m = 0" and "um_to m = running_version"
  shows "trial_boots (4 + n) m running_version = [Arm, Arm, Arm, Rollback]"
proof -
  have "4 + n = Suc (Suc (Suc (Suc n)))" by simp
  with assms show ?thesis
    by (simp only: trial_boots_arm trial_boots_rollback) (simp add: trial_boots_arm trial_boots_rollback del: trial_boots.simps)
qed

theorem three_boots_then_rollback_witness:
  "trial_boots (4 + 6) demo_marker ''v1.8.0'' = [Arm, Arm, Arm, Rollback]"
  by (rule three_boots_then_rollback) (simp_all add: demo_marker_def)

end
