(* ===== verification/Manifest.thy ===== *)
theory Manifest
  imports Json_Values "HOL-Library.Word"
begin

text \<open>
  The channel manifest, the staged rollout and the poll cadence
  (\<open>src/thinr/update/manifest.hpp\<close>, \<open>manifest.cpp\<close>, \<open>poll_schedule.hpp\<close>).

  Floating arithmetic is kept as the code writes it: every operation on \<open>long double\<close> is
  followed by the rounding \<open>ldbl\<close> of the platform, every conversion to \<open>double\<close> by \<open>dbl\<close>.
  Both are parameters (the width of \<open>long double\<close> differs between the targets of the
  build), and what is assumed of them, in \<open>ieee\<close>, holds of every IEEE 754 format. SHA-256
  comes from OpenSSL and is a parameter too: \<open>None\<close> when \<open>EVP_Digest\<close> fails.
\<close>

unbundle bit_operations_syntax

section \<open>Floating arithmetic\<close>

record fpu =
  dbl :: "rat \<Rightarrow> rat"      \<comment> \<open>rounding to \<open>double\<close>\<close>
  ldbl :: "rat \<Rightarrow> rat"     \<comment> \<open>rounding to \<open>long double\<close>\<close>
  below1 :: rat           \<comment> \<open>\<open>std::nextafter(1.0L, 0.0L)\<close>\<close>

definition ieee :: "fpu \<Rightarrow> bool" where
  "ieee F \<longleftrightarrow> mono (dbl F) \<and> mono (ldbl F) \<and> dbl F 0 = 0 \<and> dbl F 1 = 1 \<and> ldbl F 0 = 0 \<and> ldbl F 1 = 1
     \<and> 0 \<le> below1 F \<and> below1 F < 1"

lemma ieee_mono: "ieee F \<Longrightarrow> x \<le> y \<Longrightarrow> dbl F x \<le> dbl F y" "ieee F \<Longrightarrow> x \<le> y \<Longrightarrow> ldbl F x \<le> ldbl F y"
  by (auto simp: ieee_def mono_def)

lemma ieee_nonneg: "ieee F \<Longrightarrow> 0 \<le> x \<Longrightarrow> 0 \<le> ldbl F x" "ieee F \<Longrightarrow> 0 \<le> x \<Longrightarrow> 0 \<le> dbl F x"
  by (metis ieee_def mono_def)+

lemma ieee_nonpos: "ieee F \<Longrightarrow> x \<le> 0 \<Longrightarrow> ldbl F x \<le> 0"
  by (metis ieee_def mono_def)

lemma ieee_le_one: "ieee F \<Longrightarrow> x \<le> 1 \<Longrightarrow> ldbl F x \<le> 1" "ieee F \<Longrightarrow> x \<le> 1 \<Longrightarrow> dbl F x \<le> 1"
  by (metis ieee_def mono_def)+

text \<open>A platform that computes exactly, and one with a fixed 53-bit grid, rounding half up.\<close>

definition exact_fpu :: fpu where
  "exact_fpu = \<lparr>dbl = id, ldbl = id, below1 = 1 - 1 / 2 ^ 64\<rparr>"

definition grid53 :: "rat \<Rightarrow> rat" where
  "grid53 x = of_int \<lfloor>x * 2 ^ 53 + 1 / 2\<rfloor> / 2 ^ 53"

definition grid_fpu :: fpu where
  "grid_fpu = \<lparr>dbl = grid53, ldbl = id, below1 = 1 - 1 / 2 ^ 64\<rparr>"

lemma ieee_exact [simp]: "ieee exact_fpu"
  by (simp add: ieee_def exact_fpu_def mono_def)

lemma mono_grid53: "mono grid53"
  by (auto simp: mono_def grid53_def intro!: divide_right_mono floor_mono)

lemma grid53_ends: "grid53 0 = 0" "grid53 1 = 1"
proof -
  have "\<lfloor>(1 / 2 :: rat)\<rfloor> = 0" "\<lfloor>(18014398509481985 / 2 :: rat)\<rfloor> = 9007199254740992"
    by (simp_all add: floor_eq_iff)
  then show "grid53 0 = 0" "grid53 1 = 1" by (simp_all add: grid53_def)
qed

lemma ieee_grid [simp]: "ieee grid_fpu"
  using mono_grid53 grid53_ends by (simp add: ieee_def grid_fpu_def mono_def)

section \<open>The manifest\<close>

record manifest =
  mf_version :: string
  mf_checksums :: "string smap"
  mf_valid :: bool
  mf_has_staging :: bool
  mf_staging_invalid :: bool
  mf_published_at :: int
  mf_soak_h :: rat
  mf_ramp_h :: rat
  mf_has_frozen :: bool
  mf_frozen_at :: int

definition empty_manifest :: manifest where
  "empty_manifest = \<lparr>mf_version = [], mf_checksums = [], mf_valid = False, mf_has_staging = False,
     mf_staging_invalid = False, mf_published_at = 0, mf_soak_h = 0, mf_ramp_h = 0,
     mf_has_frozen = False, mf_frozen_at = 0\<rparr>"

datatype eligibility = Eligible | LegacyEligible | Soak | Ramp | Invalid | Clock

text \<open>
  A number of the manifest as a \<open>double\<close>. Parsed numbers are always finite (the parser
  rejects a literal out of range), so the code's \<open>isfinite\<close> test adds nothing here.
\<close>

definition number_of :: "fpu \<Rightarrow> json \<Rightarrow> string \<Rightarrow> rat option" where
  "number_of F j k =
     (case jfind j k of
        Some v \<Rightarrow> (if is_number v then (case get_double (dbl F) v of Inr r \<Rightarrow> Some r | Inl _ \<Rightarrow> None) else None)
      | None \<Rightarrow> None)"

definition int64_of :: "json \<Rightarrow> string \<Rightarrow> int" where
  "int64_of j k =
     (case jfind j k of Some v \<Rightarrow> (case get_int64 v of Inr n \<Rightarrow> n | Inl _ \<Rightarrow> 0) | None \<Rightarrow> 0)"

definition positive :: "rat option \<Rightarrow> bool" where
  "positive r \<longleftrightarrow> (\<exists>x. r = Some x \<and> 0 < x)"

definition hours_ok :: "rat option \<Rightarrow> bool" where
  "hours_ok r \<longleftrightarrow> (\<exists>x. r = Some x \<and> 0 \<le> x \<and> x \<le> 8760)"

lemma positive_code [code]: "positive r = (case r of None \<Rightarrow> False | Some x \<Rightarrow> 0 < x)"
  by (auto simp: positive_def split: option.splits)

lemma hours_ok_code [code]: "hours_ok r = (case r of None \<Rightarrow> False | Some x \<Rightarrow> 0 \<le> x \<and> x \<le> 8760)"
  by (auto simp: hours_ok_def split: option.splits)

definition parse_checksums :: "json \<Rightarrow> string smap" where
  "parse_checksums j =
     (case jfind j ''checksums'' of
        Some (JObj m) \<Rightarrow> fold (\<lambda>(arch, v) acc. case v of JStr s \<Rightarrow> smap_put arch s acc | _ \<Rightarrow> acc) m []
      | _ \<Rightarrow> [])"

definition parse_staging :: "fpu \<Rightarrow> json \<Rightarrow> manifest \<Rightarrow> manifest" where
  "parse_staging F j m =
     (let present = (if jcontains j ''published_at'' then 1 else 0) +
                    (if jcontains j ''soak_h'' then 1 else 0) +
                    (if jcontains j ''ramp_h'' then 1 else (0::nat))
      in if present = 3 then
           let pub_ok = positive (number_of F j ''published_at'');
               soak_ok = hours_ok (number_of F j ''soak_h'');
               ramp_ok = hours_ok (number_of F j ''ramp_h'')
           in if pub_ok \<and> soak_ok \<and> ramp_ok then
                m\<lparr>mf_has_staging := True,
                  mf_published_at := int64_of j ''published_at'',
                  mf_soak_h := the (number_of F j ''soak_h''),
                  mf_ramp_h := the (number_of F j ''ramp_h'')\<rparr>
              else m\<lparr>mf_staging_invalid := True\<rparr>
         else if present \<noteq> 0 then m\<lparr>mf_staging_invalid := True\<rparr>
         else m)"

definition parse_frozen :: "fpu \<Rightarrow> json \<Rightarrow> manifest \<Rightarrow> manifest" where
  "parse_frozen F j m =
     (if positive (number_of F j ''frozen_at'')
      then m\<lparr>mf_has_frozen := True, mf_frozen_at := int64_of j ''frozen_at''\<rparr> else m)"

definition manifest_of_json :: "fpu \<Rightarrow> json \<Rightarrow> manifest" where
  "manifest_of_json F j =
     (if \<not> is_object j then empty_manifest
      else
        let v = (case jfind j ''version'' of Some (JStr s) \<Rightarrow> s | _ \<Rightarrow> []);
            m = empty_manifest\<lparr>mf_version := v, mf_valid := (v \<noteq> []), mf_checksums := parse_checksums j\<rparr>
        in parse_frozen F j (parse_staging F j m))"

definition manifest_parse :: "fpu \<Rightarrow> (string \<Rightarrow> json option) \<Rightarrow> string \<Rightarrow> manifest" where
  "manifest_parse F jp text =
     (case jp text of None \<Rightarrow> empty_manifest | Some j \<Rightarrow> manifest_of_json F j)"

definition checksum_for :: "manifest \<Rightarrow> string \<Rightarrow> string option" where
  "checksum_for m arch = smap_get (mf_checksums m) arch"

fun is_eligible :: "eligibility \<Rightarrow> bool" where
  "is_eligible e = (e = Eligible \<or> e = LegacyEligible)"

section \<open>Eligibility\<close>

type_synonym sha256 = "string \<Rightarrow> 8 word list option"

text \<open>The first eight bytes of the digest as a big-endian 64-bit number.\<close>

definition big_endian :: "8 word list \<Rightarrow> 64 word" where
  "big_endian bs = fold (\<lambda>b be. push_bit 8 be OR ucast b) (take 8 bs) 0"

definition device_fraction :: "fpu \<Rightarrow> sha256 \<Rightarrow> string \<Rightarrow> string \<Rightarrow> rat" where
  "device_fraction F sha device_id version =
     (case sha (device_id @ '':'' @ version) of
        None \<Rightarrow> 0
      | Some digest \<Rightarrow>
          if length digest < 8 then 0
          else
            let be = big_endian digest;
                f = ldbl F (ldbl F (of_nat (unat be)) / 18446744073709551616);
                f = (if f \<ge> 1 then below1 F else f)
            in dbl F f)"

definition soak_end :: "fpu \<Rightarrow> manifest \<Rightarrow> rat" where
  "soak_end F m = ldbl F (ldbl F (of_int (mf_published_at m)) + ldbl F (mf_soak_h m * 3600))"

definition ramp_ratio :: "fpu \<Rightarrow> manifest \<Rightarrow> int \<Rightarrow> rat" where
  "ramp_ratio F m now =
     (let ramp_ref = ldbl F (of_int now);
          ramp_ref = (if mf_has_frozen m then min ramp_ref (ldbl F (of_int (mf_frozen_at m))) else ramp_ref);
          ramp_elapsed_h = ldbl F (ldbl F (ramp_ref - soak_end F m) / 3600)
      in ldbl F (ramp_elapsed_h / mf_ramp_h m))"

definition evaluate_eligibility :: "fpu \<Rightarrow> sha256 \<Rightarrow> manifest \<Rightarrow> string \<Rightarrow> int \<Rightarrow> eligibility" where
  "evaluate_eligibility F sha m device_id now =
     (if \<not> mf_valid m then Invalid
      else if mf_staging_invalid m then Invalid
      else if \<not> mf_has_staging m then LegacyEligible
      else if now < mf_published_at m then Clock
      else if ldbl F (of_int now) < soak_end F m then Soak
      else if mf_ramp_h m \<le> 0 then Eligible
      else if ramp_ratio F m now > device_fraction F sha device_id (mf_version m) then Eligible
      else Ramp)"

section \<open>Poll cadence\<close>

text \<open>\<open>std::clamp(u, 0.0, 1.0)\<close> and the two delays, in seconds.\<close>

definition clamp01 :: "rat \<Rightarrow> rat" where
  "clamp01 u = (if u < 0 then 0 else if 1 < u then 1 else u)"

definition first_poll_delay_s :: "fpu \<Rightarrow> rat \<Rightarrow> rat" where
  "first_poll_delay_s F u = dbl F (dbl F (clamp01 u * 30) * 60)"

definition normal_poll_delay_s :: "fpu \<Rightarrow> int \<Rightarrow> rat \<Rightarrow> rat" where
  "normal_poll_delay_s F check_interval_h u =
     (let jitter = dbl F (dbl F (9 / 10) + dbl F (dbl F (2 / 10) * clamp01 u))
      in dbl F (dbl F (of_int check_interval_h * 3600) * jitter))"

definition DEFERRED_RETRY_DELAY_S :: int where "DEFERRED_RETRY_DELAY_S = 10 * 60"
definition REVERTED_RETRY_COOLDOWN_S :: int where "REVERTED_RETRY_COOLDOWN_S = 24 * 60 * 60"

section \<open>Lemmas\<close>

lemma clamp01_bounds: "0 \<le> clamp01 u" "clamp01 u \<le> 1"
  by (simp_all add: clamp01_def)

lemma device_fraction_bounds:
  assumes "ieee F"
  shows "0 \<le> device_fraction F sha d v \<and> device_fraction F sha d v \<le> 1"
proof -
  have b: "0 \<le> below1 F" "below1 F \<le> 1" using assms by (simp_all add: ieee_def)
  have f: "0 \<le> dbl F (if x \<ge> 1 then below1 F else x) \<and> dbl F (if x \<ge> 1 then below1 F else x) \<le> 1"
    if "0 \<le> x" for x :: rat
    using that b assms by (auto intro: ieee_nonneg ieee_le_one)
  have "0 \<le> ldbl F (ldbl F (of_nat n) / 18446744073709551616)" for n
    using assms by (simp add: ieee_nonneg)
  note g = f [OF this]
  show ?thesis
  proof (cases "sha (d @ '':'' @ v)")
    case None
    then show ?thesis by (simp add: device_fraction_def)
  next
    case (Some digest)
    then show ?thesis using g [of "unat (big_endian digest)"]
      unfolding device_fraction_def Let_def by simp
  qed
qed

definition ramp_time :: "fpu \<Rightarrow> manifest \<Rightarrow> int \<Rightarrow> rat" where
  "ramp_time F m now =
     (if mf_has_frozen m then min (ldbl F (of_int now)) (ldbl F (of_int (mf_frozen_at m)))
      else ldbl F (of_int now))"

lemma ramp_ratio_eq:
  "ramp_ratio F m now = ldbl F (ldbl F (ldbl F (ramp_time F m now - soak_end F m) / 3600) / mf_ramp_h m)"
  by (simp add: ramp_ratio_def ramp_time_def Let_def)

lemma ramp_ratio_mono:
  assumes "ieee F" and "0 < mf_ramp_h m" and "now \<le> now'"
  shows "ramp_ratio F m now \<le> ramp_ratio F m now'"
proof -
  have "ldbl F (of_int now) \<le> ldbl F (of_int now')"
    using assms by (simp add: ieee_mono)
  then have "ramp_time F m now \<le> ramp_time F m now'"
    by (auto simp: ramp_time_def min_def)
  then show ?thesis
    unfolding ramp_ratio_eq using assms
    by (intro ieee_mono divide_right_mono diff_right_mono) auto
qed

lemma ramp_ratio_frozen:
  assumes "ieee F" and "mf_has_frozen m" and "mf_frozen_at m \<le> now"
  shows "ramp_ratio F m now = ramp_ratio F m (mf_frozen_at m)"
proof -
  have "ldbl F (of_int (mf_frozen_at m)) \<le> ldbl F (of_int now)"
    using assms by (simp add: ieee_mono)
  then have "ramp_time F m now = ramp_time F m (mf_frozen_at m)"
    using assms(2) by (simp add: ramp_time_def min_absorb2)
  then show ?thesis by (simp add: ramp_ratio_eq)
qed

lemma eligible_iff:
  "is_eligible (evaluate_eligibility F sha m d now) \<longleftrightarrow>
     mf_valid m \<and> \<not> mf_staging_invalid m \<and>
     (\<not> mf_has_staging m \<or>
      (mf_published_at m \<le> now \<and> soak_end F m \<le> ldbl F (of_int now) \<and>
       (mf_ramp_h m \<le> 0 \<or> ramp_ratio F m now > device_fraction F sha d (mf_version m))))"
  by (auto simp: evaluate_eligibility_def)

lemma parse_flags:
  "mf_valid (parse_frozen F j (parse_staging F j m)) = mf_valid m"
  "mf_version (parse_frozen F j (parse_staging F j m)) = mf_version m"
  "mf_staging_invalid (parse_frozen F j (parse_staging F j m)) = mf_staging_invalid (parse_staging F j m)"
  "mf_has_staging (parse_frozen F j (parse_staging F j m)) = mf_has_staging (parse_staging F j m)"
  by (simp_all add: parse_frozen_def parse_staging_def Let_def)

section \<open>Properties\<close>

text \<open>
  C17. The set of eligible devices only grows: a device that is eligible for a manifest at
  some instant is eligible at every later instant, under any monotone floating rounding.
\<close>

theorem eligibility_monotone:
  assumes "ieee F" and "now \<le> now'" and "is_eligible (evaluate_eligibility F sha m device_id now)"
  shows "is_eligible (evaluate_eligibility F sha m device_id now')"
proof -
  have "ldbl F (of_int now) \<le> ldbl F (of_int now')"
    using assms by (simp add: ieee_mono)
  moreover have "0 < mf_ramp_h m \<Longrightarrow> ramp_ratio F m now \<le> ramp_ratio F m now'"
    using assms by (simp add: ramp_ratio_mono)
  ultimately show ?thesis
    using assms unfolding eligible_iff by (meson less_le_trans not_le order_trans)
qed

definition demo_manifest :: manifest where
  "demo_manifest = empty_manifest\<lparr>mf_version := ''v1.8.0'', mf_valid := True, mf_has_staging := True,
     mf_published_at := 1000, mf_soak_h := 1, mf_ramp_h := 1\<rparr>"

definition demo_sha :: sha256 where
  "demo_sha s = Some (replicate 32 128)"

lemma take_digest: "take 8 (replicate 32 (x::'a)) = [x, x, x, x, x, x, x, x]"
  by (simp add: numeral_eq_Suc)

lemma demo_fraction: "device_fraction exact_fpu demo_sha d v = 9259542123273814144 / 18446744073709551616"
proof -
  have "big_endian (replicate 32 128) = 9259542123273814144"
    unfolding big_endian_def take_digest by simp
  then show ?thesis by (simp add: device_fraction_def demo_sha_def exact_fpu_def Let_def)
qed

lemma demo_soak: "soak_end exact_fpu demo_manifest = 4600"
  by (simp add: soak_end_def exact_fpu_def demo_manifest_def)

lemma demo_eligible: "evaluate_eligibility exact_fpu demo_sha demo_manifest ''dev'' 8000 = Eligible"
proof -
  have "ramp_ratio exact_fpu demo_manifest 8000 = 17 / 18"
    by (simp add: ramp_ratio_def demo_soak) (simp add: exact_fpu_def demo_manifest_def empty_manifest_def)
  then show ?thesis
    by (simp add: evaluate_eligibility_def demo_fraction demo_soak)
       (simp add: exact_fpu_def demo_manifest_def empty_manifest_def)
qed

theorem eligibility_monotone_witness:
  "is_eligible (evaluate_eligibility exact_fpu demo_sha demo_manifest ''dev'' 9000)"
  by (rule eligibility_monotone [OF ieee_exact, of 8000]) (simp_all add: demo_eligible)

text \<open>
  C28. Freezing the rollout freezes the exposure: from the frozen instant on, the answer for
  a device past its soak no longer depends on the clock, so a frozen ramp admits no new
  device.
\<close>

theorem freeze_stops_the_ramp:
  assumes "ieee F" and "mf_has_frozen m" and "mf_frozen_at m \<le> now" and "now \<le> now'"
    and "evaluate_eligibility F sha m device_id now = Ramp"
  shows "evaluate_eligibility F sha m device_id now' = Ramp"
proof -
  have "ramp_ratio F m now' = ramp_ratio F m now"
    using ramp_ratio_frozen [OF assms(1,2), of now] ramp_ratio_frozen [OF assms(1,2), of now'] assms(3,4)
    by linarith
  moreover have "ldbl F (of_int now) \<le> ldbl F (of_int now')"
    using assms by (simp add: ieee_mono)
  ultimately show ?thesis
    using assms by (auto simp: evaluate_eligibility_def split: if_splits)
qed

definition frozen_manifest :: manifest where
  "frozen_manifest = demo_manifest\<lparr>mf_has_frozen := True, mf_frozen_at := 5000\<rparr>"

lemma frozen_ramp: "evaluate_eligibility exact_fpu demo_sha frozen_manifest ''dev'' 6000 = Ramp"
proof -
  have s: "soak_end exact_fpu frozen_manifest = 4600"
    by (simp add: soak_end_def exact_fpu_def frozen_manifest_def demo_manifest_def)
  have "ramp_ratio exact_fpu frozen_manifest 6000 = 1 / 9"
    by (simp add: ramp_ratio_def s) (simp add: exact_fpu_def frozen_manifest_def demo_manifest_def empty_manifest_def)
  then show ?thesis
    by (simp add: evaluate_eligibility_def demo_fraction s)
       (simp add: exact_fpu_def frozen_manifest_def demo_manifest_def empty_manifest_def)
qed

theorem freeze_stops_the_ramp_witness:
  "evaluate_eligibility exact_fpu demo_sha frozen_manifest ''dev'' 99999999 = Ramp"
  by (rule freeze_stops_the_ramp [OF ieee_exact _ _ _ frozen_ramp])
     (simp_all add: frozen_manifest_def)

text \<open>
  The staging block is read as a whole and fails safe: if the manifest carries one of
  its three fields but not all of them, or one that is not a number in its range, no device
  is eligible at any time, and before the end of the soak none is either.
\<close>

theorem staging_fails_safe:
  assumes "jp text = Some j"
    and "\<exists>k \<in> {''published_at'', ''soak_h'', ''ramp_h''}. jcontains j k"
    and "\<not> (positive (number_of F j ''published_at'') \<and> hours_ok (number_of F j ''soak_h'') \<and>
            hours_ok (number_of F j ''ramp_h''))"
  shows "evaluate_eligibility F sha (manifest_parse F jp text) device_id now = Invalid"
proof -
  have obj: "is_object j" using assms(2) jcontains_object by auto
  have "mf_staging_invalid (parse_staging F j m)" for m
    using assms(2,3) by (auto simp: parse_staging_def)
  with assms(1) obj show ?thesis
    by (simp add: manifest_parse_def manifest_of_json_def Let_def evaluate_eligibility_def parse_flags)
qed

theorem staging_fails_safe_witness:
  "evaluate_eligibility exact_fpu demo_sha
     (manifest_parse exact_fpu (\<lambda>_. Some (jobj [(''version'', JStr ''v2''), (''soak_h'', JUint 72)])) ''{}'')
     ''dev'' 1762000000 = Invalid"
  by (rule staging_fails_safe [OF refl]) (simp_all add: jcontains_def number_of_def positive_def)

text \<open>
  The device fraction lies in the closed unit interval on every platform, but it is not
  always below one as the header promises: the clamp is applied to the \<open>long double\<close>, and
  the conversion to \<open>double\<close> afterwards rounds the largest fractions up to exactly one.
\<close>

theorem device_fraction_reaches_one:
  assumes "ieee F" and "ldbl F = id" and "dbl F (1 - 1 / 2 ^ 64) = 1"
    and "sha (device_id @ '':'' @ version) = Some (replicate 32 255)"
  shows "device_fraction F sha device_id version = 1 \<and>
    (\<forall>d v. 0 \<le> device_fraction F sha d v \<and> device_fraction F sha d v \<le> 1)"
proof -
  have be: "big_endian (replicate 32 255) = 18446744073709551615"
    unfolding big_endian_def take_digest by simp
  have "dbl F (18446744073709551615 / 18446744073709551616) = 1"
    using assms(3) by simp
  then have "device_fraction F sha device_id version = 1"
    using assms(4) by (simp add: device_fraction_def be assms(2) Let_def)
  then show ?thesis using device_fraction_bounds [OF assms(1), of sha] by simp
qed

theorem device_fraction_reaches_one_witness:
  "device_fraction grid_fpu (\<lambda>_. Some (replicate 32 255)) ''dev'' ''v1'' = 1 \<and>
   (\<forall>d v. 0 \<le> device_fraction grid_fpu (\<lambda>_. Some (replicate 32 255)) d v \<and>
     device_fraction grid_fpu (\<lambda>_. Some (replicate 32 255)) d v \<le> 1)"
proof (rule device_fraction_reaches_one)
  have "\<lfloor>(18446744073709551615 / 18446744073709551616 :: rat) * 9007199254740992 + 1 / 2\<rfloor> = 9007199254740992"
    by (simp add: floor_eq_iff)
  then show "dbl grid_fpu (1 - 1 / 2 ^ 64) = 1"
    by (simp add: grid_fpu_def grid53_def)
  show "ieee grid_fpu" by (rule ieee_grid)
  show "ldbl grid_fpu = id" by (simp add: grid_fpu_def)
qed simp

end
