(* ===== verification/Atomic_File.thy ===== *)
theory Atomic_File
  imports Prelude
begin

text \<open>
  The file system the agent works on, and \<open>write_atomic\<close> of
  \<open>src/thinr/utils/atomic_file.cpp\<close>. The outcome of every system call is an input of the
  model, so each failure branch of the code is a branch here; the trace of file systems the
  calls leave behind is returned with the result, so that a power cut between two calls can
  be reasoned about.
\<close>

unbundle bit_operations_syntax

section \<open>Files\<close>

record fnode =
  f_data :: string
  f_mode :: nat

type_synonym fs = "string \<Rightarrow> fnode option"

definition data_of :: "fs \<Rightarrow> string \<Rightarrow> string option" where
  "data_of s p = map_option f_data (s p)"

definition fexists :: "fs \<Rightarrow> string \<Rightarrow> bool" where
  "fexists s p \<longleftrightarrow> s p \<noteq> None"

text \<open>\<open>unlink\<close> and \<open>std::filesystem::remove(p, ec)\<close>, when the call succeeds.\<close>

definition fremove :: "string \<Rightarrow> fs \<Rightarrow> fs" where
  "fremove p s = s(p := None)"

text \<open>\<open>rename(a, b)\<close> of an existing file: \<open>b\<close> is replaced, \<open>a\<close> disappears.\<close>

definition frename :: "string \<Rightarrow> string \<Rightarrow> fs \<Rightarrow> fs" where
  "frename a b s = (if a = b then s else s(b := s a, a := None))"

text \<open>A file opened for writing, truncated and filled: the bytes change, the mode of an existing file stays.\<close>

definition put_bytes :: "string \<Rightarrow> string \<Rightarrow> fs \<Rightarrow> fs" where
  "put_bytes p bytes s = s(p \<mapsto> \<lparr>f_data = bytes, f_mode = (case s p of Some f \<Rightarrow> f_mode f | None \<Rightarrow> 420)\<rparr>)"

lemma data_of_remove [simp]: "data_of (fremove p s) q = (if q = p then None else data_of s q)"
  by (simp add: data_of_def fremove_def)

lemma data_of_rename: "a \<noteq> b \<Longrightarrow>
    data_of (frename a b s) q = (if q = a then None else if q = b then data_of s a else data_of s q)"
  by (simp add: data_of_def frename_def)

lemma fexists_data: "fexists s p \<longleftrightarrow> data_of s p \<noteq> None"
  by (simp add: fexists_def data_of_def)

lemma frename_apply: "a \<noteq> b \<Longrightarrow>
    frename a b s q = (if q = a then None else if q = b then s a else s q)"
  by (simp add: frename_def)

section \<open>The write loop\<close>

text \<open>
  One outcome per call of \<open>write(2)\<close>: a number of bytes (the kernel never takes more than
  it was offered), an interrupted call that is repeated, or an error.
\<close>

datatype write_out = Wrote nat | Interrupted | WriteFailed

text \<open>
  \<open>write_all\<close>: the loop runs while bytes are left. The result is the success flag and how
  far the file got; \<open>None\<close> when the given outcomes end before the loop does.
\<close>

fun write_all :: "nat \<Rightarrow> nat \<Rightarrow> write_out list \<Rightarrow> (bool \<times> nat) option" where
  "write_all len off outs =
     (if off \<ge> len then Some (True, off)
      else case outs of
             [] \<Rightarrow> None
           | Interrupted # rest \<Rightarrow> write_all len off rest
           | WriteFailed # rest \<Rightarrow> Some (False, off)
           | Wrote n # rest \<Rightarrow> write_all len (off + min n (len - off)) rest)"

declare write_all.simps [simp del]

definition parent_dir :: "string \<Rightarrow> string" where
  "parent_dir path =
     (case find_last (\<lambda>c. c = CHR ''/'') path of
        None \<Rightarrow> ''.''
      | Some i \<Rightarrow> if i = 0 then ''/'' else take i path)"

section \<open>The atomic write\<close>

record wa_env =
  wa_pid :: nat
  wa_umask :: nat
  wa_open :: bool
  wa_writes :: "write_out list"
  wa_fsync :: bool
  wa_close :: bool
  wa_rename :: bool
  wa_unlink :: bool

definition tmp_path :: "wa_env \<Rightarrow> string \<Rightarrow> string" where
  "tmp_path e path = path @ ''.tmp.'' @ show_nat (wa_pid e)"

definition unlink_tmp :: "wa_env \<Rightarrow> string \<Rightarrow> fs \<Rightarrow> fs" where
  "unlink_tmp e tmp s = (if wa_unlink e then fremove tmp s else s)"

text \<open>
  \<open>open(tmp, O_WRONLY | O_CREAT | O_TRUNC, mode)\<close>: an existing file keeps its mode, a new
  one gets \<open>mode\<close> without the bits of the umask.
\<close>

definition open_tmp :: "wa_env \<Rightarrow> string \<Rightarrow> nat \<Rightarrow> fs \<Rightarrow> fs" where
  "open_tmp e tmp mode s =
     s(tmp \<mapsto> \<lparr>f_data = [], f_mode = (case s tmp of Some f \<Rightarrow> f_mode f | None \<Rightarrow> mode - (mode AND wa_umask e))\<rparr>)"

definition fill_tmp :: "string \<Rightarrow> string \<Rightarrow> fs \<Rightarrow> fs" where
  "fill_tmp tmp bytes s = s(tmp := map_option (f_data_update (\<lambda>_. bytes)) (s tmp))"

text \<open>
  The result is the list of intermediate file systems (after the open, after each prefix of
  the content that may be on disk, after the rename), the final one and the return value.
\<close>

definition write_atomic :: "wa_env \<Rightarrow> fs \<Rightarrow> string \<Rightarrow> string \<Rightarrow> nat \<Rightarrow> (fs list \<times> fs \<times> bool) option" where
  "write_atomic e s path content mode =
     (let tmp = tmp_path e path in
      if \<not> wa_open e then Some ([], s, False)
      else
        let s1 = open_tmp e tmp mode s in
        case write_all (length content) 0 (wa_writes e) of
          None \<Rightarrow> None
        | Some (ok, off) \<Rightarrow>
            let part = map (\<lambda>k. fill_tmp tmp (take k content) s1) [0..<Suc off];
                s2 = fill_tmp tmp (take off content) s1;
                ok = (ok \<and> wa_fsync e);
                ok = (ok \<and> wa_close e)
            in
            if \<not> ok then
              let s3 = unlink_tmp e tmp s2 in Some (part @ [s3], s3, False)
            else if \<not> wa_rename e then
              let s3 = unlink_tmp e tmp s2 in Some (part @ [s3], s3, False)
            else
              let s3 = frename tmp path s2 in Some (part @ [s3], s3, True))"

section \<open>Lemmas\<close>

lemma tmp_path_neq [simp]: "tmp_path e p \<noteq> p" "p \<noteq> tmp_path e p"
  by (simp_all add: tmp_path_def)

lemma write_all_done: "off \<ge> len \<Longrightarrow> write_all len off outs = Some (True, off)"
  by (subst write_all.simps) simp

lemma write_all_result:
  "write_all len off outs = Some (ok, off') \<Longrightarrow> off \<le> len \<Longrightarrow> off' \<le> len \<and> (ok \<longrightarrow> off' = len)"
proof (induction len off outs rule: write_all.induct)
  case (1 len off outs)
  show ?case
  proof (cases "off \<ge> len")
    case True
    with 1 show ?thesis by (simp add: write_all_done)
  next
    case False
    note eq = 1(3) [unfolded write_all.simps [of len off outs]]
    show ?thesis
    proof (cases outs)
      case Nil
      with eq False show ?thesis by simp
    next
      case (Cons w rest)
      with eq False 1 show ?thesis
        by (cases w) auto
    qed
  qed
qed

text \<open>Every successful call that makes progress brings the loop closer to its end.\<close>

definition progress :: "write_out \<Rightarrow> bool" where
  "progress w \<longleftrightarrow> (\<exists>n. w = Wrote n \<and> 0 < n)"

lemma progress_simps [simp]:
  "progress (Wrote n) \<longleftrightarrow> 0 < n" "\<not> progress Interrupted" "\<not> progress WriteFailed"
  by (simp_all add: progress_def)

lemma write_all_terminates:
  "len \<le> off + length (filter progress outs) \<Longrightarrow> \<exists>r. write_all len off outs = Some r"
proof (induction outs arbitrary: off)
  case Nil
  then show ?case by (auto simp: write_all_done)
next
  case (Cons w rest)
  show ?case
  proof (cases "off \<ge> len")
    case True
    then show ?thesis by (auto simp: write_all_done)
  next
    case False
    show ?thesis
    proof (cases w)
      case (Wrote n)
      have "len \<le> off + min n (len - off) + length (filter progress rest)"
        using Cons.prems False Wrote by (auto simp: min_def split: if_splits)
      then show ?thesis
        using Cons.IH [of "off + min n (len - off)"] False Wrote
        by (subst write_all.simps) simp
    next
      case Interrupted
      then show ?thesis using Cons False by (subst write_all.simps) simp
    next
      case WriteFailed
      then show ?thesis using False by (subst write_all.simps) auto
    qed
  qed
qed

lemma fill_open_frame: "q \<noteq> t \<Longrightarrow> fill_tmp t b (open_tmp e t m s) q = s q"
  by (simp add: fill_tmp_def open_tmp_def)

lemma fill_open_data: "data_of (fill_tmp t b (open_tmp e t m s)) t = Some b"
  by (simp add: fill_tmp_def open_tmp_def data_of_def)

lemma unlink_frame: "q \<noteq> t \<Longrightarrow> unlink_tmp e t s q = s q"
  by (simp add: unlink_tmp_def fremove_def)

text \<open>The four ways \<open>write_atomic\<close> can end, as one case rule.\<close>

lemma write_atomic_cases:
  assumes "write_atomic e s p c m = Some (tr, s', ok)"
  obtains (not_opened) "\<not> wa_open e" "tr = []" "s' = s" "\<not> ok"
    | (failed) off where "wa_open e" "off \<le> length c" "\<not> ok"
        "s' = unlink_tmp e (tmp_path e p) (fill_tmp (tmp_path e p) (take off c) (open_tmp e (tmp_path e p) m s))"
        "tr = map (\<lambda>k. fill_tmp (tmp_path e p) (take k c) (open_tmp e (tmp_path e p) m s)) [0..<Suc off] @ [s']"
    | (written) "wa_open e" "ok"
        "s' = frename (tmp_path e p) p (fill_tmp (tmp_path e p) c (open_tmp e (tmp_path e p) m s))"
        "tr = map (\<lambda>k. fill_tmp (tmp_path e p) (take k c) (open_tmp e (tmp_path e p) m s)) [0..<Suc (length c)] @ [s']"
proof (cases "wa_open e")
  case False
  with assms not_opened show thesis by (simp add: write_atomic_def)
next
  case True
  with assms obtain ok1 off where w: "write_all (length c) 0 (wa_writes e) = Some (ok1, off)"
    by (auto simp: write_atomic_def Let_def split: option.splits)
  have off: "off \<le> length c" "ok1 \<longrightarrow> off = length c"
    using write_all_result [OF w] by auto
  show thesis
  proof (cases "ok1 \<and> wa_fsync e \<and> wa_close e \<and> wa_rename e")
    case ok: True
    show thesis
      by (rule written) (use True assms w off ok in \<open>auto simp: write_atomic_def Let_def\<close>)
  next
    case bad: False
    show thesis
      by (rule failed [of off])
         (use True assms w off bad in \<open>auto simp: write_atomic_def Let_def split: if_splits\<close>)
  qed
qed

lemma write_atomic_true:
  "write_atomic e s p c m = Some (tr, s', True) \<Longrightarrow> data_of s' p = Some c"
  by (erule write_atomic_cases) (auto simp: data_of_rename fill_open_data)

lemma write_atomic_false:
  "write_atomic e s p c m = Some (tr, s', False) \<Longrightarrow> s' p = s p"
  by (erule write_atomic_cases) (auto simp: unlink_frame fill_open_frame)

lemma write_atomic_frame:
  "write_atomic e s p c m = Some (tr, s', ok) \<Longrightarrow> q \<noteq> p \<Longrightarrow> q \<noteq> tmp_path e p \<Longrightarrow> s' q = s q"
  by (erule write_atomic_cases) (auto simp: unlink_frame fill_open_frame frename_apply)

lemma write_atomic_trace:
  assumes "write_atomic e s p c m = Some (tr, s', ok)" and "t \<in> set tr"
  shows "(t p = s p \<or> data_of t p = Some c) \<and> (\<forall>q. q \<noteq> p \<longrightarrow> q \<noteq> tmp_path e p \<longrightarrow> t q = s q)"
  using assms(1)
proof (cases rule: write_atomic_cases)
  case not_opened
  with assms show ?thesis by simp
next
  case (failed off)
  with assms(2) show ?thesis by (auto simp: fill_open_frame unlink_frame)
next
  case written
  with assms(2) show ?thesis
    by (auto simp: fill_open_frame data_of_rename frename_apply fill_open_data)
qed

lemma write_atomic_returns:
  assumes "length c \<le> length (filter progress (wa_writes e))"
  shows "\<exists>r. write_atomic e s p c m = Some r"
proof -
  obtain ok off where "write_all (length c) 0 (wa_writes e) = Some (ok, off)"
    using write_all_terminates [of "length c" 0 "wa_writes e"] assms by auto
  then show ?thesis by (auto simp: write_atomic_def Let_def)
qed

text \<open>
  The contract the callers rely on, stated as an interface: a write that reports success
  leaves the whole content under the path, one that reports failure leaves the path as it
  was, no other path but the temporary one changes, and each intermediate state shows
  either the old file or the new one.
\<close>

locale atomic_writer =
  fixes wr :: "'e \<Rightarrow> fs \<Rightarrow> string \<Rightarrow> string \<Rightarrow> nat \<Rightarrow> (fs list \<times> fs \<times> bool) option"
    and tmp :: "'e \<Rightarrow> string \<Rightarrow> string"
  assumes wr_true: "wr e s p c m = Some (tr, s', True) \<Longrightarrow> data_of s' p = Some c"
    and wr_false: "wr e s p c m = Some (tr, s', False) \<Longrightarrow> s' p = s p"
    and wr_frame: "wr e s p c m = Some (tr, s', ok) \<Longrightarrow> q \<noteq> p \<Longrightarrow> q \<noteq> tmp e p \<Longrightarrow> s' q = s q"
    and wr_trace: "wr e s p c m = Some (tr, s', ok) \<Longrightarrow> t \<in> set tr \<Longrightarrow>
      (t p = s p \<or> data_of t p = Some c) \<and> (\<forall>q. q \<noteq> p \<longrightarrow> q \<noteq> tmp e p \<longrightarrow> t q = s q)"
begin

lemma wr_data: "wr e s p c m = Some (tr, s', ok) \<Longrightarrow> data_of s' p = (if ok then Some c else data_of s p)"
  by (cases ok) (auto dest: wr_true wr_false simp: data_of_def)

lemma wr_other: "wr e s p c m = Some (tr, s', ok) \<Longrightarrow> q \<noteq> p \<Longrightarrow> q \<noteq> tmp e p \<Longrightarrow> data_of s' q = data_of s q"
  by (simp add: data_of_def wr_frame)

lemma wr_trace_data:
  "wr e s p c m = Some (tr, s', ok) \<Longrightarrow> t \<in> set tr \<Longrightarrow> data_of t p = data_of s p \<or> data_of t p = Some c"
  using wr_trace [of e s p c m tr s' ok t] by (auto simp: data_of_def)

lemma wr_trace_other:
  "wr e s p c m = Some (tr, s', ok) \<Longrightarrow> t \<in> set tr \<Longrightarrow> q \<noteq> p \<Longrightarrow> q \<noteq> tmp e p \<Longrightarrow> data_of t q = data_of s q"
  using wr_trace [of e s p c m tr s' ok t] by (simp add: data_of_def)

end

interpretation aw: atomic_writer write_atomic tmp_path
proof (rule atomic_writer.intro)
  fix e s p c m tr s' ok t q
  show "write_atomic e s p c m = Some (tr, s', True) \<Longrightarrow> data_of s' p = Some c"
    by (rule write_atomic_true)
  show "write_atomic e s p c m = Some (tr, s', False) \<Longrightarrow> s' p = s p"
    by (rule write_atomic_false)
  show "write_atomic e s p c m = Some (tr, s', ok) \<Longrightarrow> q \<noteq> p \<Longrightarrow> q \<noteq> tmp_path e p \<Longrightarrow> s' q = s q"
    by (rule write_atomic_frame)
  show "write_atomic e s p c m = Some (tr, s', ok) \<Longrightarrow> t \<in> set tr \<Longrightarrow>
      (t p = s p \<or> data_of t p = Some c) \<and> (\<forall>q. q \<noteq> p \<longrightarrow> q \<noteq> tmp_path e p \<longrightarrow> t q = s q)"
    by (rule write_atomic_trace)
qed

section \<open>Paths and disk histories\<close>

text \<open>\<open>std::filesystem::path\<close>: \<open>a / b\<close> and \<open>parent_path()\<close> on POSIX names.\<close>

definition path_join :: "string \<Rightarrow> string \<Rightarrow> string" where
  "path_join a b =
     (if starts_with ''/'' b then b
      else if a = [] \<or> ends_with ''/'' a then a @ b
      else a @ ''/'' @ b)"

definition drop_slashes :: "string \<Rightarrow> string" where
  "drop_slashes s = rev (dropWhile (\<lambda>c. c = CHR ''/'') (rev s))"

definition parent_path :: "string \<Rightarrow> string" where
  "parent_path p =
     (case find_last (\<lambda>c. c = CHR ''/'') p of
        None \<Rightarrow> []
      | Some i \<Rightarrow> (let d = drop_slashes (take i p) in if d = [] then ''/'' else d))"

text \<open>
  A history is the list of file systems an operation leaves behind, the newest first; the
  rest of the list is what a power cut may leave. It is never empty: its head is the
  current file system.
\<close>

type_synonym history = "fs list"

definition hstep :: "(fs \<Rightarrow> fs) \<Rightarrow> history \<Rightarrow> history" where
  "hstep f h = f (hd h) # h"

text \<open>A call that reports its failure through an error code changes nothing when it fails.\<close>

definition hremove :: "(string \<Rightarrow> bool) \<Rightarrow> string \<Rightarrow> history \<Rightarrow> history" where
  "hremove ok p h = (if ok p then hstep (fremove p) h else h)"

definition hwrite :: "wa_env \<Rightarrow> string \<Rightarrow> string \<Rightarrow> nat \<Rightarrow> history \<Rightarrow> (history \<times> bool) option" where
  "hwrite e p c m h =
     (case write_atomic e (hd h) p c m of
        None \<Rightarrow> None
      | Some (tr, s', ok) \<Rightarrow> Some (s' # rev tr @ h, ok))"

text \<open>\<open>hext X h h'\<close>: \<open>h'\<close> continues \<open>h\<close> and every new state differs from its head on \<open>X\<close> only.\<close>

definition hext :: "string set \<Rightarrow> history \<Rightarrow> history \<Rightarrow> bool" where
  "hext X h h' \<longleftrightarrow> h' \<noteq> [] \<and>
     (\<exists>ts. h' = ts @ h \<and> (\<forall>t\<in>set ts. \<forall>q. q \<notin> X \<longrightarrow> data_of t q = data_of (hd h) q))"

lemma hext_refl: "h \<noteq> [] \<Longrightarrow> hext X h h"
  by (auto simp: hext_def)

lemma hext_hd:
  assumes "hext X h h'" and "q \<notin> X"
  shows "data_of (hd h') q = data_of (hd h) q"
proof -
  from assms obtain ts where ts: "h' = ts @ h" "\<forall>t\<in>set ts. data_of t q = data_of (hd h) q"
    by (auto simp: hext_def)
  then show ?thesis by (cases ts) simp_all
qed

lemma hext_ne: "hext X h h' \<Longrightarrow> h' \<noteq> []"
  by (simp add: hext_def)

lemma hext_trans: "hext X h h' \<Longrightarrow> hext Y h' h'' \<Longrightarrow> X \<union> Y \<subseteq> Z \<Longrightarrow> hext Z h h''"
proof -
  assume a: "hext X h h'" and b: "hext Y h' h''" and c: "X \<union> Y \<subseteq> Z"
  from a obtain ts where ts: "h' = ts @ h" "\<forall>t\<in>set ts. \<forall>q. q \<notin> X \<longrightarrow> data_of t q = data_of (hd h) q"
    by (auto simp: hext_def)
  from b obtain us where us: "h'' = us @ h'" "\<forall>t\<in>set us. \<forall>q. q \<notin> Y \<longrightarrow> data_of t q = data_of (hd h') q"
    by (auto simp: hext_def)
  have "\<forall>t\<in>set (us @ ts). \<forall>q. q \<notin> Z \<longrightarrow> data_of t q = data_of (hd h) q"
  proof (intro ballI allI impI)
    fix t q assume t: "t \<in> set (us @ ts)" and q: "q \<notin> Z"
    have "data_of (hd h') q = data_of (hd h) q" using hext_hd [OF a] q c by auto
    moreover have "q \<notin> X" "q \<notin> Y" using q c by auto
    ultimately show "data_of t q = data_of (hd h) q"
      using t ts(2) us(2) by (metis Un_iff set_append)
  qed
  moreover have "h'' = (us @ ts) @ h" using ts us by simp
  ultimately show ?thesis using hext_ne [OF b] unfolding hext_def by blast
qed

lemma hext_mono: "hext X h h' \<Longrightarrow> X \<subseteq> Y \<Longrightarrow> hext Y h h'"
  unfolding hext_def by blast

lemma hext_step: "h \<noteq> [] \<Longrightarrow> (\<And>q. q \<notin> X \<Longrightarrow> data_of (f (hd h)) q = data_of (hd h) q) \<Longrightarrow> hext X h (hstep f h)"
  unfolding hext_def hstep_def by (auto intro: exI [of _ "[f (hd h)]"])

lemma hext_remove: "h \<noteq> [] \<Longrightarrow> hext {p} h (hremove ok p h)"
  by (cases "ok p") (simp_all add: hremove_def hext_refl, rule hext_step, simp_all)

lemma hd_hremove: "data_of (hd (hremove ok p h)) q = (if q = p \<and> ok p then None else data_of (hd h) q)"
  by (auto simp: hremove_def hstep_def)

lemma hext_write:
  assumes "hwrite e p c m h = Some (h', ok)" and "h \<noteq> []"
  shows "hext {p, tmp_path e p} h h'"
proof -
  from assms obtain tr s' where w: "write_atomic e (hd h) p c m = Some (tr, s', ok)" and h': "h' = (s' # rev tr) @ h"
    by (auto simp: hwrite_def split: option.splits)
  have "\<forall>t\<in>set (s' # rev tr). \<forall>q. q \<notin> {p, tmp_path e p} \<longrightarrow> data_of t q = data_of (hd h) q"
    using aw.wr_other [OF w] aw.wr_trace_other [OF w] by auto
  then show ?thesis unfolding hext_def using h' by blast
qed

lemma hwrite_data:
  "hwrite e p c m h = Some (h', ok) \<Longrightarrow> data_of (hd h') p = (if ok then Some c else data_of (hd h) p)"
  using aw.wr_data by (auto simp: hwrite_def split: option.splits)

lemma hwrite_trace:
  "hwrite e p c m h = Some (h', ok) \<Longrightarrow> t \<in> set h' \<Longrightarrow>
     t \<in> set h \<or> data_of t p = data_of (hd h) p \<or> data_of t p = Some c"
proof -
  assume w: "hwrite e p c m h = Some (h', ok)" and t: "t \<in> set h'"
  from w obtain tr s' where wa: "write_atomic e (hd h) p c m = Some (tr, s', ok)" and h': "h' = s' # rev tr @ h"
    by (auto simp: hwrite_def split: option.splits)
  consider "t = s'" | "t \<in> set tr" | "t \<in> set h" using t h' by auto
  then show ?thesis
    using aw.wr_data [OF wa] aw.wr_trace_data [OF wa, of t] by cases (auto split: if_splits)
qed

lemma hwrite_returns:
  "length c \<le> length (filter progress (wa_writes e)) \<Longrightarrow> \<exists>r. hwrite e p c m h = Some r"
  using write_atomic_returns [of c e "hd h" p m] by (auto simp: hwrite_def)

text \<open>An environment in which every call succeeds and the loop writes everything.\<close>

definition wa_works :: "wa_env \<Rightarrow> string \<Rightarrow> bool" where
  "wa_works e c \<longleftrightarrow> wa_open e \<and> wa_fsync e \<and> wa_close e \<and> wa_rename e \<and>
     write_all (length c) 0 (wa_writes e) = Some (True, length c)"

lemma hwrite_works: "wa_works e c \<Longrightarrow> \<exists>h'. hwrite e p c m h = Some (h', True)"
  by (simp add: wa_works_def hwrite_def write_atomic_def Let_def)

definition good_wa :: "string \<Rightarrow> wa_env" where
  "good_wa c = \<lparr>wa_pid = 7, wa_umask = 18, wa_open = True, wa_writes = [Wrote (length c)],
     wa_fsync = True, wa_close = True, wa_rename = True, wa_unlink = True\<rparr>"

lemma good_wa_works [simp]: "wa_works (good_wa c) c"
proof -
  have "write_all (length c) 0 [Wrote (length c)] = Some (True, length c)"
    by (subst write_all.simps) (simp add: write_all_done)
  then show ?thesis by (simp add: wa_works_def good_wa_def)
qed

lemma long_wa_works: "length c \<le> length d \<Longrightarrow> wa_works (good_wa d) c"
proof -
  assume "length c \<le> length d"
  then have "write_all (length c) 0 [Wrote (length d)] = Some (True, length c)"
    by (subst write_all.simps) (simp add: write_all_done min_absorb2)
  then show ?thesis by (simp add: wa_works_def good_wa_def)
qed

section \<open>Properties\<close>

text \<open>
  C22. A write is all or nothing at every instant: in each file system the calls pass
  through, and in the final one, the target holds either the bytes it held before or the
  complete new content, never a part of it; which of the two the final state holds is what
  the return value says, and no file but the target and its temporary sibling changes.
\<close>

theorem write_atomic_all_or_nothing:
  assumes "write_atomic e s path content mode = Some (tr, s', ok)"
  shows "(\<forall>t \<in> set tr. data_of t path \<in> {data_of s path, Some content})
    \<and> data_of s' path = (if ok then Some content else data_of s path)
    \<and> (\<forall>t \<in> set (s' # tr). \<forall>q. q \<noteq> path \<longrightarrow> q \<noteq> tmp_path e path \<longrightarrow> t q = s q)
    \<and> (ok \<longrightarrow> s' (tmp_path e path) = None)
    \<and> (\<not> ok \<and> wa_open e \<and> wa_unlink e \<longrightarrow> s' (tmp_path e path) = None)"
proof (intro conjI)
  show "\<forall>t \<in> set tr. data_of t path \<in> {data_of s path, Some content}"
    using aw.wr_trace_data [OF assms] by auto
  show "data_of s' path = (if ok then Some content else data_of s path)"
    by (rule aw.wr_data [OF assms])
  show "\<forall>t \<in> set (s' # tr). \<forall>q. q \<noteq> path \<longrightarrow> q \<noteq> tmp_path e path \<longrightarrow> t q = s q"
    using aw.wr_frame [OF assms] aw.wr_trace [OF assms] by simp
  show "ok \<longrightarrow> s' (tmp_path e path) = None"
    using assms by (cases rule: write_atomic_cases) (auto simp: frename_apply)
  show "\<not> ok \<and> wa_open e \<and> wa_unlink e \<longrightarrow> s' (tmp_path e path) = None"
    using assms by (cases rule: write_atomic_cases) (auto simp: unlink_tmp_def fremove_def)
qed

definition demo_wa :: wa_env where
  "demo_wa = \<lparr>wa_pid = 7, wa_umask = 18, wa_open = True, wa_writes = [Wrote 2, Interrupted, Wrote 9],
     wa_fsync = True, wa_close = True, wa_rename = True, wa_unlink = True\<rparr>"

lemma demo_wa_runs: "\<exists>tr s'. write_atomic demo_wa Map.empty ''/s'' ''abc'' 420 = Some (tr, s', True)"
  by (simp add: write_atomic_def demo_wa_def write_all.simps Let_def)

theorem write_atomic_all_or_nothing_witness:
  "\<exists>tr s'. write_atomic demo_wa Map.empty ''/s'' ''abc'' 420 = Some (tr, s', True) \<and>
     data_of s' ''/s'' = Some ''abc''"
proof -
  obtain tr s' where w: "write_atomic demo_wa Map.empty ''/s'' ''abc'' 420 = Some (tr, s', True)"
    using demo_wa_runs by blast
  have "data_of s' ''/s'' = Some ''abc''"
    using write_atomic_all_or_nothing [OF w] by simp
  with w show ?thesis by blast
qed

text \<open>
  C23. The write returns: interrupted calls are retried and short writes continued, and as
  soon as as many calls make progress as there are bytes, the loop is over, whatever else
  the kernel answered in between. The mode of a freshly created file never exceeds the mode
  that was asked for.
\<close>

theorem write_atomic_returns_private:
  assumes "length content \<le> length (filter progress (wa_writes e))"
  shows "\<exists>tr s' ok. write_atomic e s path content mode = Some (tr, s', ok) \<and>
    (ok \<and> s (tmp_path e path) = None \<longrightarrow>
       map_option f_mode (s' path) = Some (mode - (mode AND wa_umask e)))"
proof -
  obtain tr s' ok where w: "write_atomic e s path content mode = Some (tr, s', ok)"
    using write_atomic_returns [OF assms] by (metis prod_cases3)
  have "ok \<and> s (tmp_path e path) = None \<longrightarrow>
      map_option f_mode (s' path) = Some (mode - (mode AND wa_umask e))"
    using w by (cases rule: write_atomic_cases)
      (auto simp: frename_apply fill_tmp_def open_tmp_def)
  with w show ?thesis by blast
qed

theorem write_atomic_returns_private_witness:
  "\<exists>tr s' ok. write_atomic (demo_wa\<lparr>wa_writes := [Interrupted, Wrote 1, Wrote 1]\<rparr>) Map.empty ''/s'' ''ab'' 384
     = Some (tr, s', ok)"
  using write_atomic_returns_private [of "''ab''" "demo_wa\<lparr>wa_writes := [Interrupted, Wrote 1, Wrote 1]\<rparr>"
      Map.empty "''/s''" 384]
  by auto

end
