(* ===== verification/Updater.thy ===== *)
theory Updater
  imports Update_Marker Manifest Atomic_File
begin

text \<open>
  The updater extension (\<open>src/thinr/extensions/updater.hpp\<close>, \<open>updater.cpp\<close>): the version
  check against the CDN, and \<open>apply_with_watchdog\<close>, the one path that replaces the running
  binary. HTTP, process execution, SHA-256 and the outcome of each file-system call are
  inputs; the file system itself is a state with the history of what was on disk after each
  call.
\<close>

unbundle bit_operations_syntax

section \<open>Build constants and data\<close>

definition CDN_BASE_URL :: string where "CDN_BASE_URL = ''https://get.thinremote.io''"

text \<open>\<open>AGENT_VERSION\<close>, \<open>AGENT_BINARY_SUFFIX\<close> and \<open>__ANDROID__\<close>, set by the build.\<close>

record build =
  agent_version :: string
  binary_suffix :: string
  android :: bool

datatype update_action = Check | Apply

datatype update_origin = AutoPoll | Cli | Iotmp

record run_result =
  rr_status :: string
  rr_current :: string
  rr_latest :: string
  rr_arch :: string
  rr_message :: string

record apply_request =
  rq_version :: string
  rq_url :: string
  rq_checksum :: string
  rq_channel :: string
  rq_state_dir :: string
  rq_origin :: update_origin
  rq_deadline_s :: int

datatype apply_status = Updated | Deferred | Error

record apply_result =
  ar_status :: apply_status
  ar_reason :: string
  ar_message :: string

definition mk_result :: "apply_status \<Rightarrow> string \<Rightarrow> string \<Rightarrow> apply_result" where
  "mk_result st reason msg = \<lparr>ar_status = st, ar_reason = reason, ar_message = msg\<rparr>"

lemma mk_result_simps [simp]:
  "ar_status (mk_result st r m) = st" "ar_reason (mk_result st r m) = r" "ar_message (mk_result st r m) = m"
  by (simp_all add: mk_result_def)

section \<open>Fetching\<close>

text \<open>What a GET ended with: an exception, a transport error, or a response.\<close>

datatype http_out = HttpThrows exn | HttpError string | HttpResponse int string

text \<open>\<open>what()\<close> of an exception; the texts of the library's own exceptions are a parameter.\<close>

definition what_of :: "(exn \<Rightarrow> string) \<Rightarrow> exn \<Rightarrow> string" where
  "what_of lib e = (case e of RuntimeError m \<Rightarrow> m | _ \<Rightarrow> lib e)"

record version_info =
  vi_version :: string
  vi_checksum :: string

text \<open>\<open>at(key)\<close> throws a type error off an object and out_of_range on a missing member.\<close>

definition jat :: "json \<Rightarrow> string \<Rightarrow> json res" where
  "jat j k =
     (if \<not> is_object j then Inl JsonTypeError
      else case jfind j k of None \<Rightarrow> Inl JsonOutOfRange | Some v \<Rightarrow> Inr v)"

definition manifest_url :: "string \<Rightarrow> string" where
  "manifest_url channel = CDN_BASE_URL @ ''/'' @ channel @ ''.json''"

definition fetch_latest_version ::
    "build \<Rightarrow> (string \<Rightarrow> json option) \<Rightarrow> (string \<Rightarrow> http_out) \<Rightarrow> string \<Rightarrow> version_info res" where
  "fetch_latest_version b jp http channel =
     (case http (manifest_url channel) of
        HttpThrows e \<Rightarrow> Inl e
      | HttpError msg \<Rightarrow> Inl (RuntimeError msg)
      | HttpResponse status body \<Rightarrow>
          if status \<noteq> 200 then Inl (RuntimeError (''HTTP '' @ show_int status))
          else case jp body of
                 None \<Rightarrow> Inl JsonParseError
               | Some j \<Rightarrow>
                   rbind (rbind (jat j ''version'') get_string) (\<lambda>v.
                   case jfind j ''checksums'' of
                     None \<Rightarrow> Inr \<lparr>vi_version = v, vi_checksum = []\<rparr>
                   | Some cs \<Rightarrow>
                       (case jfind cs (binary_suffix b) of
                          None \<Rightarrow> Inr \<lparr>vi_version = v, vi_checksum = []\<rparr>
                        | Some c \<Rightarrow> rbind (get_string c) (\<lambda>s. Inr \<lparr>vi_version = v, vi_checksum = s\<rparr>))))"

definition fetch_manifest :: "fpu \<Rightarrow> (string \<Rightarrow> json option) \<Rightarrow> (string \<Rightarrow> http_out) \<Rightarrow> string \<Rightarrow> manifest option" where
  "fetch_manifest F jp http channel =
     (case http (manifest_url channel) of
        HttpResponse status body \<Rightarrow> if status \<noteq> 200 then None else Some (manifest_parse F jp body)
      | _ \<Rightarrow> None)"

definition binary_url :: "build \<Rightarrow> string \<Rightarrow> string" where
  "binary_url b channel = CDN_BASE_URL @ ''/binaries/'' @ channel @ ''/thinr-agent.'' @ binary_suffix b"

text \<open>What a download ended with, and the successive contents it left in the target file.\<close>

record download_out =
  dl_throws :: bool
  dl_network_error :: bool
  dl_status :: int
  dl_bytes :: nat
  dl_contents :: "string list"

definition download_binary :: "download_out \<Rightarrow> bool" where
  "download_binary d =
     (if dl_throws d then False
      else if dl_network_error d then False
      else if dl_status d \<noteq> 200 then False
      else if dl_bytes d = 0 then False
      else True)"

record exec_out =
  ex_timed_out :: bool
  ex_code :: int
  ex_output :: string

definition verify_binary :: "exec_out \<Rightarrow> string" where
  "verify_binary x =
     (if ex_timed_out x \<or> ex_code x \<noteq> 0 then []
      else case find_sub ''thinr-agent version '' (ex_output x) of
             None \<Rightarrow> []
           | Some pos \<Rightarrow> rtrim (drop (pos + length ''thinr-agent version '') (ex_output x)))"

definition hex2 :: "8 word \<Rightarrow> string" where
  "hex2 w = hex_byte (unat w)"

text \<open>The digest of a file in lower-case hexadecimal, empty when it cannot be read.\<close>

definition compute_sha256 :: "sha256 \<Rightarrow> fs \<Rightarrow> string \<Rightarrow> string" where
  "compute_sha256 sha s path =
     (case data_of s path of
        None \<Rightarrow> []
      | Some bytes \<Rightarrow> (case sha bytes of None \<Rightarrow> [] | Some digest \<Rightarrow> concat (map hex2 digest)))"

definition last_reverted :: "(string \<Rightarrow> json option) \<Rightarrow> fs \<Rightarrow> string \<Rightarrow> reverted_info option res" where
  "last_reverted jp s state_dir =
     (case data_of s (path_join state_dir UPDATE_REVERTED_FILE) of
        None \<Rightarrow> Inr None
      | Some text \<Rightarrow> reverted_parse jp text)"

section \<open>Replacing the binary\<close>

text \<open>
  The outcomes of the calls of one apply. \<open>ae_copied\<close> is what \<open>copy_file\<close> did: the whole
  copy, or a failure that may leave a partial file, for lack of space or for another reason.
\<close>

datatype copy_out = Copied | CopyFailed bool "string option"

record apply_env =
  ae_install :: string
  ae_stat_ok :: bool
  ae_sessions_start :: nat
  ae_sessions_swap :: nat
  ae_download :: download_out
  ae_remove :: "string \<Rightarrow> bool"
  ae_chmod :: bool
  ae_probe :: exec_out
  ae_copy :: copy_out
  ae_rename_prev :: bool
  ae_rename_swap :: bool
  ae_marker_write :: wa_env
  ae_now :: int
  ae_ec :: string

definition new_path :: "apply_env \<Rightarrow> string" where "new_path e = ae_install e @ ''.new''"
definition prev_path :: "apply_env \<Rightarrow> string" where "prev_path e = ae_install e @ ''.prev''"
definition prev_tmp :: "apply_env \<Rightarrow> string" where "prev_tmp e = prev_path e @ ''.tmp''"

definition put_file :: "string \<Rightarrow> string \<Rightarrow> fs \<Rightarrow> fs" where
  "put_file p bytes s = s(p \<mapsto> \<lparr>f_data = bytes, f_mode = 420\<rparr>)"

definition add_exec :: "string \<Rightarrow> fs \<Rightarrow> fs" where
  "add_exec p s = s(p := map_option (f_mode_update (\<lambda>m. m OR 365)) (s p))"

definition copy_node :: "string \<Rightarrow> string \<Rightarrow> fs \<Rightarrow> fs" where
  "copy_node a b s = s(b := s a)"

text \<open>Steps 1 to 5: download, checksum, mode, preflight, second activity check.\<close>

definition apply_fetch :: "apply_env \<Rightarrow> sha256 \<Rightarrow> apply_request \<Rightarrow> history \<Rightarrow> history \<times> apply_result option" where
  "apply_fetch e sha rq h =
     (let temp = new_path e;
          h1 = fold (\<lambda>c. hstep (put_file temp c)) (dl_contents (ae_download e)) h in
      if \<not> download_binary (ae_download e) then
        (hremove (ae_remove e) temp h1,
         Some (mk_result Error ''download'' ''failed to download the update binary''))
      else if rq_checksum rq \<noteq> [] \<and> ''sha256:'' @ compute_sha256 sha (hd h1) temp \<noteq> rq_checksum rq then
        (hremove (ae_remove e) temp h1,
         Some (mk_result Error ''checksum'' ''checksum verification failed''))
      else
        let h2 = (if ae_chmod e then hstep (add_exec temp) h1 else h1);
            probed = verify_binary (ae_probe e) in
        if probed = [] then
          (hremove (ae_remove e) temp h2,
           Some (mk_result Error ''preflight'' ''downloaded binary failed the --version preflight''))
        else if rq_origin rq = AutoPoll \<and> ae_sessions_swap e > 0 then
          (hremove (ae_remove e) temp h2,
           Some (mk_result Deferred ''sessions_active'' ''deferred: interactive session in progress''))
        else (h2, None))"

text \<open>Step 6: the backup of the current binary.\<close>

definition apply_backup :: "apply_env \<Rightarrow> history \<Rightarrow> history \<times> apply_result option" where
  "apply_backup e h =
     (let temp = new_path e; ptmp = prev_tmp e; prev = prev_path e;
          h1 = hremove (ae_remove e) ptmp h;
          copied = (ae_copy e = Copied \<and> fexists (hd h1) (ae_install e)) in
      if \<not> copied then
        let h2 = (case ae_copy e of
                    CopyFailed _ (Some part) \<Rightarrow> hstep (put_file ptmp part) h1
                  | _ \<Rightarrow> h1);
            reason = (case ae_copy e of CopyFailed True _ \<Rightarrow> ''no_space'' | _ \<Rightarrow> ''prev_failed'')
        in (hremove (ae_remove e) temp h2,
            Some (mk_result Error reason (''failed to back up the current binary: '' @ ae_ec e)))
      else
        let h2 = hstep (copy_node (ae_install e) ptmp) h1 in
        if \<not> ae_rename_prev e then
          (hremove (ae_remove e) temp (hremove (ae_remove e) ptmp h2),
           Some (mk_result Error ''prev_failed'' (''failed to stage the backup: '' @ ae_ec e)))
        else (hstep (frename ptmp prev) h2, None))"

definition apply_marker :: "build \<Rightarrow> apply_env \<Rightarrow> apply_request \<Rightarrow> update_marker" where
  "apply_marker b e rq =
     \<lparr>um_phase = Pending, um_from = agent_version b, um_to = rq_version rq,
      um_prev_binary = prev_path e, um_started_at = ae_now e, um_attempts = 0,
      um_deadline_s = (if rq_deadline_s rq > 0 then rq_deadline_s rq else 90),
      um_report_attempts = 0\<rparr>"

definition state_file :: "string \<Rightarrow> string" where
  "state_file state_dir = path_join state_dir UPDATE_STATE_FILE"

text \<open>Steps 7 and 8: the pending marker, then the swap.\<close>

definition apply_swap ::
    "build \<Rightarrow> (json \<Rightarrow> string) \<Rightarrow> apply_env \<Rightarrow> apply_request \<Rightarrow> history \<Rightarrow> (history \<times> apply_result) option" where
  "apply_swap b jd e rq h =
     (let temp = new_path e; prev = prev_path e; state = state_file (rq_state_dir rq) in
      case hwrite (ae_marker_write e) state (marker_dump jd (apply_marker b e rq)) 420 h of
        None \<Rightarrow> None
      | Some (h1, False) \<Rightarrow>
          Some (hremove (ae_remove e) temp (hremove (ae_remove e) prev h1),
                mk_result Error ''marker_failed'' ''failed to write the update marker'')
      | Some (h1, True) \<Rightarrow>
          if \<not> (ae_rename_swap e \<and> fexists (hd h1) temp) then
            Some (hremove (ae_remove e) temp (hremove (ae_remove e) prev (hremove (ae_remove e) state h1)),
                  mk_result Error ''swap_failed'' (''failed to swap the binary: '' @ ae_ec e))
          else
            Some (hstep (frename temp (ae_install e)) h1,
                  mk_result Updated ''ok''
                    (''update applied: '' @ agent_version b @ '' -> '' @ rq_version rq)))"

text \<open>
  The whole operation. The flag is the static \<open>in_progress\<close>; the guard object clears it on
  every exit after it was taken, exceptional ones included. \<open>fs::exists\<close> without an error
  code throws when the path cannot be examined.
\<close>

definition apply_with_watchdog ::
    "build \<Rightarrow> (json \<Rightarrow> string) \<Rightarrow> sha256 \<Rightarrow> apply_env \<Rightarrow> apply_request \<Rightarrow> bool \<Rightarrow> history
      \<Rightarrow> (history \<times> bool \<times> apply_result res) option" where
  "apply_with_watchdog b jd sha e rq in_progress h =
     (if android b then
        Some (h, in_progress, Inr (mk_result Error ''unsupported''
          ''updates are delivered through the Android app package''))
      else if rq_version rq = [] then
        Some (h, in_progress, Inr (mk_result Error ''error'' ''empty target version''))
      else if in_progress then
        Some (h, in_progress, Inr (mk_result Error ''busy'' ''another update is already in progress''))
      else if \<not> ae_stat_ok e then Some (h, False, Inl (FilesystemError ''exists''))
      else if fexists (hd h) (state_file (rq_state_dir rq)) then
        Some (h, False, Inr (mk_result Error ''restart_pending'' ''a previous update is pending a restart''))
      else if rq_origin rq = AutoPoll \<and> ae_sessions_start e > 0 then
        Some (h, False, Inr (mk_result Deferred ''sessions_active'' ''deferred: interactive session in progress''))
      else case apply_fetch e sha rq h of
             (h1, Some r) \<Rightarrow> Some (h1, False, Inr r)
           | (h1, None) \<Rightarrow>
               (case apply_backup e h1 of
                  (h2, Some r) \<Rightarrow> Some (h2, False, Inr r)
                | (h2, None) \<Rightarrow>
                    (case apply_swap b jd e rq h2 of
                       None \<Rightarrow> None
                     | Some (h3, r) \<Rightarrow> Some (h3, False, Inr r))))"

section \<open>The version check\<close>

text \<open>The inputs of one \<open>run\<close>: the CDN, the texts of library exceptions, the state directory.\<close>

record run_env =
  re_http :: "string \<Rightarrow> http_out"
  re_what :: "exn \<Rightarrow> string"
  re_state_dir :: string
  re_apply :: apply_env

definition run_start :: "build \<Rightarrow> run_result" where
  "run_start b = \<lparr>rr_status = [], rr_current = agent_version b, rr_latest = [],
     rr_arch = binary_suffix b, rr_message = []\<rparr>"

definition run_request :: "build \<Rightarrow> run_env \<Rightarrow> version_info \<Rightarrow> string \<Rightarrow> update_origin \<Rightarrow> apply_request" where
  "run_request b e v channel origin =
     \<lparr>rq_version = vi_version v,
      rq_url = CDN_BASE_URL @ ''/binaries/'' @ channel @ ''/thinr-agent.'' @ binary_suffix b,
      rq_checksum = vi_checksum v, rq_channel = channel, rq_state_dir = re_state_dir e,
      rq_origin = origin, rq_deadline_s = 90\<rparr>"

definition run_report :: "run_result \<Rightarrow> apply_result \<Rightarrow> run_result" where
  "run_report r ar =
     (case ar_status ar of
        Updated \<Rightarrow> r\<lparr>rr_status := ''updated'', rr_message := ''Update applied. Restarting...''\<rparr>
      | Deferred \<Rightarrow> r\<lparr>rr_status := ''deferred'',
          rr_message := (if ar_message ar = [] then ar_reason ar else ar_message ar)\<rparr>
      | Error \<Rightarrow> r\<lparr>rr_status := ''error'',
          rr_message := (if ar_message ar = [] then ar_reason ar else ar_message ar)\<rparr>)"

definition run ::
    "build \<Rightarrow> (string \<Rightarrow> json option) \<Rightarrow> (json \<Rightarrow> string) \<Rightarrow> sha256 \<Rightarrow> run_env \<Rightarrow> update_action \<Rightarrow> string
      \<Rightarrow> update_origin \<Rightarrow> bool \<Rightarrow> history \<Rightarrow> (history \<times> bool \<times> run_result res) option" where
  "run b jp jd sha e act channel origin in_progress h =
     (let r = run_start b in
      if android b then
        Some (h, in_progress, Inr (r\<lparr>rr_status := ''unsupported'',
          rr_message := ''updates are delivered through the Android app package''\<rparr>))
      else case fetch_latest_version b jp (re_http e) channel of
        Inl x \<Rightarrow> Some (h, in_progress, Inr (r\<lparr>rr_status := ''error'',
          rr_message := ''Failed to check for updates: '' @ what_of (re_what e) x\<rparr>))
      | Inr v \<Rightarrow>
          if vi_version v = [] then
            Some (h, in_progress, Inr (r\<lparr>rr_status := ''error'',
              rr_message := ''Empty version response from CDN''\<rparr>))
          else
            let r = r\<lparr>rr_latest := vi_version v\<rparr> in
            if rr_current r = vi_version v then
              Some (h, in_progress, Inr (r\<lparr>rr_status := ''up_to_date''\<rparr>))
            else if act \<noteq> Apply then
              Some (h, in_progress, Inr (r\<lparr>rr_status := ''update_available''\<rparr>))
            else
              (case apply_with_watchdog b jd sha (re_apply e) (run_request b e v channel origin) in_progress h of
                 None \<Rightarrow> None
               | Some (h', fl, Inl x) \<Rightarrow> Some (h', fl, Inl x)
               | Some (h', fl, Inr ar) \<Rightarrow> Some (h', fl, Inr (run_report r ar))))"

text \<open>
  The \<open>update\<close> resource: \<open>get_value\<close> belongs to the client library and is a parameter. The
  result is the reply and whether a restart follows once it was sent.
\<close>

definition update_resource ::
    "build \<Rightarrow> (string \<Rightarrow> json option) \<Rightarrow> (json \<Rightarrow> string) \<Rightarrow> sha256 \<Rightarrow> run_env
      \<Rightarrow> (json \<Rightarrow> string \<Rightarrow> string \<Rightarrow> string) \<Rightarrow> json \<Rightarrow> bool \<Rightarrow> history
      \<Rightarrow> (history \<times> bool \<times> (json \<times> bool) res) option" where
  "update_resource b jp jd sha e get_value payload in_progress h =
     (let channel = get_value payload ''channel'' ''latest'';
          action_str = get_value payload ''action'' ''check'';
          act = (if action_str = ''apply'' then Apply else Check) in
      case run b jp jd sha e act channel Iotmp in_progress h of
        None \<Rightarrow> None
      | Some (h', fl, Inl x) \<Rightarrow> Some (h', fl, Inl x)
      | Some (h', fl, Inr r) \<Rightarrow>
          Some (h', fl, Inr
            (jobj [(''status'', JStr (rr_status r)), (''current'', JStr (rr_current r)),
               (''latest'', JStr (rr_latest r)), (''arch'', JStr (rr_arch r)),
               (''message'', JStr (rr_message r))], rr_status r = ''updated'')))"

section \<open>Lemmas\<close>

lemma paths_neq [simp]:
  "new_path e \<noteq> ae_install e" "prev_path e \<noteq> ae_install e" "prev_tmp e \<noteq> ae_install e"
  "ae_install e \<noteq> new_path e" "ae_install e \<noteq> prev_path e" "ae_install e \<noteq> prev_tmp e"
  "prev_tmp e \<noteq> prev_path e" "prev_path e \<noteq> prev_tmp e"
  "new_path e \<noteq> prev_path e" "prev_path e \<noteq> new_path e" "new_path e \<noteq> prev_tmp e" "prev_tmp e \<noteq> new_path e"
  by (simp_all add: new_path_def prev_path_def prev_tmp_def)

lemma data_put [simp]: "data_of (put_file p b s) q = (if q = p then Some b else data_of s q)"
  by (simp add: put_file_def data_of_def)

lemma data_add_exec [simp]: "data_of (add_exec p s) q = data_of s q"
  by (cases "s p") (simp_all add: add_exec_def data_of_def)

lemma data_copy [simp]: "data_of (copy_node a b s) q = (if q = b then data_of s a else data_of s q)"
  by (simp add: copy_node_def data_of_def)

lemma hd_hstep [simp]: "hd (hstep f h) = f (hd h)" "hstep f h \<noteq> []"
  by (simp_all add: hstep_def)

lemma hremove_ne [simp]: "h \<noteq> [] \<Longrightarrow> hremove ok p h \<noteq> []"
  by (simp add: hremove_def)

lemma hext_download: "h \<noteq> [] \<Longrightarrow> hext {p} h (fold (\<lambda>c. hstep (put_file p c)) cs h)"
proof (induction cs arbitrary: h)
  case Nil
  then show ?case by (simp add: hext_refl)
next
  case (Cons c cs)
  have "hext {p} h (hstep (put_file p c) h)" using Cons.prems by (intro hext_step) simp_all
  moreover have "hext {p} (hstep (put_file p c) h) (fold (\<lambda>c. hstep (put_file p c)) cs (hstep (put_file p c) h))"
    by (rule Cons.IH) simp
  ultimately show ?case by (auto intro: hext_trans)
qed

lemma hd_download:
  "data_of (hd (fold (\<lambda>c. hstep (put_file p c)) cs h)) p = (if cs = [] then data_of (hd h) p else Some (last cs))"
  by (induction cs arbitrary: h) auto

lemma apply_fetch_ext:
  assumes "apply_fetch e sha rq h = (h', r)" and "h \<noteq> []"
  shows "hext {new_path e} h h'"
proof -
  let ?p = "new_path e"
  let ?h1 = "fold (\<lambda>c. hstep (put_file ?p c)) (dl_contents (ae_download e)) h"
  let ?h2 = "if ae_chmod e then hstep (add_exec ?p) ?h1 else ?h1"
  have h1: "hext {?p} h ?h1" by (rule hext_download) fact
  have "hext {?p} ?h1 ?h2" using hext_ne [OF h1] by (auto simp: hext_refl intro!: hext_step)
  then have h2: "hext {?p} h ?h2" using h1 by (auto intro: hext_trans)
  have rm: "hext {?p} h (hremove (ae_remove e) ?p k)" if "hext {?p} h k" for k
    using hext_trans [OF that hext_remove] hext_ne [OF that] by blast
  have "h' \<in> {?h2, hremove (ae_remove e) ?p ?h1, hremove (ae_remove e) ?p ?h2}"
    using assms(1) by (auto simp: apply_fetch_def Let_def split: if_splits)
  then show ?thesis using rm [OF h1] rm [OF h2] h2 by blast
qed

definition digest_ok :: "sha256 \<Rightarrow> string \<Rightarrow> string \<Rightarrow> bool" where
  "digest_ok sha checksum bytes \<longleftrightarrow>
     (checksum = [] \<or>
      checksum = ''sha256:'' @ (case sha bytes of None \<Rightarrow> [] | Some d \<Rightarrow> concat (map hex2 d)))"

lemma apply_fetch_accepts:
  assumes "apply_fetch e sha rq h = (h', None)" and "h \<noteq> []"
  shows "download_binary (ae_download e)" and "verify_binary (ae_probe e) \<noteq> []"
    and "rq_origin rq = AutoPoll \<Longrightarrow> ae_sessions_swap e = 0"
    and "data_of (hd h') (new_path e) = Some bytes \<Longrightarrow> digest_ok sha (rq_checksum rq) bytes"
  using assms
  by (auto simp: apply_fetch_def Let_def digest_ok_def compute_sha256_def split: if_splits)

lemma apply_fetch_rejects:
  "apply_fetch e sha rq h = (h', Some r) \<Longrightarrow> ar_status r \<noteq> Updated"
  by (auto simp: apply_fetch_def Let_def split: if_splits)

lemma apply_backup_ext:
  assumes "apply_backup e h = (h', r)" and "h \<noteq> []"
  shows "hext {new_path e, prev_tmp e, prev_path e} h h'"
proof -
  let ?X = "{new_path e, prev_tmp e, prev_path e}"
  let ?h1 = "hremove (ae_remove e) (prev_tmp e) h"
  let ?part = "case ae_copy e of CopyFailed _ (Some part) \<Rightarrow> hstep (put_file (prev_tmp e) part) ?h1 | _ \<Rightarrow> ?h1"
  let ?copy = "hstep (copy_node (ae_install e) (prev_tmp e)) ?h1"
  have rm: "hext ?X h (hremove (ae_remove e) p k)" if "hext ?X h k" "p \<in> ?X" for p k
    by (rule hext_trans [OF that(1) hext_remove]) (use that hext_ne [OF that(1)] in auto)
  have st: "hext ?X h (hstep f k)"
    if "hext ?X h k" "\<And>q. q \<notin> ?X \<Longrightarrow> data_of (f (hd k)) q = data_of (hd k) q" for f k
    by (rule hext_trans [OF that(1) hext_step [of _ ?X]]) (use that hext_ne [OF that(1)] in auto)
  have h1: "hext ?X h ?h1" by (rule rm) (simp_all add: hext_refl assms)
  have part: "hext ?X h ?part"
    using h1 st [OF h1] by (auto split: copy_out.splits option.splits)
  have copy: "hext ?X h ?copy" by (rule st [OF h1]) simp
  have fin: "hext ?X h (hstep (frename (prev_tmp e) (prev_path e)) ?copy)"
    by (rule st [OF copy]) (simp add: data_of_rename)
  have "h' \<in> {hremove (ae_remove e) (new_path e) ?part,
      hremove (ae_remove e) (new_path e) (hremove (ae_remove e) (prev_tmp e) ?copy),
      hstep (frename (prev_tmp e) (prev_path e)) ?copy}"
    using assms(1) by (auto simp: apply_backup_def Let_def split: if_splits)
  moreover have "hext ?X h (hremove (ae_remove e) (new_path e) ?part)"
    by (rule rm [OF part]) simp
  moreover have "hext ?X h (hremove (ae_remove e) (new_path e) (hremove (ae_remove e) (prev_tmp e) ?copy))"
    by (rule rm [OF rm [OF copy]]) simp_all
  ultimately show ?thesis using fin by blast
qed

lemma apply_backup_accepts:
  assumes "apply_backup e h = (h', None)"
  shows "data_of (hd h') (prev_path e) = data_of (hd h) (ae_install e)"
    and "data_of (hd h) (ae_install e) \<noteq> None"
    and "data_of (hd h') (new_path e) = data_of (hd h) (new_path e)"
  using assms
  by (auto simp: apply_backup_def Let_def data_of_rename hd_hremove fexists_data split: if_splits)

lemma apply_backup_rejects:
  "apply_backup e h = (h', Some r) \<Longrightarrow> ar_status r \<noteq> Updated"
  by (auto simp: apply_backup_def Let_def split: if_splits)

text \<open>The paths of one apply do not meet: the state directory is not where the binary lives.\<close>

definition apart :: "apply_env \<Rightarrow> apply_request \<Rightarrow> bool" where
  "apart e rq \<longleftrightarrow>
     {state_file (rq_state_dir rq), tmp_path (ae_marker_write e) (state_file (rq_state_dir rq))} \<inter>
     {ae_install e, new_path e, prev_path e, prev_tmp e} = {}"

definition touched :: "apply_env \<Rightarrow> apply_request \<Rightarrow> string set" where
  "touched e rq = {new_path e, prev_tmp e, prev_path e, state_file (rq_state_dir rq),
     tmp_path (ae_marker_write e) (state_file (rq_state_dir rq))}"

lemma install_untouched: "apart e rq \<Longrightarrow> ae_install e \<notin> touched e rq"
  by (auto simp: apart_def touched_def)

text \<open>A state in which the swap took place with everything a rollback needs on disk.\<close>

definition committed ::
    "build \<Rightarrow> (json \<Rightarrow> string) \<Rightarrow> sha256 \<Rightarrow> apply_env \<Rightarrow> apply_request \<Rightarrow> fs \<Rightarrow> fs \<Rightarrow> bool" where
  "committed b jd sha e rq s t \<longleftrightarrow>
     (\<exists>old bytes. data_of s (ae_install e) = Some old \<and> data_of t (prev_path e) = Some old \<and>
        data_of t (ae_install e) = Some bytes \<and> digest_ok sha (rq_checksum rq) bytes \<and>
        data_of t (state_file (rq_state_dir rq)) = Some (marker_dump jd (apply_marker b e rq)))"

lemma apply_swap_cases:
  assumes "apply_swap b jd e rq h = Some (h', r)" and "h \<noteq> []" and "apart e rq"
  obtains (refused) "ar_status r = Error" "hext (touched e rq) h h'"
  | (swapped) h1 where "ar_status r = Updated" "hext (touched e rq) h h1"
      "h' = hstep (frename (new_path e) (ae_install e)) h1"
      "data_of (hd h1) (new_path e) = data_of (hd h) (new_path e)" "data_of (hd h) (new_path e) \<noteq> None"
      "data_of (hd h1) (prev_path e) = data_of (hd h) (prev_path e)"
      "data_of (hd h1) (state_file (rq_state_dir rq)) = Some (marker_dump jd (apply_marker b e rq))"
proof -
  let ?st = "state_file (rq_state_dir rq)"
  from assms(1) obtain h1 ok where
    w: "hwrite (ae_marker_write e) ?st (marker_dump jd (apply_marker b e rq)) 420 h = Some (h1, ok)"
    by (auto simp: apply_swap_def Let_def split: option.splits)
  have w1: "hext {?st, tmp_path (ae_marker_write e) ?st} h h1"
    by (rule hext_write [OF w assms(2)])
  have w2: "hext (touched e rq) h h1" by (rule hext_mono [OF w1]) (auto simp: touched_def)
  have rm: "hext (touched e rq) h (hremove (ae_remove e) p k)" if "hext (touched e rq) h k" "p \<in> touched e rq" for p k
    by (rule hext_trans [OF that(1) hext_remove]) (use that hext_ne [OF that(1)] in auto)
  have keep: "data_of (hd h1) q = data_of (hd h) q" if "q \<in> {new_path e, prev_path e}" for q
    by (rule hext_hd [OF w1]) (use that assms(3) in \<open>auto simp: apart_def\<close>)
  show thesis
  proof (cases "ok \<and> ae_rename_swap e \<and> fexists (hd h1) (new_path e)")
    case True
    then have "h' = hstep (frename (new_path e) (ae_install e)) h1" "ar_status r = Updated"
      using assms(1) w by (auto simp: apply_swap_def Let_def)
    then show thesis
      using True keep hwrite_data [OF w] w2 by (intro swapped) (auto simp: fexists_data)
  next
    case False
    let ?R = "\<lambda>p. hremove (ae_remove e) p"
    have "ar_status r = Error" and
      "h' \<in> {?R (new_path e) (?R (prev_path e) h1), ?R (new_path e) (?R (prev_path e) (?R ?st h1))}"
      using False assms(1) w by (auto simp: apply_swap_def Let_def split: if_splits bool.splits)
    moreover have "hext (touched e rq) h (?R (new_path e) (?R (prev_path e) h1))"
      by (rule rm [OF rm [OF w2]]) (simp_all add: touched_def)
    moreover have "hext (touched e rq) h (?R (new_path e) (?R (prev_path e) (?R ?st h1)))"
      by (rule rm [OF rm [OF rm [OF w2]]]) (simp_all add: touched_def)
    ultimately show thesis by (intro refused) auto
  qed
qed

text \<open>The two ways an apply ends, as far as the binary is concerned.\<close>

lemma apply_cases:
  assumes "apply_with_watchdog b jd sha e rq fl h = Some (h', fl', r)" and "h \<noteq> []" and "apart e rq"
  obtains (kept) "hext (touched e rq) h h'" "\<And>ar. r = Inr ar \<Longrightarrow> ar_status ar \<noteq> Updated"
  | (replaced) ar h1 where "r = Inr ar" "ar_status ar = Updated" "hext (touched e rq) h h1" "h' = hd h' # h1"
      "committed b jd sha e rq (hd h) (hd h')" "\<not> fl" "rq_version rq \<noteq> []" "\<not> android b"
      "\<not> fexists (hd h) (state_file (rq_state_dir rq))" "download_binary (ae_download e)"
      "verify_binary (ae_probe e) \<noteq> []"
      "rq_origin rq = AutoPoll \<Longrightarrow> ae_sessions_start e = 0 \<and> ae_sessions_swap e = 0"
proof -
  let ?st = "state_file (rq_state_dir rq)"
  let ?guard = "android b \<or> rq_version rq = [] \<or> fl \<or> \<not> ae_stat_ok e \<or> fexists (hd h) ?st \<or>
    (rq_origin rq = AutoPoll \<and> ae_sessions_start e > 0)"
  obtain h1 r1 where f: "apply_fetch e sha rq h = (h1, r1)" by (cases "apply_fetch e sha rq h")
  obtain h2 r2 where k: "apply_backup e h1 = (h2, r2)" by (cases "apply_backup e h1")
  have e1: "hext (touched e rq) h h1"
    by (rule hext_mono [OF apply_fetch_ext [OF f assms(2)]]) (simp add: touched_def)
  have e2: "hext (touched e rq) h h2"
    by (rule hext_trans [OF e1 apply_backup_ext [OF k hext_ne [OF e1]]]) (auto simp: touched_def)
  consider (guard) ?guard | (fetch) x where "\<not> ?guard" "r1 = Some x" | (backup) x where "\<not> ?guard" "r1 = None" "r2 = Some x"
    | (swap) "\<not> ?guard" "r1 = None" "r2 = None"
    by (cases r1; cases r2) blast+
  then show thesis
  proof cases
    case guard
    then have "h' = h" and "\<And>ar. r = Inr ar \<Longrightarrow> ar_status ar \<noteq> Updated"
      using assms(1) by (auto simp: apply_with_watchdog_def split: if_splits)
    then show thesis by (intro kept) (simp_all add: hext_refl assms)
  next
    case fetch
    then have "h' = h1" "r = Inr x" using assms(1) f by (auto simp: apply_with_watchdog_def)
    with apply_fetch_rejects f fetch e1 show thesis by (intro kept) auto
  next
    case backup
    then have "h' = h2" "r = Inr x" using assms(1) f k by (auto simp: apply_with_watchdog_def)
    with apply_backup_rejects k backup e2 show thesis by (intro kept) auto
  next
    case swap
    then obtain ar where w: "apply_swap b jd e rq h2 = Some (h', ar)" and r: "r = Inr ar"
      using assms(1) f k by (auto simp: apply_with_watchdog_def split: option.splits)
    from w hext_ne [OF e2] assms(3) show thesis
    proof (cases rule: apply_swap_cases)
      case refused
      have "hext (touched e rq) h h'" by (rule hext_trans [OF e2 refused(2)]) simp
      with refused r show thesis by (intro kept) auto
    next
      case (swapped h3)
      have n: "data_of (hd h2) (new_path e) = data_of (hd h1) (new_path e)"
        "data_of (hd h2) (prev_path e) = data_of (hd h1) (ae_install e)" "data_of (hd h1) (ae_install e) \<noteq> None"
        using apply_backup_accepts [of e h1 h2] k swap by simp_all
      have i: "data_of (hd h1) (ae_install e) = data_of (hd h) (ae_install e)"
        by (rule hext_hd [OF e1 install_untouched [OF assms(3)]])
      have e3: "hext (touched e rq) h h3" by (rule hext_trans [OF e2 swapped(2)]) simp
      obtain bytes where bytes: "data_of (hd h2) (new_path e) = Some bytes" using swapped(5) by auto
      have "digest_ok sha (rq_checksum rq) bytes"
        using apply_fetch_accepts(4) [of e sha rq h h1 bytes] f swap assms(2) n(1) bytes by simp
      moreover have "?st \<noteq> ae_install e" "?st \<noteq> new_path e" using assms(3) by (auto simp: apart_def)
      ultimately have "committed b jd sha e rq (hd h) (hd h')"
        using swapped n i bytes by (auto simp: committed_def data_of_rename)
      with swapped e3 swap r f assms(2) apply_fetch_accepts [of e sha rq h h1] show thesis
        by (intro replaced [of ar h3]) (auto simp: hstep_def)
    qed
  qed
qed

lemma apply_swap_returns:
  "length (marker_dump jd (apply_marker b e rq)) \<le> length (filter progress (wa_writes (ae_marker_write e))) \<Longrightarrow>
     \<exists>x. apply_swap b jd e rq h = Some x"
  using hwrite_returns [of "marker_dump jd (apply_marker b e rq)" "ae_marker_write e"]
  by (auto simp: apply_swap_def Let_def split: option.splits bool.splits)

lemma apply_returns:
  assumes "length (marker_dump jd (apply_marker b e rq)) \<le> length (filter progress (wa_writes (ae_marker_write e)))"
  shows "\<exists>h' fl' r. apply_with_watchdog b jd sha e rq fl h = Some (h', fl', r)"
proof -
  obtain h1 r1 where f: "apply_fetch e sha rq h = (h1, r1)" by (cases "apply_fetch e sha rq h")
  obtain h2 r2 where k: "apply_backup e h1 = (h2, r2)" by (cases "apply_backup e h1")
  show ?thesis
    using apply_swap_returns [OF assms, of h2] f k
    by (cases r1; cases r2) (auto simp: apply_with_watchdog_def)
qed

section \<open>A concrete update\<close>

definition demo_build :: build where
  "demo_build = \<lparr>agent_version = ''v1.7.5'', binary_suffix = ''x86_64'', android = False\<rparr>"

definition demo_env :: apply_env where
  "demo_env = \<lparr>ae_install = ''/opt/a'', ae_stat_ok = True, ae_sessions_start = 0, ae_sessions_swap = 0,
     ae_download = \<lparr>dl_throws = False, dl_network_error = False, dl_status = 200, dl_bytes = 3,
       dl_contents = [''n'', ''new'']\<rparr>,
     ae_remove = (\<lambda>_. True), ae_chmod = True,
     ae_probe = \<lparr>ex_timed_out = False, ex_code = 0, ex_output = ''thinr-agent version v1.8.0''\<rparr>,
     ae_copy = Copied, ae_rename_prev = True, ae_rename_swap = True,
     ae_marker_write = \<lparr>wa_pid = 7, wa_umask = 18, wa_open = True, wa_writes = [Interrupted, Wrote 9],
       wa_fsync = True, wa_close = True, wa_rename = True, wa_unlink = True\<rparr>,
     ae_now = 1762000000, ae_ec = []\<rparr>"

definition demo_request :: apply_request where
  "demo_request = \<lparr>rq_version = ''v1.8.0'', rq_url = [], rq_checksum = ''sha256:01ff'', rq_channel = ''latest'',
     rq_state_dir = ''/etc/t'', rq_origin = AutoPoll, rq_deadline_s = 90\<rparr>"

definition demo_fs :: fs where
  "demo_fs = [''/opt/a'' \<mapsto> \<lparr>f_data = ''old'', f_mode = 493\<rparr>]"

definition demo_apply :: "(history \<times> bool \<times> apply_result res) option" where
  "demo_apply = apply_with_watchdog demo_build (\<lambda>_. ''M'') (\<lambda>_. Some [1, 255]) demo_env demo_request False [demo_fs]"

lemma demo_state_file: "state_file ''/etc/t'' = ''/etc/t/update.state''"
  by (simp add: state_file_def path_join_def starts_with_def ends_with_def UPDATE_STATE_FILE_def)

lemma demo_apart: "apart demo_env demo_request"
  by (simp add: apart_def demo_env_def demo_request_def demo_state_file new_path_def prev_path_def
      prev_tmp_def tmp_path_def)

lemma demo_updated:
  "map_option (\<lambda>(h, fl, r). (data_of (hd h) ''/opt/a'', data_of (hd h) ''/opt/a.prev'', fl, map_sum id ar_status r))
     demo_apply = Some (Some ''new'', Some ''old'', False, Inr Updated)"
  by code_simp

lemma demo_applyE:
  obtains h' fl ar where "demo_apply = Some (h', fl, Inr ar)" and "ar_status ar = Updated"
proof (cases demo_apply)
  case None
  then show thesis using demo_updated by simp
next
  case (Some x)
  obtain h' fl r where x: "x = (h', fl, r)" by (cases x)
  have d: "demo_apply = Some (h', fl, r)" using Some x by simp
  have "map_sum id ar_status r = Inr Updated"
    using demo_updated unfolding d by simp
  with d that show thesis by (cases r) auto
qed

section \<open>Properties\<close>

text \<open>
  C1. An update never leaves the device without a working agent, whenever the power fails:
  in every file system an apply passes through, the install path holds either exactly the
  bytes it held before, or new bytes that passed the checksum, and then the old binary is
  whole under \<open>.prev\<close> and the pending marker that lets the watchdog bring it back is on disk.
\<close>

theorem apply_crash_safe:
  assumes "apply_with_watchdog b jd sha e rq in_progress h = Some (h', fl, r)" and "h \<noteq> []" and "apart e rq"
  shows "\<exists>ts. h' = ts @ h \<and> (\<forall>t \<in> set ts.
    data_of t (ae_install e) = data_of (hd h) (ae_install e) \<or> committed b jd sha e rq (hd h) t)"
  using assms
proof (cases rule: apply_cases)
  case kept
  then show ?thesis using install_untouched [OF assms(3)] unfolding hext_def by blast
next
  case (replaced ar h1)
  then obtain ts where "h1 = ts @ h" "\<forall>t\<in>set ts. data_of t (ae_install e) = data_of (hd h) (ae_install e)"
    using install_untouched [OF assms(3)] unfolding hext_def by blast
  with replaced show ?thesis by (intro exI [of _ "hd h' # ts"]) auto
qed

theorem apply_crash_safe_witness:
  "case demo_apply of None \<Rightarrow> False
   | Some (h', fl, r) \<Rightarrow> (\<exists>ts. h' = ts @ [demo_fs] \<and> (\<forall>t \<in> set ts.
       data_of t ''/opt/a'' = Some ''old'' \<or>
       committed demo_build (\<lambda>_. ''M'') (\<lambda>_. Some [1, 255]) demo_env demo_request demo_fs t))"
proof -
  have i: "ae_install demo_env = ''/opt/a''" "data_of demo_fs ''/opt/a'' = Some ''old''"
    by (simp_all add: demo_env_def demo_fs_def data_of_def)
  obtain h' fl r where d: "demo_apply = Some (h', fl, r)" using demo_updated by (cases demo_apply) auto
  show ?thesis
    using apply_crash_safe [OF d [unfolded demo_apply_def] _ demo_apart] i by (simp add: d)
qed

text \<open>
  C6. What an apply that reports success has established: the target version was not empty,
  no other apply was running, no earlier update was pending, the download, checksum and
  preflight passed, an automatic update met no open session at either check, and the device
  is in the committed state. Any other report leaves the binary as it was.
\<close>

theorem apply_updated_requires:
  assumes "apply_with_watchdog b jd sha e rq in_progress h = Some (h', fl, Inr ar)" and "h \<noteq> []" and "apart e rq"
  shows "if ar_status ar = Updated then
      committed b jd sha e rq (hd h) (hd h') \<and> \<not> in_progress \<and> rq_version rq \<noteq> [] \<and> \<not> android b \<and>
      \<not> fexists (hd h) (state_file (rq_state_dir rq)) \<and> download_binary (ae_download e) \<and>
      verify_binary (ae_probe e) \<noteq> [] \<and>
      (rq_origin rq = AutoPoll \<longrightarrow> ae_sessions_start e = 0 \<and> ae_sessions_swap e = 0)
    else data_of (hd h') (ae_install e) = data_of (hd h) (ae_install e)"
  using assms
proof (cases rule: apply_cases)
  case kept
  then show ?thesis using hext_hd [OF kept(1) install_untouched [OF assms(3)]] by simp
next
  case (replaced ar' h1)
  then show ?thesis by simp
qed

theorem apply_updated_requires_witness:
  "case demo_apply of Some (h', fl, Inr ar) \<Rightarrow>
     ar_status ar = Updated \<and> committed demo_build (\<lambda>_. ''M'') (\<lambda>_. Some [1, 255]) demo_env demo_request demo_fs (hd h')
   | _ \<Rightarrow> False"
proof -
  obtain h' fl ar where d: "demo_apply = Some (h', fl, Inr ar)" and u: "ar_status ar = Updated"
    by (rule demo_applyE)
  show ?thesis
    using apply_updated_requires [OF d [unfolded demo_apply_def] _ demo_apart] u by (simp add: d)
qed

text \<open>
  Two updates never overlap on disk: after an apply reported success, every further
  apply for the same state directory is refused as long as the marker is there, and touches
  nothing.
\<close>

theorem second_apply_refused:
  assumes "apply_with_watchdog b jd sha e rq in_progress h = Some (h', fl, Inr ar)" and "ar_status ar = Updated"
    and "h \<noteq> []" and "apart e rq" and "rq_state_dir rq' = rq_state_dir rq" and "rq_version rq' \<noteq> []"
    and "ae_stat_ok e'" and "\<not> android b"
  shows "apply_with_watchdog b jd sha' e' rq' False h' =
    Some (h', False, Inr (mk_result Error ''restart_pending'' ''a previous update is pending a restart''))"
  using assms(1,3,4)
proof (cases rule: apply_cases)
  case kept
  with assms(2) show ?thesis by simp
next
  case (replaced ar' h1)
  then have "fexists (hd h') (state_file (rq_state_dir rq'))"
    using assms(5) by (auto simp: committed_def fexists_data)
  with assms show ?thesis by (simp add: apply_with_watchdog_def)
qed

theorem second_apply_refused_witness:
  "case demo_apply of Some (h', fl, Inr ar) \<Rightarrow>
     apply_with_watchdog demo_build (\<lambda>_. ''M'') (\<lambda>_. Some [1, 255]) demo_env (demo_request\<lparr>rq_origin := Cli\<rparr>) False h' =
       Some (h', False, Inr (mk_result Error ''restart_pending'' ''a previous update is pending a restart''))
   | _ \<Rightarrow> False"
proof -
  obtain h' fl ar where d: "demo_apply = Some (h', fl, Inr ar)" and u: "ar_status ar = Updated"
    by (rule demo_applyE)
  show ?thesis
    using second_apply_refused [OF d [unfolded demo_apply_def] u _ demo_apart,
        of "demo_request\<lparr>rq_origin := Cli\<rparr>" demo_env]
    by (simp add: d demo_env_def demo_request_def demo_build_def)
qed

text \<open>
  The version check alone never touches the disk and takes no lock: \<open>run\<close> with the
  action \<open>check\<close>, or when the CDN fails, returns the file system it was given, and it
  reports \<open>updated\<close> only after an apply that committed.
\<close>

theorem run_check_is_pure:
  assumes "act = Check \<or> (\<exists>x. fetch_latest_version b jp (re_http e) channel = Inl x)"
  shows "\<exists>r. run b jp jd sha e act channel origin in_progress h = Some (h, in_progress, Inr r) \<and>
    rr_status r \<noteq> ''updated'' \<and> rr_current r = agent_version b \<and> rr_arch r = binary_suffix b"
  using assms
  by (auto simp: run_def Let_def run_start_def split: sum.splits)

theorem run_check_is_pure_witness:
  "\<exists>r. run demo_build ref_parse ref_dump demo_sha
     \<lparr>re_http = (\<lambda>_. HttpResponse 503 []), re_what = (\<lambda>_. []), re_state_dir = ''/etc/t'', re_apply = demo_env\<rparr>
     Apply ''latest'' Iotmp False [demo_fs] = Some ([demo_fs], False, Inr r) \<and>
    rr_status r \<noteq> ''updated'' \<and> rr_current r = agent_version demo_build \<and> rr_arch r = binary_suffix demo_build"
  by (rule run_check_is_pure) (simp add: fetch_latest_version_def)

end
