(* ===== verification/Dispatcher.thy ===== *)
theory Dispatcher
  imports Prelude "HOL-Library.Word" "HOL-Library.Multiset"
begin

text \<open>
  The fan-out of connection-state changes
  (\<open>src/thinr/runtime/client_state_dispatcher.hpp\<close>): the registry of observers with its
  64-bit ids, the RAII subscription handle, and the delivery of one change to a snapshot of
  the registry with every observer's exception contained.
\<close>

text \<open>The states of the client the sources name, and the remaining ones of its enumeration.\<close>

datatype client_state = DISCONNECTED | STREAMS_READY | AUTH_FAILED | OTHER_STATE nat

record 'o dispatcher =
  dp_observers :: "(64 word \<times> 'o) list"
  dp_next_id :: "64 word"
  dp_last :: client_state

definition new_dispatcher :: "'o dispatcher" where
  "new_dispatcher = \<lparr>dp_observers = [], dp_next_id = 1, dp_last = DISCONNECTED\<rparr>"

definition last_state :: "'o dispatcher \<Rightarrow> client_state" where
  "last_state d = dp_last d"

section \<open>Subscriptions\<close>

text \<open>A handle: whether it still owns its observer, and the id.\<close>

record subscription =
  sb_owner :: bool
  sb_id :: "64 word"

definition no_subscription :: subscription where
  "no_subscription = \<lparr>sb_owner = False, sb_id = 0\<rparr>"

definition subscribe :: "'o \<Rightarrow> 'o dispatcher \<Rightarrow> 'o dispatcher \<times> subscription" where
  "subscribe obs d =
     (let i = dp_next_id d;
          d = d\<lparr>dp_next_id := i + 1\<rparr>;
          d = d\<lparr>dp_observers := dp_observers d @ [(i, obs)]\<rparr>
      in (d, \<lparr>sb_owner = True, sb_id = i\<rparr>))"

text \<open>The first entry with the id is erased; an unknown id changes nothing.\<close>

fun erase_id :: "64 word \<Rightarrow> (64 word \<times> 'o) list \<Rightarrow> (64 word \<times> 'o) list" where
  "erase_id i [] = []"
| "erase_id i (e # es) = (if fst e = i then es else e # erase_id i es)"

definition unsubscribe :: "64 word \<Rightarrow> 'o dispatcher \<Rightarrow> 'o dispatcher" where
  "unsubscribe i d = d\<lparr>dp_observers := erase_id i (dp_observers d)\<rparr>"

definition sub_reset :: "subscription \<Rightarrow> 'o dispatcher \<Rightarrow> 'o dispatcher \<times> subscription" where
  "sub_reset sb d =
     (if sb_owner sb then (unsubscribe (sb_id sb) d, sb\<lparr>sb_owner := False\<rparr>) else (d, sb))"

text \<open>Move construction: the source is left without an owner.\<close>

definition sub_move :: "subscription \<Rightarrow> subscription \<times> subscription" where
  "sub_move other = (other, other\<lparr>sb_owner := False\<rparr>)"

text \<open>Move assignment from another handle: what the target held is removed first.\<close>

definition sub_assign :: "subscription \<Rightarrow> subscription \<Rightarrow> 'o dispatcher
    \<Rightarrow> 'o dispatcher \<times> subscription \<times> subscription" where
  "sub_assign this other d =
     (let (d, this) = sub_reset this d;
          this = \<lparr>sb_owner = sb_owner other, sb_id = sb_id other\<rparr>
      in (d, this, other\<lparr>sb_owner := False\<rparr>))"

section \<open>Delivery\<close>

text \<open>
  Running one observer changes the world and either returns or throws. \<open>dispatch\<close> records
  the state, takes the snapshot and runs every observer in it, whatever the others did.
\<close>

type_synonym ('o, 'w) runner = "'o \<Rightarrow> client_state \<Rightarrow> string \<Rightarrow> 'w \<Rightarrow> 'w \<times> unit res"

definition run_contained :: "('o, 'w) runner \<Rightarrow> client_state \<Rightarrow> string \<Rightarrow> 'o \<Rightarrow> 'w \<Rightarrow> 'w" where
  "run_contained run s reason obs w =
     (case run obs s reason w of (w', Inr _) \<Rightarrow> w' | (w', Inl _) \<Rightarrow> w')"

definition dispatch ::
    "('o, 'w) runner \<Rightarrow> client_state \<Rightarrow> string \<Rightarrow> 'o dispatcher \<Rightarrow> 'w \<Rightarrow> 'o dispatcher \<times> 'w" where
  "dispatch run s reason d w =
     (let d = d\<lparr>dp_last := s\<rparr>;
          snapshot = map snd (dp_observers d)
      in (d, fold (run_contained run s reason) snapshot w))"

section \<open>The registry contract\<close>

text \<open>
  What the watchdog and the poller rely on: subscribing adds one entry at the end under a
  fresh id, unsubscribing removes exactly that entry, and ids stay distinct.
\<close>

locale observer_registry =
  fixes sub :: "'o \<Rightarrow> 'd \<Rightarrow> 'd \<times> subscription"
    and unsub :: "64 word \<Rightarrow> 'd \<Rightarrow> 'd"
    and entries :: "'d \<Rightarrow> (64 word \<times> 'o) list"
    and inv :: "'d \<Rightarrow> bool"
    and room :: "'d \<Rightarrow> bool"
  assumes inv_distinct: "inv d \<Longrightarrow> distinct (map fst (entries d))"
    and sub_inv: "inv d \<Longrightarrow> room d \<Longrightarrow> inv (fst (sub ob d))"
    and sub_entries: "entries (fst (sub ob d)) = entries d @ [(sb_id (snd (sub ob d)), ob)]"
    and unsub_inv: "inv d \<Longrightarrow> inv (unsub i d)"
    and unsub_entries: "inv d \<Longrightarrow> entries (unsub i d) = filter (\<lambda>x. fst x \<noteq> i) (entries d)"
begin

lemma sub_fresh:
  assumes "inv d" and "room d"
  shows "sb_id (snd (sub ob d)) \<notin> fst ` set (entries d)"
  using inv_distinct [OF sub_inv [OF assms, of ob]] by (simp add: sub_entries)

lemma sub_unsub:
  assumes "inv d" and "room d"
  shows "entries (unsub (sb_id (snd (sub ob d))) (fst (sub ob d))) = entries d"
proof -
  have "filter (\<lambda>x. fst x \<noteq> sb_id (snd (sub ob d))) (entries d) = entries d"
    using sub_fresh [OF assms, of ob] by (intro filter_True) force
  then show ?thesis
    by (simp add: unsub_entries [OF sub_inv [OF assms]] sub_entries)
qed

lemma unsub_others:
  assumes "inv d" and "(i, ob) \<in> set (entries d)" and "i \<noteq> j"
  shows "(i, ob) \<in> set (entries (unsub j d))"
  using assms by (simp add: unsub_entries)

end

definition disp_inv :: "'o dispatcher \<Rightarrow> bool" where
  "disp_inv d \<longleftrightarrow> distinct (map fst (dp_observers d)) \<and> (\<forall>i \<in> fst ` set (dp_observers d). i < dp_next_id d)"

text \<open>The counter has not reached the last 64-bit id.\<close>

definition disp_room :: "'o dispatcher \<Rightarrow> bool" where
  "disp_room d \<longleftrightarrow> unat (dp_next_id d) + 1 < 18446744073709551616"

lemma erase_id_filter: "distinct (map fst es) \<Longrightarrow> erase_id i es = filter (\<lambda>x. fst x \<noteq> i) es"
proof (induction es)
  case Nil
  then show ?case by simp
next
  case (Cons e es)
  then have "fst e = i \<Longrightarrow> filter (\<lambda>x. fst x \<noteq> i) es = es"
    by (intro filter_True) (auto simp: image_iff)
  with Cons show ?case by auto
qed

lemma subscribe_simps [simp]:
  "dp_observers (fst (subscribe ob d)) = dp_observers d @ [(dp_next_id d, ob)]"
  "dp_next_id (fst (subscribe ob d)) = dp_next_id d + 1"
  "sb_id (snd (subscribe ob d)) = dp_next_id d" "sb_owner (snd (subscribe ob d))"
  by (simp_all add: subscribe_def Let_def)

lemma disp_inv_subscribe: "disp_inv d \<Longrightarrow> disp_room d \<Longrightarrow> disp_inv (fst (subscribe ob d))"
proof -
  assume i: "disp_inv d" and r: "disp_room d"
  then have "dp_next_id d < dp_next_id d + 1"
    by (simp add: disp_room_def word_less_nat_alt unat_word_ariths)
  moreover from this have "x < dp_next_id d + 1" if "x < dp_next_id d" for x
    using that by (rule less_trans [rotated])
  ultimately show ?thesis using i by (auto simp: disp_inv_def)
qed

lemma disp_inv_unsubscribe: "disp_inv d \<Longrightarrow> disp_inv (unsubscribe i d)"
  by (auto simp: disp_inv_def unsubscribe_def erase_id_filter distinct_map_filter)

lemma disp_inv_new: "disp_inv new_dispatcher"
  by (simp add: disp_inv_def new_dispatcher_def)

interpretation reg: observer_registry subscribe unsubscribe dp_observers disp_inv disp_room
proof (rule observer_registry.intro)
  fix d :: "'o dispatcher" and ob :: 'o and i
  show "disp_inv d \<Longrightarrow> distinct (map fst (dp_observers d))" by (simp add: disp_inv_def)
  show "disp_inv d \<Longrightarrow> disp_room d \<Longrightarrow> disp_inv (fst (subscribe ob d))" by (rule disp_inv_subscribe)
  show "dp_observers (fst (subscribe ob d)) = dp_observers d @ [(sb_id (snd (subscribe ob d)), ob)]" by simp
  show "disp_inv d \<Longrightarrow> disp_inv (unsubscribe i d)" by (rule disp_inv_unsubscribe)
  show "disp_inv d \<Longrightarrow> dp_observers (unsubscribe i d) = filter (\<lambda>x. fst x \<noteq> i) (dp_observers d)"
    by (simp add: unsubscribe_def erase_id_filter disp_inv_def)
qed

section \<open>Properties\<close>

text \<open>The events each observer received, for stating what a delivery did.\<close>

definition logging :: "('o \<Rightarrow> unit res) \<Rightarrow> ('o, ('o \<times> client_state \<times> string) list) runner" where
  "logging outcome ob s reason w = (w @ [(ob, s, reason)], outcome ob)"

lemma fold_contained_log:
  "fold (run_contained (logging outcome) s reason) obs w = w @ map (\<lambda>ob. (ob, s, reason)) obs"
  by (induction obs arbitrary: w) (auto simp: run_contained_def logging_def split: sum.splits)

section \<open>Any use of the handles\<close>

text \<open>
  What the components do with their handles: subscribe, reset one (its destruction is the same),
  move one into a new handle, move one over another. A handle is named by its place in the list
  of all handles ever made.
\<close>

datatype 'o handle_op = Subscribe 'o | Reset nat | MoveNew nat | MoveOver nat nat

fun handle_step :: "'o handle_op \<Rightarrow> 'o dispatcher \<times> subscription list \<Rightarrow> 'o dispatcher \<times> subscription list" where
  "handle_step (Subscribe ob) (d, sbs) = (case subscribe ob d of (d', sb) \<Rightarrow> (d', sbs @ [sb]))"
| "handle_step (Reset k) (d, sbs) =
     (if k < length sbs then case sub_reset (sbs ! k) d of (d', sb) \<Rightarrow> (d', sbs[k := sb]) else (d, sbs))"
| "handle_step (MoveNew k) (d, sbs) =
     (if k < length sbs then case sub_move (sbs ! k) of (new, old) \<Rightarrow> (d, sbs[k := old] @ [new]) else (d, sbs))"
| "handle_step (MoveOver k l) (d, sbs) =
     (if k < length sbs \<and> l < length sbs \<and> k \<noteq> l
      then case sub_assign (sbs ! k) (sbs ! l) d of (d', this, other) \<Rightarrow> (d', sbs[k := this, l := other])
      else (d, sbs))"

text \<open>The specification: who holds which observer, the observers numbered as they were subscribed.\<close>

fun holder_step :: "'o handle_op \<Rightarrow> nat \<times> (nat \<times> 'o) option list \<Rightarrow> nat \<times> (nat \<times> 'o) option list" where
  "holder_step (Subscribe ob) (n, hs) = (Suc n, hs @ [Some (n, ob)])"
| "holder_step (Reset k) (n, hs) = (n, hs[k := None])"
| "holder_step (MoveNew k) (n, hs) = (n, if k < length hs then hs[k := None] @ [hs ! k] else hs)"
| "holder_step (MoveOver k l) (n, hs) =
     (n, if k < length hs \<and> l < length hs \<and> k \<noteq> l then hs[k := hs ! l, l := None] else hs)"

definition held :: "(nat \<times> 'o) option list \<Rightarrow> (nat \<times> 'o) list" where
  "held hs = map the (filter (\<lambda>h. h \<noteq> None) hs)"

definition owns :: "subscription \<Rightarrow> (nat \<times> 'o) option \<Rightarrow> bool" where
  "owns sb h \<longleftrightarrow> (case h of None \<Rightarrow> \<not> sb_owner sb | Some x \<Rightarrow> sb_owner sb \<and> sb_id sb = of_nat (fst x))"

definition entry_of :: "nat \<times> 'o \<Rightarrow> 64 word \<times> 'o" where
  "entry_of x = (of_nat (fst x), snd x)"

definition agrees :: "(nat \<times> 'o) list \<Rightarrow> 'o dispatcher \<times> subscription list \<Rightarrow> nat \<times> (nat \<times> 'o) option list \<Rightarrow> bool" where
  "agrees live c a \<longleftrightarrow> (case (c, a) of ((d, sbs), (n, hs)) \<Rightarrow>
     disp_inv d \<and> dp_observers d = map entry_of live \<and> dp_next_id d = of_nat n \<and>
     sorted_wrt (\<lambda>x y. fst x < fst y) live \<and> (\<forall>x \<in> set live. fst x < n) \<and> set live = set (held hs) \<and>
     distinct (map fst (held hs)) \<and> list_all2 owns sbs hs)"

lemma agreesD:
  assumes "agrees live (d, sbs) (n, hs)"
  shows "disp_inv d" "dp_observers d = map entry_of live" "dp_next_id d = of_nat n"
    "sorted_wrt (\<lambda>x y. fst x < fst y) live" "\<And>x. x \<in> set live \<Longrightarrow> fst x < n" "set live = set (held hs)"
    "distinct (map fst (held hs))" "list_all2 owns sbs hs"
  using assms by (simp_all add: agrees_def)

lemma held_simps [simp]: "held [] = []" "held (None # hs) = held hs" "held (Some x # hs) = x # held hs" "held (hs @ js) = held hs @ held js"
  by (simp_all add: held_def)

lemma held_nth: "k < length hs \<Longrightarrow> hs ! k = Some x \<Longrightarrow> x \<in> set (held hs)"
  by (force simp: held_def image_iff in_set_conv_nth)

lemma held_update:
  assumes "distinct (map fst (held hs))" and "k < length hs"
  shows "held (hs[k := None]) = filter (\<lambda>x. hs ! k \<noteq> None \<longrightarrow> fst x \<noteq> fst (the (hs ! k))) (held hs)"
proof -
  have h: "hs = take k hs @ hs ! k # drop (Suc k) hs" using assms(2) by (rule id_take_nth_drop)
  have u: "hs[k := None] = take k hs @ None # drop (Suc k) hs" using assms(2) by (rule upd_conv_take_nth_drop)
  show ?thesis
  proof (cases "hs ! k")
    case None
    with h u show ?thesis by simp
  next
    case (Some y)
    have e: "held hs = held (take k hs) @ y # held (drop (Suc k) hs)" by (subst h) (simp add: Some)
    then have d: "fst y \<notin> fst ` (set (held (take k hs)) \<union> set (held (drop (Suc k) hs)))" using assms(1) by (simp add: image_Un)
    have "fst x \<noteq> fst y" if "x \<in> set (held (take k hs)) \<union> set (held (drop (Suc k) hs))" for x
      using d that by (metis imageI)
    then have "filter (\<lambda>x. fst x \<noteq> fst y) (held (take k hs)) = held (take k hs)"
      "filter (\<lambda>x. fst x \<noteq> fst y) (held (drop (Suc k) hs)) = held (drop (Suc k) hs)" by (simp_all add: filter_id_conv)
    with e u Some show ?thesis by simp
  qed
qed

text \<open>Moving a handle permutes what is held.\<close>

lemma held_permuted:
  assumes "mset (filter (\<lambda>h. h \<noteq> None) js) = mset (filter (\<lambda>h. h \<noteq> None) hs)"
  shows "set (held js) = set (held hs) \<and> distinct (map fst (held js)) = distinct (map fst (held hs))"
proof -
  have "mset (held js) = mset (held hs)" using assms by (simp add: held_def)
  then show ?thesis by (metis mset_eq_setD mset_map mset_eq_imp_distinct_iff)
qed

lemma moved_new:
  assumes "k < length hs"
  shows "mset (filter (\<lambda>h. h \<noteq> None) (hs[k := None] @ [hs ! k])) = mset (filter (\<lambda>h. h \<noteq> None) hs)"
  using assms by (simp add: mset_update)

lemma moved_over:
  assumes "k < length hs" and "l < length hs" and "k \<noteq> l"
  shows "mset (filter (\<lambda>h. h \<noteq> None) (hs[k := hs ! l, l := None])) = mset (filter (\<lambda>h. h \<noteq> None) (hs[k := None]))"
  using assms by (simp add: mset_update)

lemma unat_small: "n < 18446744073709551616 \<Longrightarrow> unat (of_nat n :: 64 word) = n"
  by (simp add: unat_of_nat take_bit_nat_eq_self)

text \<open>A handle that is reset takes its own observer out, whichever it is, and no other.\<close>

lemma reset_agrees:
  assumes "agrees live (d, sbs) (n, hs)" and "n < 18446744073709551616" and "k < length sbs"
    and "sub_reset (sbs ! k) d = (d', sb)"
  shows "agrees (filter (\<lambda>x. hs ! k \<noteq> None \<longrightarrow> fst x \<noteq> fst (the (hs ! k))) live) (d', sbs[k := sb]) (n, hs[k := None])"
proof -
  note a = agreesD [OF assms(1)]
  have len: "length sbs = length hs" using a(8) by (rule list_all2_lengthD)
  have k: "k < length hs" "owns (sbs ! k) (hs ! k)" using assms(3) len list_all2_nthD [OF a(8)] by simp_all
  note gone = held_update [OF a(7) k(1)]
  have once: "distinct (map fst (held (hs[k := None])))" using a(7) by (simp add: gone distinct_map_filter)
  have sb: "\<not> sb_owner sb" using assms(4) by (auto simp: sub_reset_def split: if_splits)
  then have own: "list_all2 owns (sbs[k := sb]) (hs[k := None])"
    using a(8) by (intro list_all2_update_cong) (simp_all add: owns_def)
  have "disp_inv d' \<and> dp_next_id d' = dp_next_id d \<and>
      dp_observers d' = map entry_of (filter (\<lambda>x. hs ! k \<noteq> None \<longrightarrow> fst x \<noteq> fst (the (hs ! k))) live)"
  proof (cases "hs ! k")
    case None
    with k have "d' = d" using assms(4) by (simp add: owns_def sub_reset_def)
    with a(1,2) None show ?thesis by simp
  next
    case (Some y)
    with k have own: "sb_owner (sbs ! k)" "sb_id (sbs ! k) = of_nat (fst y)" by (simp_all add: owns_def)
    then have d': "d' = unsubscribe (of_nat (fst y)) d" using assms(4) by (simp add: sub_reset_def)
    have y: "fst y < n" using a(5) [of y] a(6) held_nth [OF k(1) Some] by blast
    have inj: "(of_nat (fst x) :: 64 word) = of_nat (fst y) \<longleftrightarrow> fst x = fst y" if "x \<in> set live" for x
    proof -
      have "fst x < 18446744073709551616" "fst y < 18446744073709551616" using a(5) [OF that] y assms(2) by auto
      then show ?thesis by (metis unat_small)
    qed
    have "filter (\<lambda>e. fst e \<noteq> of_nat (fst y)) (map entry_of live) = map entry_of (filter (\<lambda>x. fst x \<noteq> fst y) live)"
      using inj by (simp add: filter_map entry_of_def comp_def cong: filter_cong)
    with a(2) d' Some reg.unsub_entries [OF a(1), of "of_nat (fst y)"] reg.unsub_inv [OF a(1), of "of_nat (fst y)"] show ?thesis
      by (simp add: unsubscribe_def)
  qed
  with a(3-6) once own show ?thesis unfolding agrees_def prod.case gone
    by (auto intro!: sorted_wrt_filter)
qed

lemma handle_agrees:
  assumes "agrees live c a" and "fst (holder_step p a) < 18446744073709551616"
  shows "\<exists>live'. agrees live' (handle_step p c) (holder_step p a)"
proof -
  obtain d sbs n hs where ca: "c = (d, sbs)" "a = (n, hs)" by (cases c, cases a)
  note g = assms(1) [unfolded ca]
  note g' = agreesD [OF g]
  have len: "length sbs = length hs" using g'(8) by (rule list_all2_lengthD)
  show ?thesis
  proof (cases p)
    case (Subscribe ob)
    obtain d' sb where s: "subscribe ob d = (d', sb)" by (rule prod.exhaust)
    have n: "Suc n < 18446744073709551616" using assms(2) by (simp add: ca Subscribe)
    then have "unat (of_nat n :: 64 word) = n" by (intro unat_small) simp
    then have "disp_room d" using n g'(3) by (simp add: disp_room_def)
    then have "disp_inv d'" using reg.sub_inv [OF g'(1), of ob] s by simp
    moreover have "dp_observers d' = dp_observers d @ [(of_nat n, ob)]" "dp_next_id d' = of_nat (Suc n)"
      "sb_owner sb" "sb_id sb = of_nat n"
      using subscribe_simps [of ob d] g'(3) s by simp_all
    moreover have below: "fst x < n" if "x \<in> set (held hs)" for x using g'(5) [of x] g'(6) that by simp
    then have "distinct (map fst (held (hs @ [Some (n, ob)])))" using g'(7) by force
    ultimately have "agrees (live @ [(n, ob)]) (d', sbs @ [sb]) (Suc n, hs @ [Some (n, ob)])"
      using g'(2,4,6,8) below unfolding agrees_def prod.case
      by (auto simp: sorted_wrt_append entry_of_def owns_def less_SucI intro!: list_all2_appendI)
    then show ?thesis by (intro exI) (simp add: ca Subscribe s)
  next
    case (Reset k)
    have n: "n < 18446744073709551616" using assms(2) by (simp add: ca Reset)
    show ?thesis
    proof (cases "k < length sbs")
      case True
      obtain d' sb where "sub_reset (sbs ! k) d = (d', sb)" by (rule prod.exhaust)
      with reset_agrees [OF g n True this] True show ?thesis by (auto simp: ca Reset)
    next
      case False
      with g len show ?thesis by (auto simp: ca Reset list_update_beyond)
    qed
  next
    case (MoveNew k)
    show ?thesis
    proof (cases "k < length sbs")
      case True
      then have k: "k < length hs" "owns (sbs ! k) (hs ! k)" using len True list_all2_nthD [OF g'(8)] by simp_all
      let ?js = "hs[k := None] @ [hs ! k]"
      note held_permuted [OF moved_new [OF k(1)]]
      moreover have "list_all2 owns (sbs[k := (sbs ! k)\<lparr>sb_owner := False\<rparr>] @ [sbs ! k]) ?js"
        using g'(8) k(2) by (intro list_all2_appendI list_all2_update_cong) (simp_all add: owns_def)
      ultimately show ?thesis using True g'(1-7) len unfolding agrees_def
        by (intro exI [of _ live]) (simp add: ca MoveNew sub_move_def)
    next
      case False
      with g len show ?thesis by (auto simp: ca MoveNew)
    qed
  next
    case (MoveOver k l)
    have n: "n < 18446744073709551616" using assms(2) by (simp add: ca MoveOver)
    show ?thesis
    proof (cases "k < length sbs \<and> l < length sbs \<and> k \<noteq> l")
      case True
      then have kl: "k < length sbs" "l < length sbs" "k \<noteq> l" by simp_all
      obtain d' sb where r: "sub_reset (sbs ! k) d = (d', sb)" by (rule prod.exhaust)
      define live' where "live' = filter (\<lambda>x. hs ! k \<noteq> None \<longrightarrow> fst x \<noteq> fst (the (hs ! k))) live"
      note b = reset_agrees [OF g n kl(1) r, folded live'_def, unfolded agrees_def prod.case]
      let ?js = "hs[k := hs ! l, l := None]" and ?is = "hs[k := None]"
      have own: "owns (sbs ! l) (hs ! l)" using kl(2) list_all2_nthD [OF g'(8)] by simp
      have "k < length hs" "l < length hs" using kl len by simp_all
      note held_permuted [OF moved_over [OF this kl(3)]]
      moreover have "list_all2 owns (sbs[k := \<lparr>sb_owner = sb_owner (sbs ! l), sb_id = sb_id (sbs ! l)\<rparr>,
          l := (sbs ! l)\<lparr>sb_owner := False\<rparr>]) ?js"
        using g' own by (intro list_all2_update_cong) (auto simp: owns_def split: option.splits)
      ultimately have "agrees live' (d', sbs[k := \<lparr>sb_owner = sb_owner (sbs ! l), sb_id = sb_id (sbs ! l)\<rparr>,
          l := (sbs ! l)\<lparr>sb_owner := False\<rparr>]) (n, ?js)"
        using b unfolding agrees_def by simp
      with kl len show ?thesis by (intro exI [of _ live']) (simp add: ca MoveOver sub_assign_def r)
    next
      case False
      with g len show ?thesis by (auto simp: ca MoveOver)
    qed
  qed
qed

lemma handles_agree:
  assumes "length ops < 18446744073709551615"
  shows "\<exists>live. agrees live (fold handle_step ops (new_dispatcher, [])) (fold holder_step ops (1, []))"
proof -
  have "(\<exists>live. agrees live (fold handle_step ops (new_dispatcher, [])) (fold holder_step ops (1, []))) \<and>
      fst (fold holder_step ops (1, [] :: (nat \<times> 'a) option list)) \<le> Suc (length ops)" using assms
  proof (induction ops rule: rev_induct)
    case Nil
    show ?case by (simp add: agrees_def disp_inv_new) (simp add: new_dispatcher_def)
  next
    case (snoc p ops)
    let ?a = "fold holder_step ops (1, [] :: (nat \<times> 'a) option list)"
    have step: "fst (holder_step p ?a) \<le> Suc (fst ?a)" by (cases p; cases ?a) simp_all
    with snoc have "fst (holder_step p ?a) \<le> Suc (length (ops @ [p]))" by simp
    with snoc handle_agrees [of _ "fold handle_step ops (new_dispatcher, [])" ?a p] show ?case by fastforce
  qed
  then show ?thesis ..
qed

text \<open>
  C32. However the components subscribe, reset, destroy and move their handles, a change of
  state reaches exactly the observers some handle still owns, each once and in the order of
  their subscription, whichever of them throw, and is remembered. In particular a handle that is
  reset, the last one made or any other, takes its own observer out and no other, resetting it
  again does nothing, and moving a handle unsubscribes nothing but what the target owned.
\<close>

theorem dispatch_reaches_every_observer:
  assumes "length ops < 18446744073709551615" and "fold handle_step ops (new_dispatcher, []) = (d, sbs)"
  shows "\<exists>live. sorted_wrt (\<lambda>x y. fst x < fst y) live \<and> set live = {x. Some x \<in> set (snd (fold holder_step ops (1, [])))} \<and>
    snd (dispatch (logging outcome) s reason d w) = w @ map (\<lambda>x. (snd x, s, reason)) live \<and>
    last_state (fst (dispatch (logging outcome) s reason d w)) = s"
proof -
  obtain n hs where h: "fold holder_step ops (1, []) = (n, hs)" by (rule prod.exhaust)
  obtain live where "agrees live (d, sbs) (n, hs)" using handles_agree [OF assms(1)] assms(2) h by metis
  note a = agreesD [OF this]
  have "set (held hs) = {x. Some x \<in> set hs}" by (force simp: held_def image_iff)
  with a(2,4,6) h show ?thesis
    by (intro exI [of _ live]) (simp add: dispatch_def Let_def fold_contained_log last_state_def entry_of_def)
qed

theorem dispatch_reaches_every_observer_witness:
  "\<exists>d sbs live. fold handle_step [Subscribe (7::nat), Subscribe 8, Subscribe 9, Reset 1, MoveNew 0] (new_dispatcher, []) = (d, sbs) \<and>
     set live = {(1 :: nat, 7), (3, 9)} \<and>
     snd (dispatch (logging (\<lambda>_. Inl OutOfRange)) STREAMS_READY ''r'' d []) = map (\<lambda>x. (snd x, STREAMS_READY, ''r'')) live"
proof -
  let ?ops = "[Subscribe (7::nat), Subscribe 8, Subscribe 9, Reset 1, MoveNew 0]"
  obtain d sbs where r: "fold handle_step ?ops (new_dispatcher, []) = (d, sbs)" by (rule prod.exhaust)
  have "{x. Some x \<in> set (snd (fold holder_step ?ops (1, [])))} = {(1, 7), (3, 9)}" by auto
  then obtain live where "set live = {(1 :: nat, 7), (3, 9)}"
      "snd (dispatch (logging (\<lambda>_. Inl OutOfRange)) STREAMS_READY ''r'' d []) = map (\<lambda>x. (snd x, STREAMS_READY, ''r'')) live"
    using dispatch_reaches_every_observer [OF _ r, of "\<lambda>_. Inl OutOfRange" STREAMS_READY "''r''" "[]"] by auto
  with r show ?thesis by blast
qed

end
