(* ===== verification/Watchdog.thy ===== *)
theory Watchdog
  imports Watchdog_Core Updater Dispatcher
begin

text \<open>
  The rollback watchdog (\<open>src/thinr/runtime/update_watchdog.hpp\<close>, \<open>update_watchdog.cpp\<close>):
  the early-boot step \<open>check_boot\<close>, the rollback itself, and the runtime object that
  confirms or reverts a new binary. The object runs on two threads, the one that emits
  client states and the deadline thread; their interleavings are a step relation.
\<close>

section \<open>Boot\<close>

datatype boot_outcome = Proceed | RevertedExit

text \<open>The outcomes of the calls one watchdog operation makes.\<close>

record wd_env =
  we_install :: string
  we_stat_ok :: bool
  we_rename :: bool
  we_remove :: "string \<Rightarrow> bool"
  we_now :: int
  we_write_reverted :: wa_env
  we_write_marker :: wa_env
  we_connected :: bool

definition reverted_file :: "string \<Rightarrow> string" where
  "reverted_file state_dir = path_join state_dir UPDATE_REVERTED_FILE"

definition read_marker_file :: "(string \<Rightarrow> json option) \<Rightarrow> fs \<Rightarrow> string \<Rightarrow> update_marker option res" where
  "read_marker_file jp s path =
     (case data_of s path of None \<Rightarrow> Inr None | Some content \<Rightarrow> marker_parse jp content)"

text \<open>
  The result says whether the previous binary was restored; the outer option is \<open>None\<close> only
  when the given outcomes of \<open>write\<close> run out. The two records are written whatever the
  first write returns.
\<close>

definition do_rollback ::
    "(json \<Rightarrow> string) \<Rightarrow> wd_env \<Rightarrow> string \<Rightarrow> update_marker \<Rightarrow> string \<Rightarrow> history \<Rightarrow> (history \<times> bool res) option" where
  "do_rollback jd e state_dir m reason h =
     (if um_prev_binary m = [] then Some (h, Inr False)
      else if \<not> we_stat_ok e then Some (h, Inl (FilesystemError ''exists''))
      else if \<not> fexists (hd h) (um_prev_binary m) then Some (h, Inr False)
      else if \<not> we_rename e then Some (h, Inr False)
      else
        let h1 = hstep (frename (um_prev_binary m) (we_install e)) h;
            rv = \<lparr>rv_version = um_to m, rv_restored = um_from m, rv_reason = reason, rv_at = we_now e\<rparr> in
        case hwrite (we_write_reverted e) (reverted_file state_dir) (reverted_dump jd rv) 420 h1 of
          None \<Rightarrow> None
        | Some (h2, _) \<Rightarrow>
            (case hwrite (we_write_marker e) (state_file state_dir)
                    (marker_dump jd (m\<lparr>um_phase := RolledBack\<rparr>)) 420 h2 of
               None \<Rightarrow> None
             | Some (h3, _) \<Rightarrow> Some (h3, Inr True)))"

definition check_boot ::
    "(string \<Rightarrow> json option) \<Rightarrow> (json \<Rightarrow> string) \<Rightarrow> wd_env \<Rightarrow> string \<Rightarrow> string \<Rightarrow> history
      \<Rightarrow> (history \<times> boot_outcome res) option" where
  "check_boot jp jd e state_dir running_version h =
     (let marker_file = state_file state_dir in
      case read_marker_file jp (hd h) marker_file of
        Inl x \<Rightarrow> Some (h, Inl x)
      | Inr marker \<Rightarrow>
          let d = decide_boot marker running_version; m = bd_marker d in
          (case bd_action d of
             CleanStart \<Rightarrow> Some (h, Inr Proceed)
           | ClearNoRevert \<Rightarrow>
               (let h1 = hremove (we_remove e) marker_file h;
                    h2 = (if um_prev_binary m \<noteq> [] then hremove (we_remove e) (um_prev_binary m) h1 else h1)
                in Some (h2, Inr Proceed))
           | ReportRolledBack \<Rightarrow> Some (h, Inr Proceed)
           | Arm \<Rightarrow>
               (case hwrite (we_write_marker e) marker_file (marker_dump jd m) 420 h of
                  None \<Rightarrow> None
                | Some (h1, _) \<Rightarrow> Some (h1, Inr Proceed))
           | Rollback \<Rightarrow>
               (case do_rollback jd e state_dir m ''crash_loop'' h of
                  None \<Rightarrow> None
                | Some (h1, Inl x) \<Rightarrow> Some (h1, Inl x)
                | Some (h1, Inr True) \<Rightarrow> Some (h1, Inr RevertedExit)
                | Some (h1, Inr False) \<Rightarrow> Some (h1, Inr Proceed))))"

section \<open>The runtime object\<close>

record watchdog =
  wd_state_dir :: string
  wd_version :: string
  wd_marker :: update_marker
  wd_armed :: bool
  wd_report_pending :: bool
  wd_resolved :: bool
  wd_deadline_stop :: bool
  wd_deadline_s :: int

definition new_watchdog :: "(string \<Rightarrow> json option) \<Rightarrow> fs \<Rightarrow> string \<Rightarrow> string \<Rightarrow> watchdog res" where
  "new_watchdog jp s state_dir running_version =
     (let w = \<lparr>wd_state_dir = state_dir, wd_version = running_version, wd_marker = default_marker,
                wd_armed = False, wd_report_pending = False, wd_resolved = False,
                wd_deadline_stop = False, wd_deadline_s = 90\<rparr> in
      rbind (read_marker_file jp s (state_file state_dir)) (\<lambda>marker.
        case marker of
          None \<Rightarrow> Inr w
        | Some m \<Rightarrow>
            let w = w\<lparr>wd_marker := m\<rparr> in
            if um_phase m = Pending \<and> running_version = um_to m then
              Inr (w\<lparr>wd_armed := True, wd_deadline_s := (if um_deadline_s m > 0 then um_deadline_s m else 90)\<rparr>)
            else if um_phase m = RolledBack then Inr (w\<lparr>wd_report_pending := True\<rparr>)
            else Inr w))"

definition event_of :: "client_state \<Rightarrow> string \<Rightarrow> runtime_event" where
  "event_of s reason =
     (if s = STREAMS_READY then StreamsReady
      else if s = AUTH_FAILED then (if reason = ''io_error'' then AuthFailedIo else AuthFailed)
      else StateOther)"

text \<open>What a thread goes on to do once it has claimed the resolution.\<close>

datatype wd_task = ReportTask | ConfirmTask | RollbackTask string

text \<open>
  \<open>on_state\<close> up to and including the test-and-set of \<open>resolved_\<close> under the mutex. A claim
  by a watchdog that is neither armed nor owes a report cannot happen.
\<close>

definition on_state_claim :: "watchdog \<Rightarrow> client_state \<Rightarrow> string \<Rightarrow> watchdog \<times> wd_task option" where
  "on_state_claim w s reason =
     (if \<not> wd_armed w \<and> \<not> wd_report_pending w then (w, None)
      else if event_of s reason = StreamsReady then
        (if wd_resolved w then (w, None)
         else
           let w = w\<lparr>wd_resolved := True\<rparr> in
           if wd_report_pending w then (w, Some ReportTask)
           else if wd_armed w then (w, Some ConfirmTask)
           else (w, None))
      else if \<not> wd_armed w then (w, None)
      else if decide_runtime (event_of s reason) = RollbackNow then
        (if wd_resolved w then (w, None)
         else (w\<lparr>wd_resolved := True\<rparr>, Some (RollbackTask ''auth_failed'')))
      else (w, None))"

text \<open>The report property, when the client is connected.\<close>

definition report :: "wd_env \<Rightarrow> string \<Rightarrow> string \<Rightarrow> string \<Rightarrow> string \<Rightarrow> json option" where
  "report e event from to reason =
     (if \<not> we_connected e then None
      else Some (jobj [(''event'', JStr event), (''from'', JStr from), (''to'', JStr to),
                       (''reason'', JStr reason), (''at'', JInt (we_now e))]))"

text \<open>What a task did: the report it sent, the restart it raised, or the exception that left it.\<close>

datatype wd_effect = Confirmed "json option" | Reported "json option" | RolledBackTo bool | Threw exn

definition confirm :: "wd_env \<Rightarrow> watchdog \<Rightarrow> history \<Rightarrow> watchdog \<times> history \<times> wd_effect" where
  "confirm e w h =
     (let m = wd_marker w;
          w = w\<lparr>wd_deadline_stop := True\<rparr>;
          h1 = hremove (we_remove e) (state_file (wd_state_dir w)) h;
          h2 = (if um_prev_binary m \<noteq> [] then hremove (we_remove e) (um_prev_binary m) h1 else h1)
      in (w, h2, Confirmed (report e ''confirmed'' (um_from m) (um_to m) ''ok'')))"

definition rollback ::
    "(json \<Rightarrow> string) \<Rightarrow> wd_env \<Rightarrow> string \<Rightarrow> watchdog \<Rightarrow> history \<Rightarrow> (watchdog \<times> history \<times> wd_effect) option" where
  "rollback jd e reason w h =
     (let w = w\<lparr>wd_deadline_stop := True\<rparr> in
      case do_rollback jd e (wd_state_dir w) (wd_marker w) reason h of
        None \<Rightarrow> None
      | Some (h', Inl x) \<Rightarrow> Some (w, h', Threw x)
      | Some (h', Inr restored) \<Rightarrow> Some (w, h', RolledBackTo restored))"

definition report_rolled_back ::
    "(string \<Rightarrow> json option) \<Rightarrow> wd_env \<Rightarrow> watchdog \<Rightarrow> history \<Rightarrow> watchdog \<times> history \<times> wd_effect" where
  "report_rolled_back jp e w h =
     (case last_reverted jp (hd h) (wd_state_dir w) of
        Inl x \<Rightarrow> (w, h, Threw x)
      | Inr rv \<Rightarrow>
          let m = wd_marker w;
              reason = (case rv of Some r \<Rightarrow> rv_reason r | None \<Rightarrow> ''reverted'');
              eff = Reported (report e ''rolled_back'' (um_from m) (um_to m) reason)
          in (w\<lparr>wd_report_pending := False\<rparr>, hremove (we_remove e) (state_file (wd_state_dir w)) h, eff))"

definition run_task ::
    "(string \<Rightarrow> json option) \<Rightarrow> (json \<Rightarrow> string) \<Rightarrow> wd_env \<Rightarrow> wd_task \<Rightarrow> watchdog \<Rightarrow> history
      \<Rightarrow> (watchdog \<times> history \<times> wd_effect) option" where
  "run_task jp jd e t w h =
     (case t of
        ReportTask \<Rightarrow> Some (report_rolled_back jp e w h)
      | ConfirmTask \<Rightarrow> Some (confirm e w h)
      | RollbackTask reason \<Rightarrow> rollback jd e reason w h)"

text \<open>\<open>on_state\<close> as one call: the claim, then the task it leads to.\<close>

definition on_state ::
    "(string \<Rightarrow> json option) \<Rightarrow> (json \<Rightarrow> string) \<Rightarrow> wd_env \<Rightarrow> client_state \<Rightarrow> string \<Rightarrow> watchdog \<Rightarrow> history
      \<Rightarrow> (watchdog \<times> history \<times> wd_effect option) option" where
  "on_state jp jd e s reason w h =
     (case on_state_claim w s reason of
        (w', None) \<Rightarrow> Some (w', h, None)
      | (w', Some t) \<Rightarrow>
          (case run_task jp jd e t w' h of
             None \<Rightarrow> None
           | Some (w'', h', eff) \<Rightarrow> Some (w'', h', Some eff)))"

section \<open>The two threads\<close>

text \<open>
  The deadline thread waits, wakes with \<open>deadline_stop_\<close> unset, claims the resolution and
  reverts. The io thread emits states one after the other; each step of the relation is a
  region the code runs under a mutex, or the work a thread does after its claim.
\<close>

datatype dl_thread = DlNone | DlWaiting | DlWoken | DlClaimed | DlDone

record wd_conf =
  wc_w :: watchdog
  wc_h :: history
  wc_io :: "wd_task option"
  wc_dl :: dl_thread
  wc_log :: "wd_effect list"

definition wd_start :: "watchdog \<Rightarrow> history \<Rightarrow> wd_conf" where
  "wd_start w h = \<lparr>wc_w = w, wc_h = h, wc_io = None,
     wc_dl = (if wd_armed w then DlWaiting else DlNone), wc_log = []\<rparr>"

text \<open>The deadline thread up to its claim: after the wait, and under the mutex.\<close>

definition deadline_wake :: "watchdog \<Rightarrow> dl_thread" where
  "deadline_wake w = (if wd_deadline_stop w then DlDone else DlWoken)"

definition deadline_claim :: "watchdog \<Rightarrow> watchdog \<times> dl_thread" where
  "deadline_claim w =
     (if wd_resolved w then (w, DlDone) else (w\<lparr>wd_resolved := True\<rparr>, DlClaimed))"

definition stop_watchdog :: "watchdog \<Rightarrow> watchdog" where
  "stop_watchdog w = w\<lparr>wd_deadline_stop := True\<rparr>"

inductive wd_step :: "(string \<Rightarrow> json option) \<Rightarrow> (json \<Rightarrow> string) \<Rightarrow> wd_conf \<Rightarrow> wd_conf \<Rightarrow> bool"
  for jp jd where
  io_event: "wc_io c = None \<Longrightarrow> on_state_claim (wc_w c) s r = (w', t) \<Longrightarrow>
    wd_step jp jd c (c\<lparr>wc_w := w', wc_io := t\<rparr>)"
| io_task: "wc_io c = Some t \<Longrightarrow> run_task jp jd e t (wc_w c) (wc_h c) = Some (w', h', eff) \<Longrightarrow>
    wd_step jp jd c (c\<lparr>wc_w := w', wc_h := h', wc_io := None, wc_log := wc_log c @ [eff]\<rparr>)"
| dl_wake: "wc_dl c = DlWaiting \<Longrightarrow> wd_step jp jd c (c\<lparr>wc_dl := deadline_wake (wc_w c)\<rparr>)"
| dl_claim: "wc_dl c = DlWoken \<Longrightarrow> deadline_claim (wc_w c) = (w', d) \<Longrightarrow>
    wd_step jp jd c (c\<lparr>wc_w := w', wc_dl := d\<rparr>)"
| dl_task: "wc_dl c = DlClaimed \<Longrightarrow> rollback jd e ''deadline'' (wc_w c) (wc_h c) = Some (w', h', eff) \<Longrightarrow>
    wd_step jp jd c (c\<lparr>wc_w := w', wc_h := h', wc_dl := DlDone, wc_log := wc_log c @ [eff]\<rparr>)"
| stop: "wd_step jp jd c (c\<lparr>wc_w := stop_watchdog (wc_w c)\<rparr>)"

inductive_cases wd_stepE: "wd_step jp jd c c'"

definition wd_reach :: "(string \<Rightarrow> json option) \<Rightarrow> (json \<Rightarrow> string) \<Rightarrow> watchdog \<Rightarrow> history \<Rightarrow> wd_conf \<Rightarrow> bool" where
  "wd_reach jp jd w h c \<longleftrightarrow> (wd_step jp jd)\<^sup>*\<^sup>* (wd_start w h) c"

section \<open>Lemmas\<close>

text \<open>Claims in flight and effects done; never more than what \<open>resolved_\<close> accounts for.\<close>

definition claims :: "wd_conf \<Rightarrow> nat" where
  "claims c = (if wc_io c = None then 0 else 1) + (if wc_dl c = DlClaimed then 1 else 0) + length (wc_log c)"

definition once_inv :: "wd_conf \<Rightarrow> bool" where
  "once_inv c \<longleftrightarrow> claims c \<le> (if wd_resolved (wc_w c) then 1 else 0)"

lemma on_state_claim_resolved:
  "on_state_claim w s r = (w', t) \<Longrightarrow>
     (wd_resolved w \<longrightarrow> t = None \<and> wd_resolved w') \<and> (t \<noteq> None \<longrightarrow> wd_resolved w') \<and> (wd_resolved w' \<or> t = None)"
  by (auto simp: on_state_claim_def Let_def split: if_splits)

lemma run_task_resolved:
  "run_task jp jd e t w h = Some (w', h', eff) \<Longrightarrow> wd_resolved w' = wd_resolved w"
  by (auto simp: run_task_def report_rolled_back_def confirm_def rollback_def Let_def
      split: wd_task.splits sum.splits option.splits prod.splits)

lemma rollback_resolved:
  "rollback jd e reason w h = Some (w', h', eff) \<Longrightarrow> wd_resolved w' = wd_resolved w"
  using run_task_resolved [of jp jd e "RollbackTask reason"] by (simp add: run_task_def)

lemma once_step: "wd_step jp jd c c' \<Longrightarrow> once_inv c \<Longrightarrow> once_inv c'"
proof (induction rule: wd_step.induct)
  case (io_event c s r w' t)
  then show ?case
    using on_state_claim_resolved [OF io_event(2)]
    by (cases t) (auto simp: once_inv_def claims_def split: if_splits)
next
  case (io_task c t e w' h' eff)
  then show ?case
    using run_task_resolved [OF io_task(2)]
    by (auto simp: once_inv_def claims_def split: if_splits)
next
  case (dl_wake c)
  then show ?case by (auto simp: once_inv_def claims_def deadline_wake_def split: if_splits)
next
  case (dl_claim c w' d)
  then show ?case by (auto simp: once_inv_def claims_def deadline_claim_def split: if_splits)
next
  case (dl_task c e w' h' eff)
  then show ?case
    using rollback_resolved [OF dl_task(2)]
    by (auto simp: once_inv_def claims_def split: if_splits)
next
  case (stop c)
  then show ?case by (simp add: once_inv_def claims_def stop_watchdog_def)
qed

lemma once_reach: "wd_reach jp jd w h c \<Longrightarrow> once_inv c"
  unfolding wd_reach_def
proof (induction rule: rtranclp_induct)
  case base
  show ?case by (simp add: once_inv_def claims_def wd_start_def)
next
  case (step c c')
  then show ?case using once_step by blast
qed

text \<open>The two record files never share a name, with each other or with their temporaries.\<close>

lemma path_join_prefix: "\<exists>p. \<forall>b. \<not> starts_with ''/'' b \<longrightarrow> path_join a b = p @ b"
proof -
  consider "a = []" | "ends_with ''/'' a" | "a \<noteq> [] \<and> \<not> ends_with ''/'' a" by blast
  then show ?thesis
  proof cases
    case 1
    then show ?thesis by (intro exI [of _ "[]"]) (simp add: path_join_def)
  next
    case 2
    then show ?thesis by (intro exI [of _ a]) (simp add: path_join_def)
  next
    case 3
    then show ?thesis by (intro exI [of _ "a @ ''/''"]) (simp add: path_join_def)
  qed
qed

lemma record_files_apart [simp]:
  "state_file d \<noteq> reverted_file d" "reverted_file d \<noteq> state_file d"
  "state_file d \<noteq> tmp_path e (reverted_file d)" "reverted_file d \<noteq> tmp_path e (state_file d)"
proof -
  obtain p where "\<forall>b. \<not> starts_with ''/'' b \<longrightarrow> path_join d b = p @ b" using path_join_prefix by blast
  then have "state_file d = p @ ''update.state''" "reverted_file d = p @ ''update.reverted''"
    by (simp_all add: state_file_def reverted_file_def UPDATE_STATE_FILE_def UPDATE_REVERTED_FILE_def starts_with_def)
  then show "state_file d \<noteq> reverted_file d" "reverted_file d \<noteq> state_file d"
    "state_file d \<noteq> tmp_path e (reverted_file d)" "reverted_file d \<noteq> tmp_path e (state_file d)"
    by (simp_all add: tmp_path_def)
qed

definition record_files :: "wd_env \<Rightarrow> string \<Rightarrow> string set" where
  "record_files e d = {state_file d, tmp_path (we_write_marker e) (state_file d),
     reverted_file d, tmp_path (we_write_reverted e) (reverted_file d)}"

text \<open>The binary and its backup are not among the record files.\<close>

definition wd_apart :: "wd_env \<Rightarrow> string \<Rightarrow> update_marker \<Rightarrow> bool" where
  "wd_apart e d m \<longleftrightarrow> um_prev_binary m \<noteq> we_install e \<and>
     {we_install e, um_prev_binary m} \<inter> record_files e d = {}"

definition rollback_record :: "wd_env \<Rightarrow> update_marker \<Rightarrow> string \<Rightarrow> reverted_info" where
  "rollback_record e m reason =
     \<lparr>rv_version = um_to m, rv_restored = um_from m, rv_reason = reason, rv_at = we_now e\<rparr>"

lemma do_rollback_cases:
  assumes "do_rollback jd e d m reason h = Some (h', r)" and "h \<noteq> []"
  obtains (kept) "h' = h" "r \<noteq> Inr True"
  | (reverted) h2 ok1 ok2 where "r = Inr True" "fexists (hd h) (um_prev_binary m)" "um_prev_binary m \<noteq> []"
      "hwrite (we_write_reverted e) (reverted_file d) (reverted_dump jd (rollback_record e m reason)) 420
         (hstep (frename (um_prev_binary m) (we_install e)) h) = Some (h2, ok1)"
      "hwrite (we_write_marker e) (state_file d) (marker_dump jd (m\<lparr>um_phase := RolledBack\<rparr>)) 420 h2 = Some (h', ok2)"
      "hext (record_files e d) (hstep (frename (um_prev_binary m) (we_install e)) h) h'"
      "hext (record_files e d) (hstep (frename (um_prev_binary m) (we_install e)) h) h2"
proof (cases "um_prev_binary m = [] \<or> \<not> we_stat_ok e \<or> \<not> fexists (hd h) (um_prev_binary m) \<or> \<not> we_rename e")
  case True
  then show thesis using assms(1) by (intro kept) (auto simp: do_rollback_def split: if_splits)
next
  case False
  let ?h1 = "hstep (frename (um_prev_binary m) (we_install e)) h"
  from False assms(1) obtain h2 ok1 ok2 where
    w1: "hwrite (we_write_reverted e) (reverted_file d) (reverted_dump jd (rollback_record e m reason)) 420 ?h1 = Some (h2, ok1)"
    and w2: "hwrite (we_write_marker e) (state_file d) (marker_dump jd (m\<lparr>um_phase := RolledBack\<rparr>)) 420 h2 = Some (h', ok2)"
    and r: "r = Inr True"
    by (auto simp: do_rollback_def rollback_record_def Let_def split: option.splits)
  have e1: "hext (record_files e d) ?h1 h2"
    by (rule hext_mono [OF hext_write [OF w1]]) (auto simp: record_files_def)
  have e2: "hext (record_files e d) ?h1 h'"
    by (rule hext_trans [OF e1 hext_write [OF w2 hext_ne [OF e1]]]) (auto simp: record_files_def)
  show thesis using reverted [OF r _ _ w1 w2 e2 e1] False by auto
qed

lemma do_rollback_works:
  assumes "um_prev_binary m \<noteq> []" and "we_stat_ok e" and "fexists (hd h) (um_prev_binary m)" and "we_rename e"
    and "wa_works (we_write_reverted e) (reverted_dump jd (rollback_record e m reason))"
    and "wa_works (we_write_marker e) (marker_dump jd (m\<lparr>um_phase := RolledBack\<rparr>))"
    and "h \<noteq> []" and "wd_apart e d m"
  shows "\<exists>h'. do_rollback jd e d m reason h = Some (h', Inr True) \<and>
    data_of (hd h') (we_install e) = data_of (hd h) (um_prev_binary m) \<and>
    data_of (hd h') (um_prev_binary m) = None \<and>
    data_of (hd h') (reverted_file d) = Some (reverted_dump jd (rollback_record e m reason)) \<and>
    data_of (hd h') (state_file d) = Some (marker_dump jd (m\<lparr>um_phase := RolledBack\<rparr>))"
proof -
  let ?h1 = "hstep (frename (um_prev_binary m) (we_install e)) h"
  obtain h2 where w1: "hwrite (we_write_reverted e) (reverted_file d)
      (reverted_dump jd (rollback_record e m reason)) 420 ?h1 = Some (h2, True)"
    using hwrite_works [OF assms(5)] by blast
  obtain h3 where w2: "hwrite (we_write_marker e) (state_file d)
      (marker_dump jd (m\<lparr>um_phase := RolledBack\<rparr>)) 420 h2 = Some (h3, True)"
    using hwrite_works [OF assms(6)] by blast
  have x1: "hext {reverted_file d, tmp_path (we_write_reverted e) (reverted_file d)} ?h1 h2"
    by (rule hext_write [OF w1]) simp
  have x2: "hext {state_file d, tmp_path (we_write_marker e) (state_file d)} h2 h3"
    by (rule hext_write [OF w2 hext_ne [OF x1]])
  have keep: "data_of (hd h3) q = data_of (hd ?h1) q" if "q \<in> {we_install e, um_prev_binary m}" for q
    using hext_hd [OF x1, of q] hext_hd [OF x2, of q] that assms(8)
    by (auto simp: wd_apart_def record_files_def)
  have "data_of (hd h3) (reverted_file d) = data_of (hd h2) (reverted_file d)"
    by (rule hext_hd [OF x2]) simp
  then have "data_of (hd h3) (reverted_file d) = Some (reverted_dump jd (rollback_record e m reason))"
    using hwrite_data [OF w1] by simp
  moreover have "do_rollback jd e d m reason h = Some (h3, Inr True)"
    using assms(1-4) w1 w2 by (simp add: do_rollback_def rollback_record_def)
  ultimately show ?thesis
    using keep hwrite_data [OF w2] assms(8) by (auto simp: wd_apart_def data_of_rename)
qed

text \<open>The two boots that write.\<close>

definition sequential_boots ::
    "(string \<Rightarrow> json option) \<Rightarrow> (json \<Rightarrow> string) \<Rightarrow> string \<Rightarrow> string \<Rightarrow> wd_env list \<Rightarrow> history
      \<Rightarrow> (history \<times> boot_outcome res list) option" where
  "sequential_boots jp jd d v es h =
     fold (\<lambda>e acc. case acc of None \<Rightarrow> None | Some (h, os) \<Rightarrow>
       (case check_boot jp jd e d v h of None \<Rightarrow> None | Some (h', r) \<Rightarrow> Some (h', os @ [r]))) es (Some (h, []))"

lemma read_marker:
  assumes "json_text jp jd" and "marker_ok m" and "data_of s p = Some (marker_dump jd m)"
  shows "read_marker_file jp s p = Inr (Some m)"
  using assms by (simp add: read_marker_file_def marker_parse_dump)

lemma marker_ok_attempts: "marker_ok m \<Longrightarrow> in_int32 n \<Longrightarrow> marker_ok (m\<lparr>um_attempts := n\<rparr>)"
  by (simp add: marker_ok_def)

lemma check_boot_arm:
  assumes "json_text jp jd" and "marker_ok m" and "data_of (hd h) (state_file d) = Some (marker_dump jd m)"
    and "um_phase m = Pending" and "0 \<le> um_attempts m" and "um_attempts m < 3"
    and "wa_works (we_write_marker e) (marker_dump jd (m\<lparr>um_attempts := um_attempts m + 1\<rparr>))" and "h \<noteq> []"
  shows "\<exists>h'. check_boot jp jd e d (um_to m) h = Some (h', Inr Proceed) \<and>
    data_of (hd h') (state_file d) = Some (marker_dump jd (m\<lparr>um_attempts := um_attempts m + 1\<rparr>)) \<and>
    hext {state_file d, tmp_path (we_write_marker e) (state_file d)} h h'"
proof -
  have n: "as_int32 (um_attempts m + 1) = um_attempts m + 1"
    using assms(5,6) by (simp add: in_int32_def)
  obtain h' where w: "hwrite (we_write_marker e) (state_file d)
      (marker_dump jd (m\<lparr>um_attempts := um_attempts m + 1\<rparr>)) 420 h = Some (h', True)"
    using hwrite_works [OF assms(7)] by blast
  have dec: "bd_action (decide_boot (Some m) (um_to m)) = Arm"
    "bd_marker (decide_boot (Some m) (um_to m)) = m\<lparr>um_attempts := um_attempts m + 1\<rparr>"
    using assms(4,6) n by (simp_all add: decide_boot_simps WATCHDOG_MAX_ATTEMPTS_def)
  have "check_boot jp jd e d (um_to m) h = Some (h', Inr Proceed)"
    using read_marker [OF assms(1-3)] w by (simp add: check_boot_def Let_def dec)
  then show ?thesis using hwrite_data [OF w] hext_write [OF w assms(8)] by simp
qed

lemma check_boot_rollback:
  assumes "json_text jp jd" and "marker_ok m" and "data_of (hd h) (state_file d) = Some (marker_dump jd m)"
    and "um_phase m = Pending" and "um_attempts m = 3" and "m' = m\<lparr>um_attempts := 4\<rparr>"
    and "um_prev_binary m \<noteq> []" and "we_stat_ok e" and "fexists (hd h) (um_prev_binary m)" and "we_rename e"
    and "wa_works (we_write_reverted e) (reverted_dump jd (rollback_record e m' ''crash_loop''))"
    and "wa_works (we_write_marker e) (marker_dump jd (m'\<lparr>um_phase := RolledBack\<rparr>))"
    and "h \<noteq> []" and "wd_apart e d m"
  shows "\<exists>h'. check_boot jp jd e d (um_to m) h = Some (h', Inr RevertedExit) \<and>
    data_of (hd h') (we_install e) = data_of (hd h) (um_prev_binary m) \<and>
    data_of (hd h') (reverted_file d) = Some (reverted_dump jd (rollback_record e m' ''crash_loop'')) \<and>
    data_of (hd h') (state_file d) = Some (marker_dump jd (m'\<lparr>um_phase := RolledBack\<rparr>))"
proof -
  have dec: "bd_action (decide_boot (Some m) (um_to m)) = Rollback" "bd_marker (decide_boot (Some m) (um_to m)) = m'"
    using assms(4-6) by (simp_all add: decide_boot_simps WATCHDOG_MAX_ATTEMPTS_def in_int32_def)
  have "\<exists>h'. do_rollback jd e d m' ''crash_loop'' h = Some (h', Inr True) \<and>
    data_of (hd h') (we_install e) = data_of (hd h) (um_prev_binary m') \<and>
    data_of (hd h') (um_prev_binary m') = None \<and>
    data_of (hd h') (reverted_file d) = Some (reverted_dump jd (rollback_record e m' ''crash_loop'')) \<and>
    data_of (hd h') (state_file d) = Some (marker_dump jd (m'\<lparr>um_phase := RolledBack\<rparr>))"
    by (rule do_rollback_works) (use assms in \<open>simp_all add: wd_apart_def\<close>)
  then show ?thesis
    using read_marker [OF assms(1-3)] assms(6) by (auto simp: check_boot_def Let_def dec)
qed

section \<open>A concrete rollback\<close>

definition demo_wd :: "string \<Rightarrow> string \<Rightarrow> wd_env" where
  "demo_wd rev_text marker_text = \<lparr>we_install = ''/bin/agent'', we_stat_ok = True, we_rename = True,
     we_remove = (\<lambda>_. True), we_now = 1762000100, we_write_reverted = good_wa rev_text,
     we_write_marker = good_wa marker_text, we_connected = True\<rparr>"

lemma demo_wd_sel [simp]:
  "we_install (demo_wd r m) = ''/bin/agent''" "we_stat_ok (demo_wd r m)" "we_rename (demo_wd r m)"
  "we_write_reverted (demo_wd r m) = good_wa r" "we_write_marker (demo_wd r m) = good_wa m" "we_now (demo_wd r m) = 1762000100"
  by (simp_all add: demo_wd_def)

definition demo_disk :: "string \<Rightarrow> fs" where
  "demo_disk marker_text =
     [''/bin/agent'' \<mapsto> \<lparr>f_data = ''new'', f_mode = 493\<rparr>, ''/bin/agent.prev'' \<mapsto> \<lparr>f_data = ''old'', f_mode = 493\<rparr>,
      ''/etc/t/update.state'' \<mapsto> \<lparr>f_data = marker_text, f_mode = 420\<rparr>]"

lemma demo_reverted_file: "reverted_file ''/etc/t'' = ''/etc/t/update.reverted''"
  by (simp add: reverted_file_def path_join_def starts_with_def ends_with_def UPDATE_REVERTED_FILE_def)

lemma demo_wd_apart: "um_prev_binary m = ''/bin/agent.prev'' \<Longrightarrow> wd_apart (demo_wd r t) ''/etc/t'' m"
  by (simp add: wd_apart_def record_files_def demo_state_file demo_reverted_file tmp_path_def)

section \<open>Properties\<close>

text \<open>
  C10. A rollback never damages the installed binary: in every file system it passes
  through, the install path holds exactly the bytes of the backup, and if it reports that
  nothing was restored, or throws, the disk is untouched, markers included, so the
  protection stays armed.
\<close>

theorem rollback_crash_safe:
  assumes "do_rollback jd e d m reason h = Some (h', r)" and "h \<noteq> []" and "wd_apart e d m"
  shows "if r = Inr True
    then data_of (hd h) (um_prev_binary m) \<noteq> None \<and> (\<exists>ts. h' = ts @ h \<and> ts \<noteq> [] \<and>
      (\<forall>t \<in> set ts. data_of t (we_install e) = data_of (hd h) (um_prev_binary m)))
    else h' = h"
  using assms(1,2)
proof (cases rule: do_rollback_cases)
  case kept
  then show ?thesis by simp
next
  case (reverted h2 ok1 ok2)
  let ?h1 = "hstep (frename (um_prev_binary m) (we_install e)) h"
  have ni: "we_install e \<notin> record_files e d" using assms(3) by (simp add: wd_apart_def)
  have i: "data_of (hd ?h1) (we_install e) = data_of (hd h) (um_prev_binary m)"
    using assms(3) by (auto simp: wd_apart_def data_of_rename)
  obtain ts where "h' = ts @ ?h1" "\<forall>t\<in>set ts. data_of t (we_install e) = data_of (hd ?h1) (we_install e)"
    using reverted(6) ni unfolding hext_def by blast
  then show ?thesis
    using reverted i by (intro if_P [THEN iffD2]) (auto simp: fexists_data hstep_def intro!: exI [of _ "ts @ [hd ?h1]"])
qed

theorem rollback_crash_safe_witness:
  "\<exists>h'. do_rollback (\<lambda>_. ''M'') (demo_wd ''M'' ''M'') ''/etc/t'' demo_marker ''deadline'' [demo_disk ''M''] = Some (h', Inr True) \<and>
     (\<exists>ts. h' = ts @ [demo_disk ''M''] \<and> ts \<noteq> [] \<and> (\<forall>t \<in> set ts. data_of t ''/bin/agent'' = Some ''old''))"
proof -
  have m: "um_prev_binary demo_marker = ''/bin/agent.prev''" by (simp add: demo_marker_def)
  have d: "data_of (demo_disk ''M'') ''/bin/agent.prev'' = Some ''old''" by (simp add: demo_disk_def data_of_def)
  obtain h' where r: "do_rollback (\<lambda>_. ''M'') (demo_wd ''M'' ''M'') ''/etc/t'' demo_marker ''deadline'' [demo_disk ''M''] = Some (h', Inr True)"
    using do_rollback_works [of demo_marker "demo_wd ''M'' ''M''" "[demo_disk ''M'']" "\<lambda>_. ''M''" "''deadline''" "''/etc/t''"]
      demo_wd_apart [OF m] m d by (auto simp: reverted_dump_def marker_dump_def fexists_data)
  then show ?thesis
    using rollback_crash_safe [OF r _ demo_wd_apart [OF m]] m d by simp
qed

text \<open>
  C8. The trial is resolved at most once: whatever client states arrive and however the io
  thread, the deadline thread and \<open>stop\<close> interleave, the watchdog carries out at most one of
  a confirmation, a rollback and a report, and two threads never work on one at a time.
\<close>

theorem resolved_at_most_once:
  assumes "wd_reach jp jd w h c"
  shows "length (wc_log c) \<le> 1 \<and> \<not> (wc_io c \<noteq> None \<and> wc_dl c = DlClaimed) \<and>
    (wc_log c \<noteq> [] \<longrightarrow> wc_io c = None \<and> wc_dl c \<noteq> DlClaimed \<and> wd_resolved (wc_w c))"
  using once_reach [OF assms] by (auto simp: once_inv_def claims_def split: if_splits)

theorem resolved_at_most_once_witness:
  "\<exists>c. wd_reach ref_parse ref_dump
      \<lparr>wd_state_dir = ''/etc/t'', wd_version = ''v1.8.0'', wd_marker = demo_marker, wd_armed = True,
       wd_report_pending = False, wd_resolved = False, wd_deadline_stop = False, wd_deadline_s = 90\<rparr> [demo_fs] c \<and>
    wc_io c = Some ConfirmTask \<and> wc_dl c \<noteq> DlClaimed"
proof -
  let ?w = "\<lparr>wd_state_dir = ''/etc/t'', wd_version = ''v1.8.0'', wd_marker = demo_marker, wd_armed = True,
       wd_report_pending = False, wd_resolved = False, wd_deadline_stop = False, wd_deadline_s = 90\<rparr>"
  let ?c = "wd_start ?w [demo_fs]"
  let ?c' = "?c\<lparr>wc_w := ?w\<lparr>wd_resolved := True\<rparr>, wc_io := Some ConfirmTask\<rparr>"
  have "wd_step ref_parse ref_dump ?c ?c'"
    by (rule io_event [where s = STREAMS_READY and r = "[]"])
       (simp_all add: wd_start_def on_state_claim_def event_of_def)
  then have r: "wd_reach ref_parse ref_dump ?w [demo_fs] ?c'" by (simp add: wd_reach_def)
  have "wc_dl ?c' \<noteq> DlClaimed" using resolved_at_most_once [OF r] by simp
  then show ?thesis using r by (intro exI [of _ ?c']) simp
qed

text \<open>
  C5. The crash-loop protection works on disk, across process restarts: a new binary whose
  pending marker was written with no attempts is let run three times and, on its fourth
  start, replaced by the backup; the marker then says it was rolled back and the durable
  record names the failed version and the reason.
\<close>

theorem crash_loop_reverts_on_disk:
  assumes "json_text jp jd" and "marker_ok m" and "um_phase m = Pending" and "um_attempts m = 0"
    and "um_prev_binary m \<noteq> []" and "h \<noteq> []" and "data_of (hd h) (state_file d) = Some (marker_dump jd m)"
    and "data_of (hd h) (um_prev_binary m) = Some old"
    and "wa_works (we_write_marker e1) (marker_dump jd (m\<lparr>um_attempts := 1\<rparr>))" and "wd_apart e1 d m"
    and "wa_works (we_write_marker e2) (marker_dump jd (m\<lparr>um_attempts := 2\<rparr>))" and "wd_apart e2 d m"
    and "wa_works (we_write_marker e3) (marker_dump jd (m\<lparr>um_attempts := 3\<rparr>))" and "wd_apart e3 d m"
    and "we_stat_ok e4" and "we_rename e4" and "wd_apart e4 d m" and "m' = m\<lparr>um_attempts := 4\<rparr>"
    and "wa_works (we_write_reverted e4) (reverted_dump jd (rollback_record e4 m' ''crash_loop''))"
    and "wa_works (we_write_marker e4) (marker_dump jd (m'\<lparr>um_phase := RolledBack\<rparr>))"
  shows "\<exists>h'. sequential_boots jp jd d (um_to m) [e1, e2, e3, e4] h =
      Some (h', [Inr Proceed, Inr Proceed, Inr Proceed, Inr RevertedExit]) \<and>
    data_of (hd h') (we_install e4) = Some old \<and>
    data_of (hd h') (state_file d) = Some (marker_dump jd (m'\<lparr>um_phase := RolledBack\<rparr>)) \<and>
    data_of (hd h') (reverted_file d) = Some (reverted_dump jd (rollback_record e4 m' ''crash_loop''))"
proof -
  have keep: "data_of (hd h2) (um_prev_binary m) = data_of (hd h1) (um_prev_binary m)"
    if "hext {state_file d, tmp_path (we_write_marker e) (state_file d)} h1 h2" "wd_apart e d m" for e h1 h2
    by (rule hext_hd [OF that(1)]) (use that(2) in \<open>auto simp: wd_apart_def record_files_def\<close>)
  note arm = check_boot_arm [OF assms(1) marker_ok_attempts [OF assms(2)], where d = d]
  obtain h1 where b1: "check_boot jp jd e1 d (um_to m) h = Some (h1, Inr Proceed)"
    "data_of (hd h1) (state_file d) = Some (marker_dump jd (m\<lparr>um_attempts := 1\<rparr>))"
    "hext {state_file d, tmp_path (we_write_marker e1) (state_file d)} h h1"
    using check_boot_arm [OF assms(1,2,7,3), of e1] assms by auto
  obtain h2 where b2: "check_boot jp jd e2 d (um_to m) h1 = Some (h2, Inr Proceed)"
    "data_of (hd h2) (state_file d) = Some (marker_dump jd (m\<lparr>um_attempts := 2\<rparr>))"
    "hext {state_file d, tmp_path (we_write_marker e2) (state_file d)} h1 h2"
    using arm [of 1 h1 e2] b1(2) hext_ne [OF b1(3)] assms by (auto simp: in_int32_def)
  obtain h3 where b3: "check_boot jp jd e3 d (um_to m) h2 = Some (h3, Inr Proceed)"
    "data_of (hd h3) (state_file d) = Some (marker_dump jd (m\<lparr>um_attempts := 3\<rparr>))"
    "hext {state_file d, tmp_path (we_write_marker e3) (state_file d)} h2 h3"
    using arm [of 2 h2 e3] b2(2) hext_ne [OF b2(3)] assms by (auto simp: in_int32_def)
  have prev: "data_of (hd h3) (um_prev_binary m) = Some old"
    using keep [OF b1(3) assms(10)] keep [OF b2(3) assms(12)] keep [OF b3(3) assms(14)] assms(8) by simp
  have "marker_ok (m\<lparr>um_attempts := 3\<rparr>)" using marker_ok_attempts [OF assms(2)] by (simp add: in_int32_def)
  from check_boot_rollback [OF assms(1) this b3(2), of m' e4]
  obtain h4 where "check_boot jp jd e4 d (um_to m) h3 = Some (h4, Inr RevertedExit)"
    "data_of (hd h4) (we_install e4) = Some old"
    "data_of (hd h4) (reverted_file d) = Some (reverted_dump jd (rollback_record e4 m' ''crash_loop''))"
    "data_of (hd h4) (state_file d) = Some (marker_dump jd (m'\<lparr>um_phase := RolledBack\<rparr>))"
    using prev hext_ne [OF b3(3)] assms by (auto simp: fexists_data wd_apart_def)
  then show ?thesis using b1(1) b2(1) b3(1) by (simp add: sequential_boots_def)
qed

definition demo_boot :: "int \<Rightarrow> wd_env" where
  "demo_boot n = demo_wd [] (marker_dump ref_dump (demo_marker\<lparr>um_attempts := n\<rparr>))"

definition demo_revert :: wd_env where
  "demo_revert =
     (let m' = demo_marker\<lparr>um_attempts := 4\<rparr>;
          rv = \<lparr>rv_version = ''v1.8.0'', rv_restored = ''v1.7.5'', rv_reason = ''crash_loop'', rv_at = 1762000100\<rparr>
      in demo_wd (reverted_dump ref_dump rv) (marker_dump ref_dump (m'\<lparr>um_phase := RolledBack\<rparr>)))"

theorem crash_loop_reverts_on_disk_witness:
  "\<exists>h'. sequential_boots ref_parse ref_dump ''/etc/t'' ''v1.8.0'' [demo_boot 1, demo_boot 2, demo_boot 3, demo_revert]
       [demo_disk (marker_dump ref_dump demo_marker)] =
     Some (h', [Inr Proceed, Inr Proceed, Inr Proceed, Inr RevertedExit]) \<and>
   data_of (hd h') ''/bin/agent'' = Some ''old''"
proof -
  have m: "um_prev_binary demo_marker = ''/bin/agent.prev''" "um_to demo_marker = ''v1.8.0''"
    "um_from demo_marker = ''v1.7.5''" "um_phase demo_marker = Pending" "um_attempts demo_marker = 0"
    by (simp_all add: demo_marker_def)
  have d: "data_of (demo_disk t) ''/bin/agent.prev'' = Some ''old''"
    "data_of (demo_disk t) ''/etc/t/update.state'' = Some t" for t
    by (simp_all add: demo_disk_def data_of_def)
  have a: "wd_apart (demo_boot n) ''/etc/t'' demo_marker" for n
    unfolding demo_boot_def by (rule demo_wd_apart) (rule m)
  have b: "wd_apart demo_revert ''/etc/t'' demo_marker"
    unfolding demo_revert_def Let_def by (rule demo_wd_apart) (rule m)
  have i: "we_install demo_revert = ''/bin/agent''" by (simp add: demo_revert_def Let_def)
  show ?thesis
    using crash_loop_reverts_on_disk [OF json_text_ref demo_marker_ok m(4,5), where d = "''/etc/t''"
        and h = "[demo_disk (marker_dump ref_dump demo_marker)]" and old = "''old''"
        and ?e1.0 = "demo_boot 1" and ?e2.0 = "demo_boot 2" and ?e3.0 = "demo_boot 3" and ?e4.0 = demo_revert
        and m' = "demo_marker\<lparr>um_attempts := 4\<rparr>"] a b d m i
    by (auto simp: demo_state_file demo_boot_def demo_revert_def rollback_record_def Let_def)
qed

text \<open>
  C31. The revert and its record are not one atomic step: if the power fails right after the
  rename, the backup is back in place but no record of the reverted version exists, and the
  next start, running the old version, clears the marker as if the swap had never happened.
  Nothing then keeps the poll loop from applying the failed version again.
\<close>

theorem rollback_record_window:
  assumes "do_rollback jd e d m reason h = Some (h', Inr True)" and "h \<noteq> []" and "wd_apart e d m"
    and "data_of (hd h) (state_file d) = Some (marker_dump jd m)" and "json_text jp jd" and "marker_ok m"
    and "um_phase m = Pending" and "um_from m \<noteq> um_to m" and "\<forall>p. we_remove e2 p"
  shows "\<exists>t \<in> set h'. data_of t (we_install e) = data_of (hd h) (um_prev_binary m) \<and>
    (\<exists>h''. check_boot jp jd e2 d (um_from m) [t] = Some (h'', Inr Proceed) \<and>
       data_of (hd h'') (state_file d) = None \<and>
       data_of (hd h'') (reverted_file d) = data_of (hd h) (reverted_file d) \<and>
       data_of (hd h'') (we_install e) = data_of (hd h) (um_prev_binary m))"
  using assms(1,2)
proof (cases rule: do_rollback_cases)
  case kept
  then show ?thesis by simp
next
  case (reverted h2 ok1 ok2)
  let ?t = "frename (um_prev_binary m) (we_install e) (hd h)"
  have mem: "?t \<in> set h'" using reverted(6) by (auto simp: hext_def hstep_def)
  have ap: "um_prev_binary m \<noteq> we_install e" "state_file d \<notin> {we_install e, um_prev_binary m}"
    "reverted_file d \<notin> {we_install e, um_prev_binary m}"
    using assms(3) by (auto simp: wd_apart_def record_files_def)
  have st: "data_of ?t (state_file d) = Some (marker_dump jd m)"
    using ap assms(4) by (auto simp: data_of_rename)
  have dec: "bd_action (decide_boot (Some m) (um_from m)) = ClearNoRevert" "bd_marker (decide_boot (Some m) (um_from m)) = m"
    using assms(7,8) by (simp_all add: decide_boot_def)
  let ?h'' = "hremove (we_remove e2) (um_prev_binary m) (hremove (we_remove e2) (state_file d) [?t])"
  have "check_boot jp jd e2 d (um_from m) [?t] = Some (?h'', Inr Proceed)"
    using read_marker [OF assms(5,6) st] reverted(3) by (simp add: check_boot_def Let_def dec)
  moreover have "data_of (hd ?h'') (state_file d) = None"
    "data_of (hd ?h'') (reverted_file d) = data_of (hd h) (reverted_file d)"
    "data_of (hd ?h'') (we_install e) = data_of (hd h) (um_prev_binary m)"
    "data_of ?t (we_install e) = data_of (hd h) (um_prev_binary m)"
    using ap assms(9) by (auto simp: hd_hremove data_of_rename)
  ultimately show ?thesis using mem by blast
qed

definition demo_deadline :: wd_env where
  "demo_deadline =
     demo_wd (reverted_dump ref_dump (rollback_record (demo_wd [] []) demo_marker ''deadline''))
       (marker_dump ref_dump (demo_marker\<lparr>um_phase := RolledBack\<rparr>))"

theorem rollback_record_window_witness:
  "\<exists>h'. do_rollback ref_dump demo_deadline ''/etc/t'' demo_marker ''deadline''
       [demo_disk (marker_dump ref_dump demo_marker)] = Some (h', Inr True) \<and>
     (\<exists>t \<in> set h'. \<exists>h''. check_boot ref_parse ref_dump (demo_wd [] []) ''/etc/t'' ''v1.7.5'' [t] = Some (h'', Inr Proceed) \<and>
       data_of (hd h'') ''/etc/t/update.state'' = None \<and> data_of (hd h'') ''/etc/t/update.reverted'' = None)"
proof -
  let ?h = "[demo_disk (marker_dump ref_dump demo_marker)]"
  have m: "um_prev_binary demo_marker = ''/bin/agent.prev''" "um_from demo_marker = ''v1.7.5''"
    "um_phase demo_marker = Pending" "um_from demo_marker \<noteq> um_to demo_marker"
    by (simp_all add: demo_marker_def)
  have d: "data_of (demo_disk t) ''/bin/agent.prev'' = Some ''old''"
    "data_of (demo_disk t) ''/etc/t/update.state'' = Some t" "data_of (demo_disk t) ''/etc/t/update.reverted'' = None" for t
    by (simp_all add: demo_disk_def data_of_def)
  have a: "wd_apart demo_deadline ''/etc/t'' demo_marker"
    unfolding demo_deadline_def by (rule demo_wd_apart) (rule m)
  obtain h' where r: "do_rollback ref_dump demo_deadline ''/etc/t'' demo_marker ''deadline'' ?h = Some (h', Inr True)"
    using do_rollback_works [of demo_marker demo_deadline ?h ref_dump "''deadline''" "''/etc/t''"] a m d
    by (auto simp: fexists_data demo_deadline_def rollback_record_def)
  then show ?thesis
    using rollback_record_window [OF r _ a _ json_text_ref demo_marker_ok m(3,4), of "demo_wd [] []"] m d
    by (auto simp: demo_state_file demo_reverted_file demo_wd_def)
qed

end
