(* ===== verification/Paths.thy ===== *)
theory Paths
  imports Atomic_File
begin

text \<open>
  Where the agent's files live: \<open>src/thinr/installer/installation_config.hpp\<close>,
  \<open>installation_config.cpp\<close>, and the path logic of \<open>src/thinr/config/config_manager.cpp\<close>. What the process knows
  of its user (effective and real id, \<open>HOME\<close>, the password entry, \<open>PATH\<close>) is a record.
  Directories are not part of the file model: creating one is an outcome where the code
  looks at it, and has no effect on the files otherwise.
\<close>

record session =
  se_euid_root :: bool
  se_uid_root :: bool
  se_home :: "string option"
  se_pw_dir :: "string option"
  se_path :: "string option"

definition SERVICE_NAME :: string where "SERVICE_NAME = ''thinr-agent''"
definition SERVICE_DESCRIPTION :: string where "SERVICE_DESCRIPTION = ''ThinRemote Agent''"
definition BINARY_NAME :: string where "BINARY_NAME = ''thinr-agent''"
definition APP_DOMAIN :: string where "APP_DOMAIN = ''io.thinremote.agent''"
definition SYSTEM_CONFIG_PATH :: string where "SYSTEM_CONFIG_PATH = ''/etc/thinr-agent/config.json''"
definition USER_CONFIG_PATH :: string where "USER_CONFIG_PATH = ''~/.config/thinr-agent/config.json''"

section \<open>The configuration manager's paths\<close>

text \<open>A null home directory is \<open>None\<close>; without one the expansion throws.\<close>

definition expand_path :: "session \<Rightarrow> string \<Rightarrow> string res" where
  "expand_path se path =
     (if path = [] \<or> hd path \<noteq> CHR ''~'' then Inr path
      else case (case se_home se of Some h \<Rightarrow> Some h | None \<Rightarrow> se_pw_dir se) of
             None \<Rightarrow> Inl (RuntimeError ''Cannot determine home directory'')
           | Some home \<Rightarrow> Inr (home @ tl path))"

definition default_config_path :: "session \<Rightarrow> string res" where
  "default_config_path se =
     (if se_euid_root se then Inr SYSTEM_CONFIG_PATH else expand_path se USER_CONFIG_PATH)"

text \<open>The two constructors: no path, or an explicit one.\<close>

definition config_path_of :: "session \<Rightarrow> string \<Rightarrow> string res" where
  "config_path_of se explicit = (if explicit = [] then default_config_path se else expand_path se explicit)"

section \<open>The installer's paths\<close>

definition get_home_directory :: "session \<Rightarrow> string" where
  "get_home_directory se =
     (case se_home se of
        Some h \<Rightarrow> h
      | None \<Rightarrow> (case se_pw_dir se of Some d \<Rightarrow> d | None \<Rightarrow> ''/tmp''))"

definition inst_expand_path :: "session \<Rightarrow> string \<Rightarrow> string" where
  "inst_expand_path se path =
     (if path = [] \<or> hd path \<noteq> CHR ''~'' then path else get_home_directory se @ tl path)"

definition get_service_identifier :: string where "get_service_identifier = SERVICE_NAME"
definition get_launchd_identifier :: string where "get_launchd_identifier = APP_DOMAIN"

definition get_binary_install_path :: "session \<Rightarrow> bool \<Rightarrow> string" where
  "get_binary_install_path se system_wide =
     (if system_wide then
        (case se_path se of
           Some path \<Rightarrow>
             if contains_sub ''/usr/local/bin'' path then ''/usr/local/bin/'' @ BINARY_NAME
             else ''/usr/bin/'' @ BINARY_NAME
         | None \<Rightarrow> ''/usr/bin/'' @ BINARY_NAME)
      else get_home_directory se @ ''/.local/bin'' @ ''/'' @ BINARY_NAME)"

definition get_config_path :: "session \<Rightarrow> string" where
  "get_config_path se = (if se_uid_root se then SYSTEM_CONFIG_PATH else inst_expand_path se USER_CONFIG_PATH)"

definition get_config_path_for :: "session \<Rightarrow> bool \<Rightarrow> string" where
  "get_config_path_for se system_wide =
     (if system_wide then SYSTEM_CONFIG_PATH else inst_expand_path se USER_CONFIG_PATH)"

definition get_base_directory :: "session \<Rightarrow> string" where
  "get_base_directory se = parent_path (get_config_path se)"

definition get_systemd_service_path :: "session \<Rightarrow> bool \<Rightarrow> string" where
  "get_systemd_service_path se system_wide =
     (if system_wide then ''/etc/systemd/system/'' @ SERVICE_NAME @ ''.service''
      else get_home_directory se @ ''/.config/systemd/user'' @ ''/'' @ SERVICE_NAME @ ''.service'')"

definition get_launchd_plist_path :: "session \<Rightarrow> bool \<Rightarrow> string" where
  "get_launchd_plist_path se system_wide =
     (if system_wide then ''/Library/LaunchDaemons/'' @ get_launchd_identifier @ ''.plist''
      else get_home_directory se @ ''/Library/LaunchAgents'' @ ''/'' @ get_launchd_identifier @ ''.plist'')"

definition get_log_directory :: "session \<Rightarrow> bool \<Rightarrow> string" where
  "get_log_directory se system_wide =
     (if system_wide then ''/var/log/'' @ SERVICE_NAME
      else get_home_directory se @ ''/.local/share/'' @ SERVICE_NAME @ ''/logs'')"

section \<open>Properties\<close>

text \<open>
  The installer and the daemon look for the configuration in the same place whenever
  the real and effective users agree and a home directory is known; without one the daemon
  refuses to start where the installer falls back to \<open>/tmp\<close>.
\<close>

theorem config_paths_agree:
  assumes "se_euid_root se = se_uid_root se"
  shows "default_config_path se =
    (if se_uid_root se \<or> se_home se \<noteq> None \<or> se_pw_dir se \<noteq> None then Inr (get_config_path se)
     else Inl (RuntimeError ''Cannot determine home directory''))"
  using assms
  by (auto simp: default_config_path_def get_config_path_def expand_path_def inst_expand_path_def
      get_home_directory_def USER_CONFIG_PATH_def split: option.splits)

theorem config_paths_agree_witness:
  "default_config_path \<lparr>se_euid_root = False, se_uid_root = False, se_home = Some ''/home/u'',
      se_pw_dir = None, se_path = None\<rparr> = Inr ''/home/u/.config/thinr-agent/config.json''"
  by (subst config_paths_agree) (simp_all add: get_config_path_def inst_expand_path_def
      get_home_directory_def USER_CONFIG_PATH_def)

end
