(* ===== verification/Update_Settings.thy ===== *)
theory Update_Settings
  imports Json_Values
begin

text \<open>
  The \<open>update\<close> section of the local configuration
  (\<open>src/thinr/update/update_settings.hpp\<close>, \<open>update_settings.cpp\<close>): the policy and where it
  came from, the channel, the two bounded numbers, the tolerant parse of the section and
  the combination of the local policy with a remote override.
\<close>

section \<open>Data\<close>

datatype update_policy = Automatic | Managed

datatype policy_source = Defaulted | LocalExplicit | Remote

definition CHECK_INTERVAL_MIN_H :: int where "CHECK_INTERVAL_MIN_H = 1"
definition CHECK_INTERVAL_MAX_H :: int where "CHECK_INTERVAL_MAX_H = 168"
definition CHECK_INTERVAL_DEFAULT_H :: int where "CHECK_INTERVAL_DEFAULT_H = 6"
definition ROLLBACK_DEADLINE_MIN_S :: int where "ROLLBACK_DEADLINE_MIN_S = 30"
definition ROLLBACK_DEADLINE_MAX_S :: int where "ROLLBACK_DEADLINE_MAX_S = 600"
definition ROLLBACK_DEADLINE_DEFAULT_S :: int where "ROLLBACK_DEADLINE_DEFAULT_S = 90"

lemmas settings_consts =
  CHECK_INTERVAL_MIN_H_def CHECK_INTERVAL_MAX_H_def CHECK_INTERVAL_DEFAULT_H_def
  ROLLBACK_DEADLINE_MIN_S_def ROLLBACK_DEADLINE_MAX_S_def ROLLBACK_DEADLINE_DEFAULT_S_def

record update_settings =
  us_policy :: update_policy
  us_source :: policy_source
  us_channel :: string
  us_check_interval_h :: int
  us_rollback_deadline_s :: int

definition default_settings :: update_settings where
  "default_settings = \<lparr>us_policy = Automatic, us_source = Defaulted, us_channel = ''latest'',
     us_check_interval_h = CHECK_INTERVAL_DEFAULT_H,
     us_rollback_deadline_s = ROLLBACK_DEADLINE_DEFAULT_S\<rparr>"

section \<open>Operations\<close>

fun policy_to_string :: "update_policy \<Rightarrow> string" where
  "policy_to_string p = (if p = Managed then ''managed'' else ''auto'')"

fun source_to_string :: "policy_source \<Rightarrow> string" where
  "source_to_string LocalExplicit = ''local_explicit''"
| "source_to_string Remote = ''remote''"
| "source_to_string Defaulted = ''default''"

definition policy_from_string :: "string \<Rightarrow> update_policy option" where
  "policy_from_string text =
     (if text = ''auto'' then Some Automatic
      else if text = ''managed'' then Some Managed
      else None)"

definition source_from_string :: "string \<Rightarrow> policy_source" where
  "source_from_string text =
     (if text = ''local_explicit'' then LocalExplicit
      else if text = ''remote'' then Remote
      else Defaulted)"

definition channel_char :: "char \<Rightarrow> bool" where
  "channel_char c \<longleftrightarrow> is_upper c \<or> is_lower c \<or> is_digit c \<or>
     c = CHR ''.'' \<or> c = CHR ''_'' \<or> c = CHR ''-''"

definition valid_channel :: "string \<Rightarrow> bool" where
  "valid_channel channel =
     (if channel = [] then False
      else if contains_sub ''..'' channel then False
      else list_all channel_char channel)"

text \<open>The narrowing \<open>get<int>\<close> comes before the clamp.\<close>

definition clamp_int :: "json \<Rightarrow> string \<Rightarrow> int \<Rightarrow> int \<Rightarrow> int \<Rightarrow> int" where
  "clamp_int j key def lo hi =
     (case jfind j key of
        None \<Rightarrow> def
      | Some v \<Rightarrow>
          if \<not> is_number_integer v then def
          else (case get_int v of Inl _ \<Rightarrow> def | Inr n \<Rightarrow> clamp n lo hi))"

definition settings_to_json :: "update_settings \<Rightarrow> json" where
  "settings_to_json s = jobj
     [(''policy'', JStr (policy_to_string (us_policy s))),
      (''policy_source'', JStr (source_to_string (us_source s))),
      (''channel'', JStr (us_channel s)),
      (''check_interval_h'', JInt (us_check_interval_h s)),
      (''rollback_deadline_s'', JInt (us_rollback_deadline_s s))]"

definition parse_policy :: "json \<Rightarrow> update_policy \<Rightarrow> update_policy" where
  "parse_policy j d =
     (case jfind j ''policy'' of
        Some (JStr t) \<Rightarrow> (case policy_from_string t of Some p \<Rightarrow> p | None \<Rightarrow> d)
      | _ \<Rightarrow> d)"

definition parse_source :: "json \<Rightarrow> policy_source \<Rightarrow> policy_source" where
  "parse_source j d =
     (case jfind j ''policy_source'' of
        Some (JStr t) \<Rightarrow> source_from_string t
      | _ \<Rightarrow> d)"

definition parse_channel :: "json \<Rightarrow> string \<Rightarrow> string" where
  "parse_channel j d =
     (case jfind j ''channel'' of
        Some (JStr ch) \<Rightarrow> (if valid_channel ch then ch else d)
      | _ \<Rightarrow> d)"

definition settings_from_json :: "json \<Rightarrow> update_settings" where
  "settings_from_json j =
     (if \<not> is_object j then default_settings
      else
        \<lparr>us_policy = parse_policy j (us_policy default_settings),
         us_source = parse_source j (us_source default_settings),
         us_channel = parse_channel j (us_channel default_settings),
         us_check_interval_h = clamp_int j ''check_interval_h'' CHECK_INTERVAL_DEFAULT_H
           CHECK_INTERVAL_MIN_H CHECK_INTERVAL_MAX_H,
         us_rollback_deadline_s = clamp_int j ''rollback_deadline_s'' ROLLBACK_DEADLINE_DEFAULT_S
           ROLLBACK_DEADLINE_MIN_S ROLLBACK_DEADLINE_MAX_S\<rparr>)"

definition effective_policy :: "update_settings \<Rightarrow> update_policy option \<Rightarrow> update_policy" where
  "effective_policy l remote =
     (case remote of
        None \<Rightarrow> us_policy l
      | Some Managed \<Rightarrow> Managed
      | Some Automatic \<Rightarrow>
          if us_policy l = Managed \<and> us_source l = LocalExplicit then Managed else Automatic)"

section \<open>Lemmas\<close>

lemma policy_strings [simp]: "policy_from_string (policy_to_string p) = Some p"
  by (cases p) (simp_all add: policy_from_string_def)

lemma source_strings [simp]: "source_from_string (source_to_string s) = s"
  by (cases s) (simp_all add: source_from_string_def)

lemma valid_channel_latest [simp]: "valid_channel ''latest''"
  by code_simp

lemma valid_channel_no_slash: "valid_channel ch \<Longrightarrow> CHR ''/'' \<notin> set ch"
proof
  assume "valid_channel ch" and "CHR ''/'' \<in> set ch"
  then have "channel_char (CHR ''/'')"
    by (auto simp: valid_channel_def list_all_iff split: if_splits)
  then show False by (simp add: channel_char_def is_upper_def is_lower_def is_digit_def code_of_def)
qed

lemma valid_channel_ascii: "valid_channel ch \<Longrightarrow> ascii ch"
  by (force simp: valid_channel_def ascii_def channel_char_def is_upper_def is_lower_def is_digit_def
      list_all_iff code_of_def split: if_splits)

definition settings_ok :: "update_settings \<Rightarrow> bool" where
  "settings_ok s \<longleftrightarrow> valid_channel (us_channel s) \<and>
     CHECK_INTERVAL_MIN_H \<le> us_check_interval_h s \<and> us_check_interval_h s \<le> CHECK_INTERVAL_MAX_H \<and>
     ROLLBACK_DEADLINE_MIN_S \<le> us_rollback_deadline_s s \<and>
     us_rollback_deadline_s s \<le> ROLLBACK_DEADLINE_MAX_S"

lemma clamp_int_bounds:
  "lo \<le> def \<Longrightarrow> def \<le> hi \<Longrightarrow> lo \<le> clamp_int j key def lo hi \<and> clamp_int j key def lo hi \<le> hi"
  using clamp_bounds [of lo hi] by (auto simp: clamp_int_def split: option.splits sum.splits)

lemma parse_channel_valid: "valid_channel d \<Longrightarrow> valid_channel (parse_channel j d)"
  by (simp add: parse_channel_def split: option.splits json.splits)

lemma default_settings_ok [simp]: "settings_ok default_settings"
  by (simp add: settings_ok_def default_settings_def settings_consts)

lemma settings_from_json_ok: "settings_ok (settings_from_json j)"
proof (cases "is_object j")
  case True
  then show ?thesis
    by (simp add: settings_from_json_def settings_ok_def clamp_int_bounds parse_channel_valid
        settings_consts default_settings_def)
next
  case False
  then show ?thesis by (simp add: settings_from_json_def)
qed

lemma clamp_int_read_back:
  assumes "jfind j key = Some (JInt n)" and "lo \<le> n" and "n \<le> hi" and "in_int32 n"
  shows "clamp_int (jnorm j) key def lo hi = n"
  using assms by (simp add: clamp_int_def clamp_id)

lemma settings_to_json_find [simp]:
  "jfind (settings_to_json s) ''policy'' = Some (JStr (policy_to_string (us_policy s)))"
  "jfind (settings_to_json s) ''policy_source'' = Some (JStr (source_to_string (us_source s)))"
  "jfind (settings_to_json s) ''channel'' = Some (JStr (us_channel s))"
  "jfind (settings_to_json s) ''check_interval_h'' = Some (JInt (us_check_interval_h s))"
  "jfind (settings_to_json s) ''rollback_deadline_s'' = Some (JInt (us_rollback_deadline_s s))"
  "is_object (settings_to_json s)"
  by (simp_all add: settings_to_json_def)

lemma settings_read_back:
  assumes "settings_ok s"
  shows "settings_from_json (jnorm (settings_to_json s)) = s"
proof -
  have "in_int32 (us_check_interval_h s)" "in_int32 (us_rollback_deadline_s s)"
    using assms by (simp_all add: settings_ok_def in_int32_def settings_consts)
  then show ?thesis
    using assms
    by (simp add: settings_from_json_def settings_ok_def parse_policy_def parse_source_def
        parse_channel_def clamp_int_read_back del: policy_to_string.simps)
qed

lemma settings_plain:
  assumes "settings_ok s"
  shows "jplain (settings_to_json s)"
proof -
  have "ascii (policy_to_string (us_policy s))" "ascii (source_to_string (us_source s))"
    by (cases "us_policy s"; simp add: ascii_def code_of_def)
       (cases "us_source s"; simp add: ascii_def code_of_def)
  with assms show ?thesis
    unfolding settings_to_json_def
    by (intro jplain_jobj)
       (simp add: settings_ok_def settings_consts in_int64_def valid_channel_ascii,
        simp add: ascii_def code_of_def)
qed

section \<open>Properties\<close>

text \<open>
  C24. Reading the \<open>update\<close> section is total and tolerant: whatever JSON value is stored
  there, the result has a safe channel name (non-empty, no \<open>..\<close>, no slash, so it cannot
  escape the CDN path it is pasted into) and both numbers inside their bounds.
\<close>

theorem settings_from_json_bounded:
  "let s = settings_from_json j in
     us_channel s \<noteq> [] \<and> CHR ''/'' \<notin> set (us_channel s) \<and> \<not> contains_sub ''..'' (us_channel s) \<and>
     us_check_interval_h s \<in> {1..168} \<and> us_rollback_deadline_s s \<in> {30..600}"
proof -
  have "settings_ok (settings_from_json j)" by (rule settings_from_json_ok)
  then show ?thesis
    using valid_channel_no_slash [of "us_channel (settings_from_json j)"]
    by (auto simp: Let_def settings_ok_def settings_consts valid_channel_def split: if_splits)
qed

text \<open>
  What the cloud can do to the update policy: it can always make a device more
  conservative, and it can never turn an explicit local opt-out back to automatic. The
  effective policy is \<open>Managed\<close> exactly when the override says so, or the local policy
  says so and there is no override or the local choice was explicit.
\<close>

theorem effective_policy_managed_iff:
  "effective_policy l remote = Managed \<longleftrightarrow>
     remote = Some Managed \<or>
     (us_policy l = Managed \<and> (remote = None \<or> us_source l = LocalExplicit))"
  by (cases "us_policy l")
     (auto simp: effective_policy_def split: option.splits update_policy.splits)

text \<open>
  The clamp sees the value after it was narrowed to 32 bits, so a number above \<open>2 ^ 32\<close>
  is not clamped to the upper bound but read modulo \<open>2 ^ 32\<close>.
\<close>

lemma clamp_after_narrowing:
  "us_check_interval_h (settings_from_json (jobj [(''check_interval_h'', JUint 4294967302)])) = 6"
  by (simp add: settings_from_json_def clamp_int_def as_int32_def clamp_def settings_consts)

end
