(* ===== verification/Config.thy ===== *)
theory Config
  imports Json_Values Paths Update_Settings
begin

text \<open>
  The configuration manager (\<open>src/thinr/config/config_manager.hpp\<close>,
  \<open>config_manager.cpp\<close>): device credentials with the obfuscated token, and the
  read-modify-write of the one JSON file that also holds the \<open>update\<close> section.

  \<open>jp\<close> is \<open>json::parse\<close> of a whole file, \<open>jps\<close> the stream extraction of \<open>load\<close>, \<open>jd\<close> is
  \<open>dump(2)\<close>; all three belong to the JSON library.
\<close>

unbundle bit_operations_syntax

section \<open>Credentials\<close>

record credentials =
  cr_host :: string
  cr_id :: string
  cr_name :: string
  cr_user :: string
  cr_token :: string
  cr_version :: string
  cr_verify_ssl :: bool

definition no_credentials :: credentials where
  "no_credentials = \<lparr>cr_host = [], cr_id = [], cr_name = [], cr_user = [], cr_token = [],
     cr_version = [], cr_verify_ssl = True\<rparr>"

definition cr_is_valid :: "credentials \<Rightarrow> bool" where
  "cr_is_valid c \<longleftrightarrow> cr_host c \<noteq> [] \<and> cr_id c \<noteq> [] \<and> cr_user c \<noteq> [] \<and> cr_token c \<noteq> []"

section \<open>The token\<close>

definition xor_key :: "char \<Rightarrow> nat" where
  "xor_key c = code_of c XOR 90"

definition encrypt_token :: "string \<Rightarrow> string" where
  "encrypt_token token = concat (map (\<lambda>c. hex_byte (xor_key c)) token)"

text \<open>
  \<open>std::stoi(s, nullptr, 16)\<close>: white space, a sign and a \<open>0x\<close> prefix are accepted, what
  follows the last digit is ignored, and no digit at all throws. Two characters cannot
  overflow an \<open>int\<close>.
\<close>

fun hex_number :: "nat \<Rightarrow> string \<Rightarrow> nat" where
  "hex_number acc [] = acc"
| "hex_number acc (c # cs) = (case hex_value c of None \<Rightarrow> acc | Some d \<Rightarrow> hex_number (16 * acc + d) cs)"

definition strip_0x :: "string \<Rightarrow> string" where
  "strip_0x s =
     (case s of
        z # x # d # rest \<Rightarrow>
          if z = CHR ''0'' \<and> (x = CHR ''x'' \<or> x = CHR ''X'') \<and> hex_value d \<noteq> None then d # rest else s
      | _ \<Rightarrow> s)"

definition stoi16 :: "string \<Rightarrow> int res" where
  "stoi16 s =
     (let s = dropWhile is_space s;
          neg = (s \<noteq> [] \<and> hd s = CHR ''-'');
          s = (if s \<noteq> [] \<and> (hd s = CHR ''-'' \<or> hd s = CHR ''+'') then tl s else s);
          s = strip_0x s
      in if s = [] \<or> hex_value (hd s) = None then Inl (InvalidArgument ''stoi'')
         else Inr (if neg then - int (hex_number 0 s) else int (hex_number 0 s)))"

definition byte_char :: "int \<Rightarrow> char" where
  "byte_char n = char_of (nat (n mod 256))"

fun unhex :: "string \<Rightarrow> string res" where
  "unhex [] = Inr []"
| "unhex [c] = rbind (stoi16 [c]) (\<lambda>n. Inr [byte_char n])"
| "unhex (c # d # rest) = rbind (stoi16 [c, d]) (\<lambda>n. rbind (unhex rest) (\<lambda>bs. Inr (byte_char n # bs)))"

definition decrypt_token :: "string \<Rightarrow> string res" where
  "decrypt_token encrypted = rbind (unhex encrypted) (\<lambda>binary. Inr (map (\<lambda>c. char_of (xor_key c)) binary))"

section \<open>The file\<close>

text \<open>
  The outcomes of one operation: whether the path can be examined and opened, whether its
  directory exists or can be created, and the calls of the write.
\<close>

record cfg_env =
  ce_stat_ok :: bool
  ce_open_ok :: bool
  ce_dir_exists :: bool
  ce_mkdir_ok :: bool
  ce_mkdir_what :: string
  ce_write :: wa_env
  ce_remove_ok :: bool

definition cfg_exists :: "cfg_env \<Rightarrow> fs \<Rightarrow> string \<Rightarrow> bool res" where
  "cfg_exists e s path = (if ce_stat_ok e then Inr (fexists s path) else Inl (FilesystemError ''exists''))"

definition ensure_config_directory :: "cfg_env \<Rightarrow> string \<Rightarrow> unit res" where
  "ensure_config_directory e path =
     (if ce_dir_exists e then Inr ()
      else if ce_mkdir_ok e then Inr ()
      else Inl (RuntimeError (''Failed to create config directory '' @ [CHR 0x27] @ parent_path path @
                  [CHR 0x27] @ '': '' @ ce_mkdir_what e)))"

definition read_raw :: "(string \<Rightarrow> json option) \<Rightarrow> cfg_env \<Rightarrow> fs \<Rightarrow> string \<Rightarrow> json res" where
  "read_raw jp e s path =
     rbind (cfg_exists e s path) (\<lambda>ex.
       if \<not> ex then Inr (JObj [])
       else if \<not> ce_open_ok e then Inl (RuntimeError (''Cannot open config file for reading: '' @ path))
       else case jp (the (data_of s path)) of
              Some (JObj m) \<Rightarrow> Inr (JObj m)
            | _ \<Rightarrow> Inl (RuntimeError (''Corrupt config file: '' @ path)))"

definition write_raw ::
    "(json \<Rightarrow> string) \<Rightarrow> cfg_env \<Rightarrow> string \<Rightarrow> json \<Rightarrow> history \<Rightarrow> (history \<times> unit res) option" where
  "write_raw jd e path config h =
     (case ensure_config_directory e path of
        Inl x \<Rightarrow> Some (h, Inl x)
      | Inr _ \<Rightarrow>
          (case hwrite (ce_write e) path (jd config) 384 h of
             None \<Rightarrow> None
           | Some (h', ok) \<Rightarrow>
               Some (h', if ok then Inr () else Inl (RuntimeError (''Failed to write config file: '' @ path)))))"

definition device_json :: "credentials \<Rightarrow> json" where
  "device_json c = jobj
     [(''id'', JStr (cr_id c)), (''name'', JStr (cr_name c)), (''user'', JStr (cr_user c)),
      (''token'', JStr (encrypt_token (cr_token c)))]"

definition stored_version :: "credentials \<Rightarrow> string" where
  "stored_version c = (if cr_version c = [] then ''1.0.0'' else cr_version c)"

text \<open>The four assignments of \<open>save\<close> into the object that was read.\<close>

definition with_credentials :: "credentials \<Rightarrow> json \<Rightarrow> json res" where
  "with_credentials c config =
     rbind (jset config ''host'' (JStr (cr_host c))) (\<lambda>config.
     rbind (jset config ''device'' (device_json c)) (\<lambda>config.
     rbind (jset config ''version'' (JStr (stored_version c))) (\<lambda>config.
     jset config ''verify_ssl'' (JBool (cr_verify_ssl c)))))"

definition save ::
    "(string \<Rightarrow> json option) \<Rightarrow> (json \<Rightarrow> string) \<Rightarrow> cfg_env \<Rightarrow> string \<Rightarrow> credentials \<Rightarrow> history
      \<Rightarrow> (history \<times> unit res) option" where
  "save jp jd e path c h =
     (if \<not> cr_is_valid c then Some (h, Inl (InvalidArgument ''Invalid device credentials''))
      else case ensure_config_directory e path of
        Inl x \<Rightarrow> Some (h, Inl x)
      | Inr _ \<Rightarrow>
          let config = (case read_raw jp e (hd h) path of Inr j \<Rightarrow> j | Inl _ \<Rightarrow> JObj []) in
          (case with_credentials c config of
             Inl x \<Rightarrow> Some (h, Inl x)
           | Inr config \<Rightarrow> write_raw jd e path config h))"

definition read_update_section :: "(string \<Rightarrow> json option) \<Rightarrow> cfg_env \<Rightarrow> fs \<Rightarrow> string \<Rightarrow> json" where
  "read_update_section jp e s path =
     (case read_raw jp e s path of
        Inl _ \<Rightarrow> JObj []
      | Inr config \<Rightarrow> (case jfind config ''update'' of Some u \<Rightarrow> u | None \<Rightarrow> JObj []))"

definition write_update_section ::
    "(string \<Rightarrow> json option) \<Rightarrow> (json \<Rightarrow> string) \<Rightarrow> cfg_env \<Rightarrow> string \<Rightarrow> json \<Rightarrow> history
      \<Rightarrow> (history \<times> unit res) option" where
  "write_update_section jp jd e path update_obj h =
     (case cfg_exists e (hd h) path of
        Inl x \<Rightarrow> Some (h, Inl x)
      | Inr False \<Rightarrow> Some (h, Inl (RuntimeError (''Config file does not exist: '' @ path)))
      | Inr True \<Rightarrow>
          (case rbind (read_raw jp e (hd h) path) (\<lambda>config. jset config ''update'' update_obj) of
             Inl x \<Rightarrow> Some (h, Inl x)
           | Inr config \<Rightarrow> write_raw jd e path config h))"

text \<open>\<open>decrypt_and_load\<close> after the stream extraction: the token member is decrypted in place.\<close>

definition decrypt_config :: "json \<Rightarrow> json res" where
  "decrypt_config config =
     (case jfind config ''device'' of
        None \<Rightarrow> Inr config
      | Some dev \<Rightarrow>
          (case jfind dev ''token'' of
             None \<Rightarrow> Inr config
           | Some t \<Rightarrow>
               rbind (get_string t) (\<lambda>enc.
               rbind (decrypt_token enc) (\<lambda>tok.
               rbind (jset dev ''token'' (JStr tok)) (\<lambda>dev. jset config ''device'' dev)))))"

definition decrypt_and_load :: "(string \<Rightarrow> json option) \<Rightarrow> cfg_env \<Rightarrow> fs \<Rightarrow> string \<Rightarrow> json res" where
  "decrypt_and_load jps e s path =
     (if \<not> ce_open_ok e then Inl (RuntimeError (''Cannot open config file for reading: '' @ path))
      else case data_of s path of
             None \<Rightarrow> Inl (RuntimeError (''Cannot open config file for reading: '' @ path))
           | Some text \<Rightarrow>
               (case jps text of None \<Rightarrow> Inl JsonParseError | Some config \<Rightarrow> decrypt_config config))"

definition credentials_of_json :: "json \<Rightarrow> credentials res" where
  "credentials_of_json config =
     rbind (jvalue get_string config ''host'' []) (\<lambda>host.
     rbind (jvalue get_string config ''version'' ''1.0.0'') (\<lambda>version.
     rbind (jvalue get_bool config ''verify_ssl'' True) (\<lambda>verify.
     case jfind config ''device'' of
       None \<Rightarrow> Inr (no_credentials\<lparr>cr_host := host, cr_version := version, cr_verify_ssl := verify\<rparr>)
     | Some device \<Rightarrow>
         rbind (jvalue get_string device ''id'' []) (\<lambda>i.
         rbind (jvalue get_string device ''name'' []) (\<lambda>n.
         rbind (jvalue get_string device ''user'' []) (\<lambda>u.
         rbind (jvalue get_string device ''token'' []) (\<lambda>t.
           Inr \<lparr>cr_host = host, cr_id = i, cr_name = n, cr_user = u, cr_token = t,
             cr_version = version, cr_verify_ssl = verify\<rparr>)))))))"

definition load :: "(string \<Rightarrow> json option) \<Rightarrow> cfg_env \<Rightarrow> fs \<Rightarrow> string \<Rightarrow> credentials res" where
  "load jps e s path =
     rbind (cfg_exists e s path) (\<lambda>ex.
       if \<not> ex then Inl (RuntimeError (''Configuration file does not exist: '' @ path))
       else rbind (decrypt_and_load jps e s path) (\<lambda>config.
            rbind (credentials_of_json config) (\<lambda>c.
              if \<not> cr_is_valid c then Inl (RuntimeError (''Invalid configuration data in: '' @ path))
              else Inr c)))"

definition remove_config :: "cfg_env \<Rightarrow> string \<Rightarrow> history \<Rightarrow> history \<times> unit res" where
  "remove_config e path h =
     (case cfg_exists e (hd h) path of
        Inl x \<Rightarrow> (h, Inl x)
      | Inr False \<Rightarrow> (h, Inr ())
      | Inr True \<Rightarrow> (if ce_remove_ok e then (hstep (fremove path) h, Inr ())
                     else (h, Inl (FilesystemError ''remove''))))"

text \<open>
  \<open>encrypt_and_save\<close>, which nothing calls: the token member is encrypted in place, and the file
  is truncated and written over; whether all bytes arrive is not asked.
\<close>

definition encrypt_config :: "json \<Rightarrow> json res" where
  "encrypt_config config =
     (case jfind config ''device'' of
        None \<Rightarrow> Inr config
      | Some dev \<Rightarrow>
          (case jfind dev ''token'' of
             None \<Rightarrow> Inr config
           | Some t \<Rightarrow>
               rbind (get_string t) (\<lambda>tok.
               rbind (jset dev ''token'' (JStr (encrypt_token tok))) (\<lambda>dev. jset config ''device'' dev))))"

definition encrypt_and_save :: "(json \<Rightarrow> string) \<Rightarrow> cfg_env \<Rightarrow> nat \<Rightarrow> string \<Rightarrow> json \<Rightarrow> history \<Rightarrow> history \<times> unit res" where
  "encrypt_and_save jd e arrived path config h =
     (case encrypt_config config of
        Inl x \<Rightarrow> (h, Inl x)
      | Inr config \<Rightarrow>
          if \<not> ce_open_ok e then (h, Inl (RuntimeError (''Cannot open config file for writing: '' @ path)))
          else (hstep (put_bytes path (take arrived (jd config @ [CHR 0x0A]))) (hstep (put_bytes path []) h), Inr ()))"

section \<open>Lemmas: the token\<close>

lemma hex_digit_plain:
  assumes "n < 16"
  shows "\<not> is_space (hex_digit n)" "hex_digit n \<noteq> CHR ''-''" "hex_digit n \<noteq> CHR ''+''"
    "hex_digit n \<noteq> CHR ''x''" "hex_digit n \<noteq> CHR ''X''"
proof -
  have c: "code_of (hex_digit n) = (if n < 10 then 48 + n else 87 + n)" using assms by (rule hex_digit_code)
  show "\<not> is_space (hex_digit n)" using assms by (simp add: is_space_def c)
  have ne: "hex_digit n \<noteq> d" if "code_of d \<noteq> (if n < 10 then 48 + n else 87 + n)" for d
    using that c by metis
  show "hex_digit n \<noteq> CHR ''-''" by (rule ne) (simp add: code_of_def)
  show "hex_digit n \<noteq> CHR ''+''" by (rule ne) (simp add: code_of_def)
  show "hex_digit n \<noteq> CHR ''x''" by (rule ne) (use assms in \<open>simp add: code_of_def\<close>)
  show "hex_digit n \<noteq> CHR ''X''" by (rule ne) (simp add: code_of_def; arith)
qed

lemma stoi16_byte:
  assumes "n < 256"
  shows "stoi16 (hex_byte n) = Inr (int n)"
proof -
  have d: "n div 16 < 16" "n mod 16 < 16" using assms by auto
  have "n div 16 * 16 + n mod 16 = n" by (rule div_mult_mod_eq)
  then have "16 * (n div 16) + n mod 16 = n" by simp
  then show ?thesis
    using hex_digit_plain [OF d(1)] hex_digit_plain [OF d(2)] d
    by (simp add: stoi16_def hex_byte_def strip_0x_def hex_value_digit)
qed

lemma xor_key_less: "xor_key c < 256"
proof -
  have "take_bit 8 (code_of c XOR 90) = take_bit 8 (code_of c) XOR take_bit 8 90"
    by (rule take_bit_xor)
  moreover have "code_of c < 256" by (simp add: code_of_def)
  ultimately have "take_bit 8 (xor_key c) = xor_key c"
    by (simp add: xor_key_def take_bit_nat_eq_self)
  then show ?thesis by (simp add: take_bit_nat_eq_self_iff)
qed

lemma xor_key_back: "char_of (xor_key (byte_char (int (xor_key c)))) = c"
proof -
  have "byte_char (int (xor_key c)) = char_of (xor_key c)"
    using xor_key_less [of c] by (simp add: byte_char_def nat_mod_distrib)
  then have "code_of (byte_char (int (xor_key c))) = xor_key c"
    using xor_key_less [of c] by (simp add: code_of_def)
  then have "xor_key (byte_char (int (xor_key c))) = (code_of c XOR 90) XOR 90"
    by (simp add: xor_key_def)
  also have "\<dots> = code_of c" by (rule bit_eqI) (auto simp: bit_xor_iff)
  finally show ?thesis by (simp add: code_of_def)
qed

lemma unhex_encrypt: "unhex (encrypt_token t) = Inr (map (\<lambda>c. byte_char (int (xor_key c))) t)"
proof (induction t)
  case Nil
  then show ?case by (simp add: encrypt_token_def)
next
  case (Cons c t)
  have "encrypt_token (c # t) = hex_digit (xor_key c div 16) # hex_digit (xor_key c mod 16) # encrypt_token t"
    by (simp add: encrypt_token_def hex_byte_def)
  moreover have "stoi16 [hex_digit (xor_key c div 16), hex_digit (xor_key c mod 16)] = Inr (int (xor_key c))"
    using stoi16_byte [OF xor_key_less [of c]] by (simp add: hex_byte_def)
  ultimately show ?case using Cons by simp
qed

lemma decrypt_encrypt: "decrypt_token (encrypt_token t) = Inr t"
  by (simp add: decrypt_token_def unhex_encrypt comp_def xor_key_back)

lemma decrypt_encrypt_config:
  assumes "encrypt_config j = Inr j'" and "decrypt_config j' = Inr j''"
  shows "\<And>k. k \<noteq> ''device'' \<Longrightarrow> jfind j'' k = jfind j k"
    and "jfind j ''device'' = Some dev \<Longrightarrow> \<exists>dev''. jfind j'' ''device'' = Some dev'' \<and> (\<forall>k. jfind dev'' k = jfind dev k)"
proof -
  have both: "(\<forall>k. k \<noteq> ''device'' \<longrightarrow> jfind j'' k = jfind j k) \<and>
      (\<forall>dev. jfind j ''device'' = Some dev \<longrightarrow>
        (\<exists>dev''. jfind j'' ''device'' = Some dev'' \<and> (\<forall>k. jfind dev'' k = jfind dev k)))"
  proof (cases "jfind j ''device'' = None \<or> jfind (the (jfind j ''device'')) ''token'' = None")
    case True
    then have "j' = j" using assms(1) by (auto simp: encrypt_config_def split: option.splits)
    with True have "j'' = j" using assms(2) by (auto simp: decrypt_config_def split: option.splits)
    then show ?thesis by simp
  next
    case False
    then obtain dev t where d: "jfind j ''device'' = Some dev" "jfind dev ''token'' = Some t" by auto
    then obtain tok dev' where e: "get_string t = Inr tok" "jset dev ''token'' (JStr (encrypt_token tok)) = Inr dev'"
        "jset j ''device'' dev' = Inr j'"
      using assms(1) by (auto simp: encrypt_config_def rbind_def split: sum.splits)
    from e(1) have t: "t = JStr tok" by (cases t) simp_all
    have f: "jfind j' ''device'' = Some dev'" "jfind dev' ''token'' = Some (JStr (encrypt_token tok))"
      using jfind_jset [OF e(3)] jfind_jset [OF e(2)] by simp_all
    then obtain dev'' where g: "jset dev' ''token'' (JStr tok) = Inr dev''" "jset j' ''device'' dev'' = Inr j''"
      using assms(2) by (auto simp: decrypt_config_def decrypt_encrypt rbind_def split: sum.splits)
    show ?thesis
      using d t jfind_jset [OF e(2)] jfind_jset [OF e(3)] jfind_jset [OF g(1)] jfind_jset [OF g(2)] by simp
  qed
  show "\<And>k. k \<noteq> ''device'' \<Longrightarrow> jfind j'' k = jfind j k" using both by blast
  show "jfind j ''device'' = Some dev \<Longrightarrow> \<exists>dev''. jfind j'' ''device'' = Some dev'' \<and> (\<forall>k. jfind dev'' k = jfind dev k)"
    using both by blast
qed

lemma encrypt_ascii: "ascii (encrypt_token t)"
proof -
  have "code_of (hex_digit n) < 128" if "n < 16" for n using hex_digit_code [OF that] that by auto
  then have "\<forall>c \<in> set (hex_byte n). code_of c < 128" if "n < 256" for n
    using that by (auto simp: hex_byte_def)
  then show ?thesis using xor_key_less by (auto simp: ascii_def encrypt_token_def)
qed

section \<open>Lemmas: the file\<close>

lemma jplain_put:
  assumes "jplain (JObj m)" and "ascii k" and "jplain v"
  shows "jplain (JObj (smap_put k v m))"
proof -
  have "\<forall>x \<in> set (smap_put k v m). x \<in> set m \<or> x = (k, v)"
    by (induction k v m rule: smap_put.induct) auto
  then show ?thesis
    using assms by (fastforce simp: list_all_iff smap_put_inv)
qed

definition put_credentials :: "credentials \<Rightarrow> json smap \<Rightarrow> json smap" where
  "put_credentials c m = sm.puts
     [(''host'', JStr (cr_host c)), (''device'', device_json c),
      (''version'', JStr (stored_version c)), (''verify_ssl'', JBool (cr_verify_ssl c))] m"

lemma with_credentials_obj: "with_credentials c (JObj m) = Inr (JObj (put_credentials c m))"
  by (simp add: with_credentials_def put_credentials_def sm.puts_def)

lemma get_put_credentials:
  "smap_get (put_credentials c m) k =
     (if k = ''verify_ssl'' then Some (JBool (cr_verify_ssl c))
      else if k = ''version'' then Some (JStr (stored_version c))
      else if k = ''device'' then Some (device_json c)
      else if k = ''host'' then Some (JStr (cr_host c))
      else smap_get m k)"
  unfolding put_credentials_def sm.get_puts by auto

definition cr_ascii :: "credentials \<Rightarrow> bool" where
  "cr_ascii c \<longleftrightarrow> ascii (cr_host c) \<and> ascii (cr_id c) \<and> ascii (cr_name c) \<and> ascii (cr_user c) \<and> ascii (cr_version c)"

lemma ascii_literals [simp]:
  "ascii ''host''" "ascii ''device''" "ascii ''version''" "ascii ''verify_ssl''" "ascii ''1.0.0''"
  "ascii ''id''" "ascii ''name''" "ascii ''user''" "ascii ''token''" "ascii ''update''"
  by (simp_all add: ascii_def code_of_def)

lemma device_json_plain: "cr_ascii c \<Longrightarrow> jplain (device_json c)"
  unfolding device_json_def by (intro jplain_jobj) (simp add: cr_ascii_def encrypt_ascii)

lemma put_credentials_plain:
  assumes "cr_ascii c" and "jplain (JObj m)"
  shows "jplain (JObj (put_credentials c m))"
  unfolding put_credentials_def sm.puts_def fold_simps prod.case
  using assms device_json_plain [OF assms(1)]
  by (intro jplain_put) (auto simp: cr_ascii_def stored_version_def simp del: jplain.simps(8))

lemma read_raw_cases:
  assumes "read_raw jp e s path = Inr j"
  obtains m where "j = JObj m" "data_of s path \<noteq> None \<Longrightarrow> jp (the (data_of s path)) = Some (JObj m)"
    "data_of s path = None \<Longrightarrow> m = []"
  using assms
  by (auto simp: read_raw_def cfg_exists_def fexists_data rbind_eq_Inr split: if_splits option.splits json.splits)

lemma write_raw_stores:
  "write_raw jd e path config h = Some (h', Inr ()) \<Longrightarrow> data_of (hd h') path = Some (jd config)"
  by (auto simp: write_raw_def dest: hwrite_data split: sum.splits option.splits if_splits)

lemma write_raw_fails:
  "write_raw jd e path config h = Some (h', Inl x) \<Longrightarrow> data_of (hd h') path = data_of (hd h) path"
  by (auto simp: write_raw_def dest: hwrite_data split: sum.splits option.splits if_splits)

text \<open>What \<open>save\<close> writes: the credentials put into the object that was readable, or into none.\<close>

lemma save_stores:
  assumes "save jp jd e path c h = Some (h', Inr ())"
  obtains m where "data_of (hd h') path = Some (jd (JObj (put_credentials c m)))" "cr_is_valid c"
    "read_raw jp e (hd h) path = Inr (JObj m) \<or> ((\<exists>x. read_raw jp e (hd h) path = Inl x) \<and> m = [])"
proof (cases "read_raw jp e (hd h) path")
  case (Inl x)
  then show thesis
    using assms that [of "[]"] write_raw_stores [of jd e path _ h h']
    by (auto simp: save_def with_credentials_obj split: if_splits sum.splits)
next
  case (Inr j)
  then obtain m where "j = JObj m" by (rule read_raw_cases)
  then show thesis
    using Inr assms that [of m] write_raw_stores [of jd e path _ h h']
    by (auto simp: save_def with_credentials_obj split: if_splits sum.splits)
qed

definition load_json :: "json \<Rightarrow> credentials res" where
  "load_json j = rbind (decrypt_config j) credentials_of_json"

lemma load_eq:
  "ce_stat_ok e \<Longrightarrow> ce_open_ok e \<Longrightarrow> data_of s path = Some text \<Longrightarrow> jps text = Some j \<Longrightarrow>
   load jps e s path = rbind (load_json j)
     (\<lambda>c. if \<not> cr_is_valid c then Inl (RuntimeError (''Invalid configuration data in: '' @ path)) else Inr c)"
  by (simp add: load_def cfg_exists_def fexists_data decrypt_and_load_def load_json_def rbind_assoc)

lemma jvalue_norm_obj:
  assumes "smap_get m' k = map_option jnorm (smap_get m k)" and "\<And>v. get (jnorm v) = get v"
  shows "jvalue get (JObj m') k d = jvalue get (JObj m) k d"
  using assms by (cases "smap_get m k") (simp_all add: jvalue_def)

lemma load_json_norm:
  assumes "\<forall>k \<in> {''host'', ''version'', ''verify_ssl'', ''device''}. smap_get m' k = map_option jnorm (smap_get m k)"
  shows "load_json (JObj m') = load_json (JObj m)"
proof -
  have v: "jvalue get_string (JObj m') ''host'' d = jvalue get_string (JObj m) ''host'' d"
    "jvalue get_string (JObj m') ''version'' d = jvalue get_string (JObj m) ''version'' d"
    "jvalue get_bool (JObj m') ''verify_ssl'' b = jvalue get_bool (JObj m) ''verify_ssl'' b" for d b
    using assms by (intro jvalue_norm_obj; simp)+
  have p: "jvalue g (JObj (smap_put ''device'' x n)) k d = jvalue g (JObj n) k d" if "k \<noteq> ''device''" for g x n k d
    using that by (simp add: jvalue_def)
  show ?thesis
  proof (cases "smap_get m ''device''")
    case None
    then show ?thesis using assms v by (simp add: load_json_def decrypt_config_def credentials_of_json_def)
  next
    case (Some dev)
    then have d': "smap_get m' ''device'' = Some (jnorm dev)" using assms by simp
    show ?thesis
    proof (cases "jfind dev ''token''")
      case None
      then show ?thesis using Some d' v by (simp add: load_json_def decrypt_config_def credentials_of_json_def)
    next
      case (Some t)
      then obtain dm where dm: "dev = JObj dm" by (cases dev) auto
      have q: "jvalue get_string (JObj (smap_put ''token'' x (map (map_prod id jnorm) dm))) k d =
          jvalue get_string (JObj (smap_put ''token'' x dm)) k d" for x k d
        by (cases "smap_get dm k") (simp_all add: jvalue_def smap_get_norm)
      show ?thesis using Some d' v \<open>smap_get m ''device'' = Some dev\<close>
        by (simp add: load_json_def decrypt_config_def credentials_of_json_def dm smap_get_norm rbind_assoc p q)
    qed
  qed
qed

lemma settings_norm: "settings_from_json (jnorm j) = settings_from_json j"
proof -
  have "clamp_int (jnorm j) k d lo hi = clamp_int j k d lo hi" for k d lo hi
    by (cases "jfind j k") (simp_all add: clamp_int_def)
  moreover have "parse_policy (jnorm j) d = parse_policy j d" for d
    by (cases "jfind j ''policy''") (simp_all add: parse_policy_def)
  moreover have "parse_source (jnorm j) d = parse_source j d" for d
    by (cases "jfind j ''policy_source''") (simp_all add: parse_source_def)
  moreover have "parse_channel (jnorm j) d = parse_channel j d" for d
    by (cases "jfind j ''channel''") (simp_all add: parse_channel_def)
  ultimately show ?thesis by (simp add: settings_from_json_def)
qed

text \<open>Reading the update section of an object that is on disk.\<close>

lemma read_section_eq:
  assumes "ce_stat_ok e" and "ce_open_ok e" and "data_of s path = Some text" and "jp text = Some (JObj m)"
  shows "read_update_section jp e s path = (case smap_get m ''update'' of Some u \<Rightarrow> u | None \<Rightarrow> JObj [])"
  using assms by (simp add: read_update_section_def read_raw_def cfg_exists_def fexists_data)

lemma load_put_credentials:
  "load_json (JObj (put_credentials c m)) = Inr (c\<lparr>cr_version := stored_version c\<rparr>)"
proof -
  have d: "jvalue g (JObj (smap_put ''device'' x n)) k d = jvalue g (JObj n) k d" if "k \<noteq> ''device''" for g x n k d
    using that by (simp add: jvalue_def)
  obtain dm where dm: "device_json c = JObj dm" by (simp add: device_json_def jobj_def)
  have f: "smap_get dm ''id'' = Some (JStr (cr_id c))" "smap_get dm ''name'' = Some (JStr (cr_name c))"
    "smap_get dm ''user'' = Some (JStr (cr_user c))" "smap_get dm ''token'' = Some (JStr (encrypt_token (cr_token c)))"
    using dm by (auto simp: device_json_def jobj_def smap_get_of)
  show ?thesis
    by (simp add: load_json_def decrypt_config_def credentials_of_json_def get_put_credentials dm f
        decrypt_encrypt d jvalue_def)
qed

section \<open>Properties\<close>

lemma save_effect:
  assumes "json_text jp jd" and "json_text jps jd" and "save jp jd e path c h = Some (h', Inr ())"
    and "cr_ascii c" and "\<forall>j. read_raw jp e (hd h) path = Inr j \<longrightarrow> jplain j"
    and "ce_stat_ok e'" and "ce_open_ok e'"
  shows "load jps e' (hd h') path = Inr (c\<lparr>cr_version := stored_version c\<rparr>) \<and>
    settings_from_json (read_update_section jp e' (hd h') path) =
    settings_from_json (read_update_section jp e (hd h) path)"
proof -
  from assms(3) obtain m where m: "data_of (hd h') path = Some (jd (JObj (put_credentials c m)))" "cr_is_valid c"
    "read_raw jp e (hd h) path = Inr (JObj m) \<or> ((\<exists>x. read_raw jp e (hd h) path = Inl x) \<and> m = [])"
    by (rule save_stores)
  have "jplain (JObj m)" using m(3) assms(5) by (auto simp: smap_inv_def)
  then have pl: "jplain (JObj (put_credentials c m))" using assms(4) by (rule put_credentials_plain [rotated])
  let ?n = "map (map_prod id jnorm) (put_credentials c m)"
  have rd: "jp (jd (JObj (put_credentials c m))) = Some (JObj ?n)" "jps (jd (JObj (put_credentials c m))) = Some (JObj ?n)"
    using json_textD [OF assms(1) pl] json_textD [OF assms(2) pl] by simp_all
  have "load_json (JObj ?n) = load_json (JObj (put_credentials c m))"
    by (rule load_json_norm) (simp add: smap_get_norm)
  moreover have "cr_is_valid (c\<lparr>cr_version := stored_version c\<rparr>)" using m(2) by (simp add: cr_is_valid_def)
  ultimately have "load jps e' (hd h') path = Inr (c\<lparr>cr_version := stored_version c\<rparr>)"
    using load_eq [where jps = jps, OF assms(6,7) m(1) rd(2)] by (simp add: load_put_credentials)
  moreover have "read_update_section jp e' (hd h') path =
      (case map_option jnorm (smap_get m ''update'') of Some u \<Rightarrow> u | None \<Rightarrow> JObj [])"
    using read_section_eq [where jp = jp, OF assms(6,7) m(1) rd(1)] by (simp add: smap_get_norm get_put_credentials)
  moreover have "read_update_section jp e (hd h) path = (case smap_get m ''update'' of Some u \<Rightarrow> u | None \<Rightarrow> JObj [])"
    using m(3) by (auto simp: read_update_section_def)
  ultimately show ?thesis by (cases "smap_get m ''update''") (simp_all add: settings_norm)
qed

lemma save_leaves_plain:
  assumes "json_text jp jd" and "save jp jd e path c h = Some (h', Inr ())" and "cr_ascii c"
    and "\<forall>j. read_raw jp e (hd h) path = Inr j \<longrightarrow> jplain j" and "read_raw jp e' (hd h') path = Inr j"
  shows "jplain j"
proof -
  from assms(2) obtain m where m: "data_of (hd h') path = Some (jd (JObj (put_credentials c m)))"
    "read_raw jp e (hd h) path = Inr (JObj m) \<or> ((\<exists>x. read_raw jp e (hd h) path = Inl x) \<and> m = [])"
    by (rule save_stores)
  have "jplain (JObj m)" using m(2) assms(4) by (auto simp: smap_inv_def)
  then have pl: "jplain (JObj (put_credentials c m))" using assms(3) by (rule put_credentials_plain [rotated])
  from assms(5) obtain n where n: "j = JObj n" "jp (the (data_of (hd h') path)) = Some (JObj n)"
    using m(1) by (elim read_raw_cases) auto
  then have "JObj n = jnorm (JObj (put_credentials c m))" using m(1) json_textD [OF assms(1) pl] by simp
  with jplain_jnorm [OF pl] n(1) show ?thesis by simp
qed

text \<open>What is read depends on the bytes of the file, when it can be read.\<close>

lemma load_bytes:
  assumes "ce_stat_ok e" "ce_open_ok e" "ce_stat_ok e'" "ce_open_ok e'" "s' path = s path"
  shows "load jps e' s' path = load jps e s path"
    and "read_raw jp e' s' path = read_raw jp e s path"
    and "read_update_section jp e' s' path = read_update_section jp e s path"
  using assms by (simp_all add: load_def decrypt_and_load_def read_update_section_def read_raw_def cfg_exists_def fexists_def data_of_def)

text \<open>
  C29. Credentials survive \<open>save\<close> and \<open>load\<close>, with any bytes in the token, and only an
  empty version is replaced by the default; saving does not change what the update settings
  read from the same file are.
\<close>

theorem save_load_roundtrip:
  assumes "json_text jp jd" and "json_text jps jd" and "save jp jd e path c h = Some (h', Inr ())"
    and "cr_ascii c" and "\<forall>j. read_raw jp e (hd h) path = Inr j \<longrightarrow> jplain j"
    and "ce_stat_ok e'" and "ce_open_ok e'"
  shows "load jps e' (hd h') path = Inr (c\<lparr>cr_version := stored_version c\<rparr>) \<and>
    settings_from_json (read_update_section jp e' (hd h') path) =
    settings_from_json (read_update_section jp e (hd h) path)"
  using assms by (rule save_effect)

definition demo_credentials :: credentials where
  "demo_credentials = \<lparr>cr_host = ''eu.cloud'', cr_id = ''d1'', cr_name = ''box'', cr_user = ''alice'',
     cr_token = [CHR 0xFF, CHR ''t''], cr_version = [], cr_verify_ssl = True\<rparr>"

definition demo_cfg :: "string \<Rightarrow> cfg_env" where
  "demo_cfg text = \<lparr>ce_stat_ok = True, ce_open_ok = True, ce_dir_exists = True, ce_mkdir_ok = True,
     ce_mkdir_what = [], ce_write = good_wa text, ce_remove_ok = True\<rparr>"

lemma valid_save:
  assumes v: "cr_is_valid c" and "length (ref_dump (JObj (put_credentials c []))) \<le> length text" and "s path = None"
  shows "\<exists>h'. save ref_parse ref_dump (demo_cfg text) path c [s] = Some (h', Inr ())"
proof -
  obtain h' where "hwrite (good_wa text) path (ref_dump (JObj (put_credentials c []))) 384 [s] = Some (h', True)"
    using hwrite_works [OF long_wa_works [OF assms(2)]] by blast
  then show ?thesis
    by (simp add: save_def v ensure_config_directory_def write_raw_def read_raw_def cfg_exists_def
        fexists_def with_credentials_obj demo_cfg_def assms(3))
qed

theorem save_load_roundtrip_witness:
  "\<exists>h'. save ref_parse ref_dump (demo_cfg (ref_dump (JObj (put_credentials demo_credentials [])))) ''/etc/c''
       demo_credentials [\<lambda>_. None] = Some (h', Inr ()) \<and>
     load ref_parse (demo_cfg []) (hd h') ''/etc/c'' = Inr (demo_credentials\<lparr>cr_version := ''1.0.0''\<rparr>)"
proof -
  obtain h' where s: "save ref_parse ref_dump (demo_cfg (ref_dump (JObj (put_credentials demo_credentials [])))) ''/etc/c''
       demo_credentials [\<lambda>_. None] = Some (h', Inr ())"
    using valid_save [OF _ le_refl, of demo_credentials "\<lambda>_. None" "''/etc/c''"]
    by (auto simp: cr_is_valid_def demo_credentials_def)
  have a: "cr_ascii demo_credentials" by (simp add: cr_ascii_def demo_credentials_def ascii_def code_of_def)
  have v: "stored_version demo_credentials = ''1.0.0''" by (simp add: stored_version_def demo_credentials_def)
  show ?thesis
    using save_load_roundtrip [OF json_text_ref json_text_ref s a, of "demo_cfg []"] s v
    by (simp add: demo_cfg_def read_raw_def cfg_exists_def fexists_def smap_inv_def)
qed

lemma write_section_effect:
  assumes "json_text jp jd" and "json_text jps jd" and "\<forall>t j. jp t = Some j \<longrightarrow> jps t = Some j"
    and "write_update_section jp jd e path u h = Some (h', r)"
    and "jplain u" and "\<forall>j. read_raw jp e (hd h) path = Inr j \<longrightarrow> jplain j"
    and "ce_stat_ok e'" and "ce_open_ok e'"
  shows "if r = Inr () then load jps e' (hd h') path = load jps e' (hd h) path \<and>
      settings_from_json (read_update_section jp e' (hd h') path) = settings_from_json u
    else data_of (hd h') path = data_of (hd h) path"
proof (cases r)
  case (Inl x)
  with assms(4) show ?thesis
    by (auto simp: write_update_section_def dest: write_raw_fails split: sum.splits bool.splits)
next
  case (Inr y)
  then obtain j where ex: "fexists (hd h) path" and rr: "read_raw jp e (hd h) path = Inr j"
    using assms(4) by (auto simp: write_update_section_def cfg_exists_def rbind_eq_Inr split: sum.splits bool.splits if_splits)
  from rr obtain m where m: "j = JObj m" "jp (the (data_of (hd h) path)) = Some (JObj m)"
    using ex by (elim read_raw_cases) (auto simp: fexists_data)
  obtain bytes where bytes: "data_of (hd h) path = Some bytes" using ex by (auto simp: fexists_data)
  have w: "data_of (hd h') path = Some (jd (JObj (smap_put ''update'' u m)))"
    using assms(4) Inr rr m(1) ex write_raw_stores [of jd e path _ h h']
    by (auto simp: write_update_section_def cfg_exists_def split: sum.splits bool.splits if_splits)
  have "jplain (JObj m)" using assms(6) rr m(1) by simp
  then have pl: "jplain (JObj (smap_put ''update'' u m))" using assms(5) by (intro jplain_put) simp_all
  let ?n = "map (map_prod id jnorm) (smap_put ''update'' u m)"
  have rd: "jp (jd (JObj (smap_put ''update'' u m))) = Some (JObj ?n)" "jps (jd (JObj (smap_put ''update'' u m))) = Some (JObj ?n)"
    using json_textD [OF assms(1) pl] json_textD [OF assms(2) pl] by simp_all
  have "load_json (JObj ?n) = load_json (JObj m)" by (rule load_json_norm) (simp add: smap_get_norm)
  moreover have "jps bytes = Some (JObj m)" using m(2) bytes assms(3) by simp
  ultimately have "load jps e' (hd h') path = load jps e' (hd h) path"
    using load_eq [where jps = jps, OF assms(7,8) w rd(2)] load_eq [where jps = jps, OF assms(7,8) bytes] by simp
  moreover have "read_update_section jp e' (hd h') path = jnorm u"
    using read_section_eq [where jp = jp, OF assms(7,8) w rd(1)] by (simp add: smap_get_norm)
  ultimately show ?thesis using Inr by (simp add: settings_norm)
qed

text \<open>
  C30. Writing the update section leaves the credentials of the file exactly as they were
  (token included, which is never decrypted on the way) and stores the given settings; when
  it fails, or when the file is missing or corrupt, the file is untouched.
\<close>

theorem write_update_section_keeps_credentials:
  assumes "json_text jp jd" and "json_text jps jd" and "\<forall>t j. jp t = Some j \<longrightarrow> jps t = Some j"
    and "write_update_section jp jd e path u h = Some (h', r)"
    and "jplain u" and "\<forall>j. read_raw jp e (hd h) path = Inr j \<longrightarrow> jplain j"
    and "ce_stat_ok e'" and "ce_open_ok e'"
  shows "if r = Inr () then load jps e' (hd h') path = load jps e' (hd h) path \<and>
      settings_from_json (read_update_section jp e' (hd h') path) = settings_from_json u
    else data_of (hd h') path = data_of (hd h) path"
  using assms by (rule write_section_effect)

lemma write_section_leaves_plain:
  assumes "json_text jp jd" and "write_update_section jp jd e path u h = Some (h', Inr ())" and "jplain u"
    and "\<forall>j. read_raw jp e (hd h) path = Inr j \<longrightarrow> jplain j" and "read_raw jp e' (hd h') path = Inr j"
  shows "jplain j"
proof -
  obtain i where ex: "fexists (hd h) path" and rr: "read_raw jp e (hd h) path = Inr i"
    using assms(2) by (auto simp: write_update_section_def cfg_exists_def rbind_eq_Inr split: sum.splits bool.splits if_splits)
  from rr obtain m where m: "i = JObj m" using ex by (elim read_raw_cases) (auto simp: fexists_data)
  have w: "data_of (hd h') path = Some (jd (JObj (smap_put ''update'' u m)))"
    using assms(2) rr m ex write_raw_stores [of jd e path _ h h']
    by (auto simp: write_update_section_def cfg_exists_def split: sum.splits bool.splits if_splits)
  have "jplain (JObj m)" using assms(4) rr m by simp
  then have pl: "jplain (JObj (smap_put ''update'' u m))" using assms(3) by (intro jplain_put) simp_all
  from assms(5) obtain n where n: "j = JObj n" "jp (the (data_of (hd h') path)) = Some (JObj n)"
    using w by (elim read_raw_cases) auto
  then have "JObj n = jnorm (JObj (smap_put ''update'' u m))" using w json_textD [OF assms(1) pl] by simp
  with jplain_jnorm [OF pl] n(1) show ?thesis by simp
qed

text \<open>
  C26. Settings inside their bounds survive being written to the configuration file and read
  back by another process: policy, source, channel, interval and deadline all come back
  unchanged. They also survive a later save of any credentials to the same file, as long as
  that save can read the file.
\<close>

theorem settings_roundtrip:
  assumes "json_text jp jd" and "settings_ok s"
    and "write_update_section jp jd e path (settings_to_json s) h = Some (h', Inr ())"
    and "\<forall>j. read_raw jp e (hd h) path = Inr j \<longrightarrow> jplain j" and "ce_stat_ok e'" and "ce_open_ok e'"
    and "ce_stat_ok e2" and "ce_open_ok e2" and "save jp jd e2 path c h' = Some (h'', Inr ())" and "cr_ascii c"
  shows "settings_from_json (read_update_section jp e' (hd h') path) = s \<and>
    settings_from_json (read_update_section jp e' (hd h'') path) = s"
proof -
  note plain = settings_plain [OF assms(2)]
  have same: "settings_from_json (settings_to_json s) = s" using settings_read_back [OF assms(2)] by (simp add: settings_norm)
  have read: "settings_from_json (read_update_section jp f (hd h') path) = s" if "ce_stat_ok f" "ce_open_ok f" for f
    using write_section_effect [OF assms(1,1) _ assms(3) plain assms(4) that] same by simp
  have "\<forall>j. read_raw jp e2 (hd h') path = Inr j \<longrightarrow> jplain j"
    using write_section_leaves_plain [OF assms(1,3) plain assms(4)] by blast
  from save_effect [OF assms(1,1,9,10) this assms(5,6)] read [OF assms(7,8)] read [OF assms(5,6)]
  show ?thesis by simp
qed

definition demo_config :: "json smap" where
  "demo_config = put_credentials demo_credentials []"

lemma demo_config_plain: "jplain (JObj demo_config)"
  unfolding demo_config_def
  by (rule put_credentials_plain) (simp_all add: cr_ascii_def demo_credentials_def ascii_def code_of_def smap_inv_def)

theorem write_update_section_keeps_credentials_witness:
  "let s = [''/etc/c'' \<mapsto> \<lparr>f_data = ref_dump (JObj demo_config), f_mode = 384\<rparr>];
       u = settings_to_json (default_settings\<lparr>us_policy := Managed\<rparr>);
       e = demo_cfg (ref_dump (JObj (smap_put ''update'' u (map (map_prod id jnorm) demo_config)))) in
   \<exists>h'. write_update_section ref_parse ref_dump e ''/etc/c'' u [s] = Some (h', Inr ()) \<and>
     load ref_parse e (hd h') ''/etc/c'' = load ref_parse e s ''/etc/c'' \<and>
     us_policy (settings_from_json (read_update_section ref_parse e (hd h') ''/etc/c'')) = Managed"
proof -
  define s :: fs where "s = [''/etc/c'' \<mapsto> \<lparr>f_data = ref_dump (JObj demo_config), f_mode = 384\<rparr>]"
  define u where "u = settings_to_json (default_settings\<lparr>us_policy := Managed\<rparr>)"
  define n where "n = map (map_prod id jnorm) demo_config"
  define e where "e = demo_cfg (ref_dump (JObj (smap_put ''update'' u n)))"
  have e: "ce_stat_ok e" "ce_open_ok e" "ce_dir_exists e" "ce_write e = good_wa (ref_dump (JObj (smap_put ''update'' u n)))"
    by (simp_all add: e_def demo_cfg_def)
  have ex: "fexists s ''/etc/c''" by (simp add: s_def fexists_def)
  have rr: "read_raw ref_parse e s ''/etc/c'' = Inr (JObj n)"
    using json_textD [OF json_text_ref demo_config_plain]
    by (simp add: read_raw_def cfg_exists_def e fexists_def data_of_def s_def n_def)
  obtain h' where "hwrite (ce_write e) ''/etc/c'' (ref_dump (JObj (smap_put ''update'' u n))) 384 [s] = Some (h', True)"
    using hwrite_works [OF good_wa_works] e(4) by metis
  then have w: "write_update_section ref_parse ref_dump e ''/etc/c'' u [s] = Some (h', Inr ())"
    by (simp add: write_update_section_def cfg_exists_def e ex rr write_raw_def ensure_config_directory_def)
  have ok: "settings_ok (default_settings\<lparr>us_policy := Managed\<rparr>)"
    using default_settings_ok by (simp add: settings_ok_def)
  have up: "jplain u" unfolding u_def by (rule settings_plain [OF ok])
  have "settings_from_json u = default_settings\<lparr>us_policy := Managed\<rparr>"
    using settings_read_back [OF ok] by (simp add: u_def settings_norm)
  moreover have "jplain (JObj n)"
    using jplain_jnorm [OF demo_config_plain] by (simp add: n_def)
  ultimately show ?thesis
    using write_update_section_keeps_credentials [OF json_text_ref json_text_ref _ w up, of e] w e rr demo_config_plain
    unfolding s_def u_def n_def e_def by (simp add: Let_def)
qed

theorem settings_roundtrip_witness:
  "let u = \<lparr>us_policy = Managed, us_source = LocalExplicit, us_channel = ''latest'', us_check_interval_h = 12,
       us_rollback_deadline_s = 120\<rparr>; j = smap_put ''update'' (settings_to_json u) []; k = map (map_prod id jnorm) j;
     s = [''/etc/c'' \<mapsto> \<lparr>f_data = ref_dump (JObj []), f_mode = 384\<rparr>] in
   \<exists>h' h''. write_update_section ref_parse ref_dump (demo_cfg (ref_dump (JObj j))) ''/etc/c'' (settings_to_json u) [s] = Some (h', Inr ()) \<and>
     save ref_parse ref_dump (demo_cfg (ref_dump (JObj (put_credentials demo_credentials k)))) ''/etc/c'' demo_credentials h' = Some (h'', Inr ()) \<and>
     settings_from_json (read_update_section ref_parse (demo_cfg []) (hd h'') ''/etc/c'') = u"
proof -
  define u where "u = \<lparr>us_policy = Managed, us_source = LocalExplicit, us_channel = ''latest'', us_check_interval_h = 12,
       us_rollback_deadline_s = 120\<rparr>"
  define j where "j = smap_put ''update'' (settings_to_json u) []"
  define k where "k = map (map_prod id jnorm) j"
  define s :: fs where "s = [''/etc/c'' \<mapsto> \<lparr>f_data = ref_dump (JObj []), f_mode = 384\<rparr>]"
  have ok: "settings_ok u" by (simp add: u_def settings_ok_def settings_consts)
  have e: "ce_stat_ok (demo_cfg x)" "ce_open_ok (demo_cfg x)" "ce_dir_exists (demo_cfg x)" "ce_write (demo_cfg x) = good_wa x" for x
    by (simp_all add: demo_cfg_def)
  have empty: "jplain (JObj [])" by (simp add: smap_inv_def)
  have rr: "read_raw ref_parse (demo_cfg x) s ''/etc/c'' = Inr (JObj [])" for x
    using json_textD [OF json_text_ref empty] by (simp add: read_raw_def cfg_exists_def e fexists_def data_of_def s_def)
  have ex: "fexists s ''/etc/c''" by (simp add: s_def fexists_def)
  obtain h' where h: "hwrite (good_wa (ref_dump (JObj j))) ''/etc/c'' (ref_dump (JObj j)) 384 [s] = Some (h', True)"
    using hwrite_works [OF good_wa_works] by metis
  have w: "write_update_section ref_parse ref_dump (demo_cfg (ref_dump (JObj j))) ''/etc/c'' (settings_to_json u) [s] = Some (h', Inr ())"
    using h by (simp add: write_update_section_def cfg_exists_def e rr write_raw_def ensure_config_directory_def ex rbind_def j_def)
  have d: "data_of (hd h') ''/etc/c'' = Some (ref_dump (JObj j))" using hwrite_data [OF h] by simp
  have pl: "jplain (JObj j)" unfolding j_def by (rule jplain_put [OF empty _ settings_plain [OF ok]]) (simp add: ascii_def code_of_def)
  have rr': "read_raw ref_parse (demo_cfg x) (hd h') ''/etc/c'' = Inr (JObj k)" for x
    using json_textD [OF json_text_ref pl] d by (simp add: read_raw_def cfg_exists_def e fexists_data k_def)
  have v: "cr_is_valid demo_credentials" by (simp add: cr_is_valid_def demo_credentials_def)
  have a: "cr_ascii demo_credentials" by (simp add: cr_ascii_def demo_credentials_def ascii_def code_of_def)
  let ?d = "ref_dump (JObj (put_credentials demo_credentials k))"
  obtain h'' where "hwrite (good_wa ?d) ''/etc/c'' ?d 384 h' = Some (h'', True)" using hwrite_works [OF good_wa_works] by metis
  then have h2: "save ref_parse ref_dump (demo_cfg ?d) ''/etc/c'' demo_credentials h' = Some (h'', Inr ())"
    by (simp add: save_def v ensure_config_directory_def write_raw_def rr' with_credentials_obj e)
  have "settings_from_json (read_update_section ref_parse (demo_cfg []) (hd h'') ''/etc/c'') = u"
    using settings_roundtrip [OF json_text_ref ok w _ e(1,2) e(1,2) h2 a] rr empty by auto
  with w h2 show ?thesis unfolding Let_def u_def j_def k_def s_def by blast
qed

end
