(* ===== verification/Poller.thy ===== *)
theory Poller
  imports Watchdog_Core Updater Dispatcher Config
begin

text \<open>
  The automatic update loop (\<open>src/thinr/runtime/update_poller.hpp\<close>,
  \<open>update_poller.cpp\<close>): the remote policy slot, the connection flag, one poll cycle and the
  cadence of the loop.
\<close>

section \<open>State\<close>

record poller =
  pl_device_id :: string
  pl_config_path :: string
  pl_state_dir :: string
  pl_version :: string
  pl_connected :: bool
  pl_remote_policy :: int
  pl_interval_h :: int
  pl_stopping :: bool

datatype cycle_result = Normal | CycleDeferred | Restarting

definition new_poller :: "string \<Rightarrow> string \<Rightarrow> string \<Rightarrow> string \<Rightarrow> poller" where
  "new_poller device_id config_path state_dir running_version =
     \<lparr>pl_device_id = device_id, pl_config_path = config_path, pl_state_dir = state_dir,
      pl_version = running_version, pl_connected = False, pl_remote_policy = - 1,
      pl_interval_h = CHECK_INTERVAL_DEFAULT_H, pl_stopping = False\<rparr>"

definition stop_poller :: "poller \<Rightarrow> poller" where
  "stop_poller p = p\<lparr>pl_stopping := True\<rparr>"

definition set_remote_policy :: "update_policy option \<Rightarrow> poller \<Rightarrow> poller" where
  "set_remote_policy policy p =
     (let v = (case policy of None \<Rightarrow> - 1 | Some q \<Rightarrow> if q = Managed then 1 else 0)
      in p\<lparr>pl_remote_policy := v\<rparr>)"

definition remote_override :: "poller \<Rightarrow> update_policy option" where
  "remote_override p =
     (if pl_remote_policy p = 0 then Some Automatic
      else if pl_remote_policy p = 1 then Some Managed
      else None)"

definition poller_on_state :: "client_state \<Rightarrow> poller \<Rightarrow> poller" where
  "poller_on_state s p = p\<lparr>pl_connected := (s = STREAMS_READY)\<rparr>"

section \<open>One cycle\<close>

record poll_env =
  pe_session :: session
  pe_cfg :: cfg_env
  pe_http :: "string \<Rightarrow> http_out"
  pe_now_revert :: int
  pe_now_elig :: int
  pe_apply :: apply_env

text \<open>The codec and platform parameters, with the build: \<open>jp\<close>, \<open>jd\<close>, SHA-256, floating rounding.\<close>

record platform =
  pf_build :: build
  pf_parse :: "string \<Rightarrow> json option"
  pf_dump :: "json \<Rightarrow> string"
  pf_sha :: sha256
  pf_fpu :: fpu

definition poll_request :: "platform \<Rightarrow> poller \<Rightarrow> update_settings \<Rightarrow> manifest \<Rightarrow> apply_request" where
  "poll_request pf p l man =
     \<lparr>rq_version = mf_version man, rq_url = binary_url (pf_build pf) (us_channel l),
      rq_checksum = (case checksum_for man (binary_suffix (pf_build pf)) of Some c \<Rightarrow> c | None \<Rightarrow> []),
      rq_channel = us_channel l, rq_state_dir = pl_state_dir p, rq_origin = AutoPoll,
      rq_deadline_s = us_rollback_deadline_s l\<rparr>"

text \<open>
  The result carries the poller, the disk, the process-wide apply flag and the outcome; an
  exception leaves the cycle, and with it the poll thread.
\<close>

definition run_cycle :: "platform \<Rightarrow> poll_env \<Rightarrow> poller \<Rightarrow> bool \<Rightarrow> history
    \<Rightarrow> (poller \<times> history \<times> bool \<times> cycle_result res) option" where
  "run_cycle pf e p in_progress h =
     (case config_path_of (pe_session e) (pl_config_path p) of
        Inl x \<Rightarrow> Some (p, h, in_progress, Inl x)
      | Inr path \<Rightarrow>
        let l = settings_from_json (read_update_section (pf_parse pf) (pe_cfg e) (hd h) path);
            p = p\<lparr>pl_interval_h := us_check_interval_h l\<rparr>;
            policy = effective_policy l (remote_override p) in
        if policy = Managed then Some (p, h, in_progress, Inr Normal)
        else if \<not> pl_connected p then Some (p, h, in_progress, Inr Normal)
        else case fetch_manifest (pf_fpu pf) (pf_parse pf) (pe_http e) (us_channel l) of
          None \<Rightarrow> Some (p, h, in_progress, Inr Normal)
        | Some man \<Rightarrow>
          if \<not> mf_valid man then Some (p, h, in_progress, Inr Normal)
          else if mf_version man = pl_version p then Some (p, h, in_progress, Inr Normal)
          else case last_reverted (pf_parse pf) (hd h) (pl_state_dir p) of
            Inl x \<Rightarrow> Some (p, h, in_progress, Inl x)
          | Inr rv \<Rightarrow>
            if (case rv of Some r \<Rightarrow> skip_reverted_version r (mf_version man) (pe_now_revert e) REVERTED_RETRY_COOLDOWN_S
                         | None \<Rightarrow> False)
            then Some (p, h, in_progress, Inr Normal)
            else if \<not> is_eligible (evaluate_eligibility (pf_fpu pf) (pf_sha pf) man (pl_device_id p) (pe_now_elig e))
            then Some (p, h, in_progress, Inr Normal)
            else case apply_with_watchdog (pf_build pf) (pf_dump pf) (pf_sha pf) (pe_apply e)
                        (poll_request pf p l man) in_progress h of
              None \<Rightarrow> None
            | Some (h', fl, Inl x) \<Rightarrow> Some (p, h', fl, Inl x)
            | Some (h', fl, Inr r) \<Rightarrow>
                Some (p, h', fl, Inr (case ar_status r of
                  Updated \<Rightarrow> Restarting | Deferred \<Rightarrow> CycleDeferred | Error \<Rightarrow> Normal)))"

section \<open>Cadence\<close>

definition delay_ms :: "fpu \<Rightarrow> rat \<Rightarrow> int" where
  "delay_ms F s = as_int64 (trunc_rat (dbl F (s * 1000)))"

text \<open>What the loop does after a cycle: end, or wait so many milliseconds.\<close>

definition next_delay_ms :: "fpu \<Rightarrow> poller \<Rightarrow> cycle_result \<Rightarrow> rat \<Rightarrow> int option" where
  "next_delay_ms F p r u =
     (case r of
        Restarting \<Rightarrow> None
      | CycleDeferred \<Rightarrow> Some (delay_ms F (of_int DEFERRED_RETRY_DELAY_S))
      | Normal \<Rightarrow> Some (delay_ms F (normal_poll_delay_s F (pl_interval_h p) u)))"

text \<open>
  The loop over the environments and random numbers of its iterations: the delays waited
  and the state at the end. It ends when stopping was requested, when the given iterations
  are used up, after an apply that restarts, and on an exception.
\<close>

fun poll_loop :: "platform \<Rightarrow> (poll_env \<times> rat \<times> bool) list \<Rightarrow> poller \<Rightarrow> bool \<Rightarrow> history
    \<Rightarrow> (poller \<times> history \<times> bool \<times> int list) option" where
  "poll_loop pf [] p fl h = Some (p, h, fl, [])"
| "poll_loop pf ((e, u, stop_now) # rest) p fl h =
     (let p = (if stop_now then stop_poller p else p) in
      if pl_stopping p then Some (p, h, fl, [])
      else case run_cycle pf e p fl h of
        None \<Rightarrow> None
      | Some (p', h', fl', Inl x) \<Rightarrow> Some (p', h', fl', [])
      | Some (p', h', fl', Inr r) \<Rightarrow>
          (case next_delay_ms (pf_fpu pf) p' r u of
             None \<Rightarrow> Some (p', h', fl', [])
           | Some d \<Rightarrow>
               (case poll_loop pf rest p' fl' h' of
                  None \<Rightarrow> None
                | Some (p'', h'', fl'', ds) \<Rightarrow> Some (p'', h'', fl'', d # ds))))"

section \<open>Lemmas\<close>

lemma remote_override_set [simp]: "remote_override (set_remote_policy q p) = q"
  by (cases q) (auto simp: remote_override_def set_remote_policy_def split: update_policy.splits,
      metis update_policy.exhaust)

lemma poll_request_sel [simp]:
  "rq_version (poll_request pf p l man) = mf_version man" "rq_origin (poll_request pf p l man) = AutoPoll"
  "rq_state_dir (poll_request pf p l man) = pl_state_dir p"
  by (simp_all add: poll_request_def)

text \<open>A cycle that gets as far as an apply has passed every gate.\<close>

definition poll_gates :: "platform \<Rightarrow> poll_env \<Rightarrow> poller \<Rightarrow> fs \<Rightarrow> update_settings \<Rightarrow> manifest \<Rightarrow> bool" where
  "poll_gates pf e p s l man \<longleftrightarrow>
     effective_policy l (remote_override p) \<noteq> Managed \<and> pl_connected p \<and>
     fetch_manifest (pf_fpu pf) (pf_parse pf) (pe_http e) (us_channel l) = Some man \<and> mf_valid man \<and>
     mf_version man \<noteq> pl_version p \<and>
     (\<exists>rv. last_reverted (pf_parse pf) s (pl_state_dir p) = Inr rv \<and>
        (\<forall>r. rv = Some r \<longrightarrow> \<not> skip_reverted_version r (mf_version man) (pe_now_revert e) REVERTED_RETRY_COOLDOWN_S)) \<and>
     is_eligible (evaluate_eligibility (pf_fpu pf) (pf_sha pf) man (pl_device_id p) (pe_now_elig e))"

lemma run_cycle_cases:
  assumes "run_cycle pf e p fl h = Some (p', h', fl', r)"
  obtains (quiet) "h' = h" "fl' = fl" "r \<noteq> Inr Restarting"
  | (applied) path l man a where "config_path_of (pe_session e) (pl_config_path p) = Inr path"
      "l = settings_from_json (read_update_section (pf_parse pf) (pe_cfg e) (hd h) path)"
      "poll_gates pf e p (hd h) l man"
      "apply_with_watchdog (pf_build pf) (pf_dump pf) (pf_sha pf) (pe_apply e) (poll_request pf p l man) fl h = Some (h', fl', a)"
      "r = Inr Restarting \<longleftrightarrow> (\<exists>ar. a = Inr ar \<and> ar_status ar = Updated)"
proof (cases "config_path_of (pe_session e) (pl_config_path p)")
  case (Inl x)
  with assms show thesis by (intro quiet) (auto simp: run_cycle_def)
next
  case path: (Inr path)
  define l where "l = settings_from_json (read_update_section (pf_parse pf) (pe_cfg e) (hd h) path)"
  let ?p = "p\<lparr>pl_interval_h := us_check_interval_h l\<rparr>"
  have ro: "remote_override ?p = remote_override p" "poll_request pf ?p l = poll_request pf p l"
    by (simp_all add: remote_override_def poll_request_def fun_eq_iff)
  show thesis
  proof (cases "\<exists>man. poll_gates pf e p (hd h) l man")
    case True
    then obtain man where g: "poll_gates pf e p (hd h) l man" by blast
    then obtain rv where rv: "last_reverted (pf_parse pf) (hd h) (pl_state_dir p) = Inr rv"
      "\<forall>r. rv = Some r \<longrightarrow> \<not> skip_reverted_version r (mf_version man) (pe_now_revert e) REVERTED_RETRY_COOLDOWN_S"
      by (auto simp: poll_gates_def)
    let ?A = "apply_with_watchdog (pf_build pf) (pf_dump pf) (pf_sha pf) (pe_apply e) (poll_request pf p l man) fl h"
    have run: "run_cycle pf e p fl h = (case ?A of
        None \<Rightarrow> None
      | Some (h', fl', Inl x) \<Rightarrow> Some (?p, h', fl', Inl x)
      | Some (h', fl', Inr r) \<Rightarrow> Some (?p, h', fl', Inr (case ar_status r of
            Updated \<Rightarrow> Restarting | Deferred \<Rightarrow> CycleDeferred | Error \<Rightarrow> Normal)))"
      using g rv path
      by (cases rv) (simp_all add: run_cycle_def poll_gates_def ro Let_def flip: l_def del: is_eligible.simps)
    then obtain a where A: "?A = Some (h', fl', a)"
      using assms by (auto split: option.splits sum.splits)
    have "r = Inr Restarting \<longleftrightarrow> (\<exists>ar. a = Inr ar \<and> ar_status ar = Updated)"
      using assms run A by (auto split: sum.splits apply_status.splits)
    with path l_def g A show thesis by (rule applied)
  next
    case False
    then show thesis
      using assms path
      by (intro quiet)
         (auto simp: run_cycle_def Let_def poll_gates_def ro simp flip: l_def simp del: is_eligible.simps
           split: option.splits sum.splits if_splits)
  qed
qed

definition demo_platform :: platform where
  "demo_platform = \<lparr>pf_build = demo_build,
     pf_parse = (\<lambda>t. if t = ''man'' then Some (jobj [(''version'', JStr ''v1.8.0'')])
                      else if t = ''rev'' then Some (jobj [(''version'', JStr ''v1.8.0''), (''reason'', JStr ''crash_loop'')])
                      else None),
     pf_dump = (\<lambda>_. ''M''), pf_sha = (\<lambda>_. Some [1, 255]), pf_fpu = exact_fpu\<rparr>"

definition demo_poll :: poll_env where
  "demo_poll = \<lparr>pe_session = \<lparr>se_euid_root = True, se_uid_root = True, se_home = None, se_pw_dir = None, se_path = None\<rparr>,
     pe_cfg = demo_cfg [], pe_http = (\<lambda>_. HttpResponse 200 ''man''), pe_now_revert = 1762000000,
     pe_now_elig = 1762000000, pe_apply = demo_env\<rparr>"

definition demo_poller :: poller where
  "demo_poller = (new_poller ''dev'' [] ''/etc/t'' ''v1.7.5'')\<lparr>pl_connected := True\<rparr>"

definition reverted_fs :: fs where
  "reverted_fs = demo_fs(''/etc/t/update.reverted'' \<mapsto> \<lparr>f_data = ''rev'', f_mode = 420\<rparr>)"

lemma demo_manifest_fetch:
  "fetch_manifest (pf_fpu demo_platform) (pf_parse demo_platform) (pe_http demo_poll) ch = Some man \<Longrightarrow>
     mf_version man = ''v1.8.0''"
  by (auto simp: fetch_manifest_def demo_poll_def demo_platform_def manifest_parse_def manifest_of_json_def
      Let_def parse_flags)

lemma demo_cycle:
  "map_option (\<lambda>(p, h, fl, r). (data_of (hd h) ''/opt/a'', fl, r)) (run_cycle demo_platform demo_poll demo_poller False [demo_fs])
     = Some (Some ''new'', False, Inr Restarting)"
  by code_simp

lemma demo_reverted_cycle:
  "map_option (\<lambda>(p, h, fl, r). (fl, r)) (run_cycle demo_platform demo_poll demo_poller False [reverted_fs])
     = Some (False, Inr Normal)"
  by code_simp

section \<open>Properties\<close>

text \<open>
  C7. The unattended update acts only when every gate is open: if a poll cycle changed the
  disk or asked for a restart, the effective policy was not managed, the device was
  connected, the channel's manifest was valid and named another version than the running
  one, that version was not one reverted too recently, and the staged rollout had reached
  this device.
\<close>

theorem poll_acts_only_through_gates:
  assumes "run_cycle pf e p in_progress h = Some (p', h', fl', r)" and "h' \<noteq> h \<or> r = Inr Restarting"
  shows "\<exists>path l man. config_path_of (pe_session e) (pl_config_path p) = Inr path \<and>
    l = settings_from_json (read_update_section (pf_parse pf) (pe_cfg e) (hd h) path) \<and>
    poll_gates pf e p (hd h) l man"
  using assms(1)
proof (cases rule: run_cycle_cases)
  case quiet
  with assms(2) show ?thesis by simp
next
  case (applied path l man a)
  then show ?thesis by blast
qed

theorem poll_acts_only_through_gates_witness:
  "\<exists>p' h' fl' r. run_cycle demo_platform demo_poll demo_poller False [demo_fs] = Some (p', h', fl', r) \<and>
     (\<exists>path l man. config_path_of (pe_session demo_poll) (pl_config_path demo_poller) = Inr path \<and>
        l = settings_from_json (read_update_section (pf_parse demo_platform) (pe_cfg demo_poll) (hd [demo_fs]) path) \<and>
        poll_gates demo_platform demo_poll demo_poller (hd [demo_fs]) l man)"
proof -
  obtain p' h' fl' where r: "run_cycle demo_platform demo_poll demo_poller False [demo_fs] = Some (p', h', fl', Inr Restarting)"
    using demo_cycle by auto
  show ?thesis using poll_acts_only_through_gates [OF r] r by blast
qed

text \<open>
  C11. Two things hold unattended updates back. While the cloud's override is managed no cycle
  touches the disk or restarts, whatever the clock, the manifest or the local configuration. And
  a cycle that does go on to an apply applies the version of the manifest it fetched, which is
  not the one of the reverted record: a version reverted because the binary itself was bad is
  never applied again, one reverted at its deadline only after the cooldown, and a record that
  cannot be read stops the cycle.
\<close>

theorem poll_held_back:
  assumes "run_cycle pf e p in_progress h = Some (p', h', fl', r)"
  shows "(h' = h \<and> fl' = in_progress \<and> r \<noteq> Inr Restarting) \<or>
    (remote_override p \<noteq> Some Managed \<and>
     (\<exists>path l man a rv. config_path_of (pe_session e) (pl_config_path p) = Inr path \<and>
        l = settings_from_json (read_update_section (pf_parse pf) (pe_cfg e) (hd h) path) \<and>
        fetch_manifest (pf_fpu pf) (pf_parse pf) (pe_http e) (us_channel l) = Some man \<and>
        rq_version (poll_request pf p l man) = mf_version man \<and>
        apply_with_watchdog (pf_build pf) (pf_dump pf) (pf_sha pf) (pe_apply e) (poll_request pf p l man) in_progress h =
          Some (h', fl', a) \<and>
        last_reverted (pf_parse pf) (hd h) (pl_state_dir p) = Inr rv \<and>
        (\<forall>v. rv = Some v \<and> rv_version v = mf_version man \<longrightarrow>
           rv_reason v = ''deadline'' \<and> REVERTED_RETRY_COOLDOWN_S \<le> as_int64 (pe_now_revert e - rv_at v))))"
  using assms
proof (cases rule: run_cycle_cases)
  case quiet
  then show ?thesis by simp
next
  case (applied path l man a)
  note g = applied(3) [unfolded poll_gates_def]
  then obtain rv where rv: "last_reverted (pf_parse pf) (hd h) (pl_state_dir p) = Inr rv"
    "\<forall>r. rv = Some r \<longrightarrow> \<not> skip_reverted_version r (mf_version man) (pe_now_revert e) REVERTED_RETRY_COOLDOWN_S" by blast
  have "\<forall>v. rv = Some v \<and> rv_version v = mf_version man \<longrightarrow>
      rv_reason v = ''deadline'' \<and> REVERTED_RETRY_COOLDOWN_S \<le> as_int64 (pe_now_revert e - rv_at v)"
    using rv(2) by (auto simp: skip_reverted_version_def split: if_splits)
  moreover have "remote_override p \<noteq> Some Managed" using g by (auto simp: effective_policy_def)
  moreover have "rq_version (poll_request pf p l man) = mf_version man" by (simp add: poll_request_def)
  ultimately show ?thesis using applied(1,2,4) g rv(1) by blast
qed

theorem poll_held_back_witness:
  "\<exists>p' h' r. run_cycle demo_platform demo_poll demo_poller False [reverted_fs] = Some (p', h', False, r) \<and> h' = [reverted_fs]"
proof -
  obtain p' h' r where run: "run_cycle demo_platform demo_poll demo_poller False [reverted_fs] = Some (p', h', False, r)"
    using demo_reverted_cycle by auto
  have v: "last_reverted (pf_parse demo_platform) reverted_fs ''/etc/t'' =
      Inr (Some \<lparr>rv_version = ''v1.8.0'', rv_restored = [], rv_reason = ''crash_loop'', rv_at = 0\<rparr>)"
    by code_simp
  have d: "pl_state_dir demo_poller = ''/etc/t''" by (simp add: demo_poller_def new_poller_def)
  show ?thesis
    using poll_held_back [OF run] v d demo_manifest_fetch run by fastforce
qed

text \<open>
  The cadence stays within its bounds on every platform: with settings as the parser
  returns them the wait grows with the random number and lies between the two extremes of
  the jitter, which in exact arithmetic are nine and eleven tenths of the interval; the
  first wait is at most half an hour.
\<close>

theorem cadence_bounds:
  assumes "ieee F" and "0 \<le> check_interval_h"
  shows "normal_poll_delay_s F check_interval_h 0 \<le> normal_poll_delay_s F check_interval_h u \<and>
    normal_poll_delay_s F check_interval_h u \<le> normal_poll_delay_s F check_interval_h 1 \<and>
    0 \<le> first_poll_delay_s F u \<and> first_poll_delay_s F u \<le> first_poll_delay_s F 1 \<and>
    normal_poll_delay_s exact_fpu check_interval_h 0 = of_int check_interval_h * 3240 \<and>
    normal_poll_delay_s exact_fpu check_interval_h 1 = of_int check_interval_h * 3960 \<and>
    first_poll_delay_s exact_fpu 1 = 1800"
proof -
  have c: "clamp01 0 = 0" "clamp01 1 = 1" "0 \<le> clamp01 u" "clamp01 u \<le> 1"
    using clamp01_bounds by (simp_all add: clamp01_def)
  have t: "0 \<le> dbl F (2 / 10)" "0 \<le> dbl F (of_int check_interval_h * 3600)"
    using assms by (simp_all add: ieee_nonneg)
  have mono: "normal_poll_delay_s F check_interval_h v \<le> normal_poll_delay_s F check_interval_h w"
    if "clamp01 v \<le> clamp01 w" for v w
    unfolding normal_poll_delay_s_def Let_def
    using that t by (intro ieee_mono(1) [OF assms(1)] mult_left_mono add_left_mono) auto
  have first: "0 \<le> first_poll_delay_s F u \<and> first_poll_delay_s F u \<le> first_poll_delay_s F 1"
    unfolding first_poll_delay_s_def using c assms(1)
    by (intro conjI ieee_nonneg(2) ieee_mono(1) mult_right_mono mult_nonneg_nonneg) auto
  show ?thesis
    using mono [of 0 u] mono [of u 1] c first
    by (simp add: normal_poll_delay_s_def first_poll_delay_s_def exact_fpu_def)
qed

theorem cadence_bounds_witness:
  "normal_poll_delay_s grid_fpu 6 0 \<le> normal_poll_delay_s grid_fpu 6 (1 / 3) \<and>
   first_poll_delay_s grid_fpu (1 / 3) \<le> first_poll_delay_s grid_fpu 1"
  using cadence_bounds [of grid_fpu 6 "1 / 3"] by simp

end
