(* ===== verification/Monitoring.thy ===== *)
theory Monitoring
  imports Manifest
begin

text \<open>
  The monitoring extension (\<open>src/thinr/extensions/monitoring.hpp\<close>, \<open>monitoring.cpp\<close>) as
  built for Linux and Android: the samples read from \<open>/proc\<close>, the rates computed from two
  of them with the 64-bit wrap-around of the code, and the payload of the resource. The
  contents of \<open>/proc\<close>, the clock and the answers of the system calls are inputs. The
  Apple variants are in \<open>Monitoring_Apple\<close>. A counter beyond 64 bits makes
  an extraction fail; the saturated value the library leaves behind is not kept.
\<close>

section \<open>Samples\<close>

record cpu_sample =
  cs_user :: "64 word"
  cs_nice :: "64 word"
  cs_system :: "64 word"
  cs_idle :: "64 word"
  cs_iowait :: "64 word"
  cs_irq :: "64 word"
  cs_softirq :: "64 word"
  cs_steal :: "64 word"

definition no_cpu :: cpu_sample where
  "no_cpu = \<lparr>cs_user = 0, cs_nice = 0, cs_system = 0, cs_idle = 0, cs_iowait = 0, cs_irq = 0,
     cs_softirq = 0, cs_steal = 0\<rparr>"

definition cpu_total :: "cpu_sample \<Rightarrow> 64 word" where
  "cpu_total s = cs_user s + cs_nice s + cs_system s + cs_idle s + cs_iowait s + cs_irq s +
     cs_softirq s + cs_steal s"

definition cpu_active :: "cpu_sample \<Rightarrow> 64 word" where
  "cpu_active s = cpu_total s - cs_idle s - cs_iowait s"

record net_sample =
  ns_rx :: "64 word"
  ns_tx :: "64 word"
  ns_valid :: bool
  ns_time :: int

record sys_info =
  si_unit :: "64 word"
  si_totalram :: "64 word"
  si_freeram :: "64 word"
  si_bufferram :: "64 word"
  si_totalswap :: "64 word"
  si_freeswap :: "64 word"
  si_loads :: "64 word list"
  si_uptime :: int
  si_procs :: nat

text \<open>What the system shows at one instant; \<open>None\<close> is a file that cannot be opened or a call that fails.\<close>

record proc =
  pr_android :: bool
  pr_now :: int
  pr_stat :: "string option"
  pr_temp :: "string option"
  pr_meminfo :: "string option"
  pr_netdev :: "string option"
  pr_uptime :: "string option"
  pr_dirs :: "(string \<times> bool) list"
  pr_loads :: "(rat \<times> rat \<times> rat) option"
  pr_sysinfo :: "sys_info option"
  pr_space :: "string \<Rightarrow> (64 word \<times> 64 word) option"
  pr_cores :: nat
  pr_home :: "string option"

definition read_cpu_sample :: "proc \<Rightarrow> cpu_sample" where
  "read_cpu_sample p =
     (case pr_stat p of
        None \<Rightarrow> no_cpu
      | Some text \<Rightarrow>
          let after_label = dropWhile (\<lambda>c. \<not> is_space c) (dropWhile is_space text);
              v = map word_of_int (extract_many 8 after_label)
          in \<lparr>cs_user = v ! 0, cs_nice = v ! 1, cs_system = v ! 2, cs_idle = v ! 3, cs_iowait = v ! 4,
              cs_irq = v ! 5, cs_softirq = v ! 6, cs_steal = v ! 7\<rparr>)"

section \<open>State\<close>

record monitoring =
  mo_prev_cpu :: cpu_sample
  mo_prev_cpu_ts :: int
  mo_cached_cpu :: rat
  mo_cpu_available :: bool
  mo_prev_net :: net_sample
  mo_disk_paths :: "string smap"
  mo_system_info :: json
  mo_agent_info :: json

text \<open>Nanoseconds of the steady clock; the window is fifteen seconds.\<close>

definition MIN_WINDOW :: int where "MIN_WINDOW = 15 * 1000000000"

definition double_of :: "fpu \<Rightarrow> 64 word \<Rightarrow> rat" where
  "double_of F w = dbl F (of_nat (unat w))"

definition percent :: "fpu \<Rightarrow> 64 word \<Rightarrow> 64 word \<Rightarrow> rat" where
  "percent F part whole = dbl F (dbl F (double_of F part / double_of F whole) * 100)"

text \<open>Of a sample \<open>cur\<close> taken at the instant \<open>now\<close>; the sample is taken outside the window only.\<close>

definition cpu_from :: "fpu \<Rightarrow> int \<Rightarrow> cpu_sample \<Rightarrow> monitoring \<Rightarrow> monitoring \<times> rat" where
  "cpu_from F now cur m =
     (if now - mo_prev_cpu_ts m < MIN_WINDOW then (m, mo_cached_cpu m)
      else
        let total_delta = cpu_total cur - cpu_total (mo_prev_cpu m);
            active_delta = cpu_active cur - cpu_active (mo_prev_cpu m);
            m = m\<lparr>mo_prev_cpu := cur, mo_prev_cpu_ts := now\<rparr>
        in if total_delta = 0 then (m, mo_cached_cpu m)
           else
             let usage = percent F active_delta total_delta
             in (m\<lparr>mo_cached_cpu := usage\<rparr>, usage))"

definition collect_cpu :: "fpu \<Rightarrow> proc \<Rightarrow> monitoring \<Rightarrow> monitoring \<times> rat" where
  "collect_cpu F p m = cpu_from F (pr_now p) (read_cpu_sample p) m"

definition read_cpu_temperature :: "fpu \<Rightarrow> proc \<Rightarrow> rat" where
  "read_cpu_temperature F p =
     (case pr_temp p of
        None \<Rightarrow> - 1
      | Some text \<Rightarrow>
          (case take_number text of
             None \<Rightarrow> 0
           | Some (sg, n, _) \<Rightarrow> dbl F (dbl F (of_int (sg * n)) / 1000)))"

section \<open>Memory\<close>

definition uint_json :: "64 word \<Rightarrow> json" where
  "uint_json w = JUint (uint w)"

definition memory_json :: "fpu \<Rightarrow> 64 word \<Rightarrow> 64 word \<Rightarrow> 64 word \<Rightarrow> 64 word \<Rightarrow> json" where
  "memory_json F tot available swap_total swap_free =
     jobj ([(''total'', uint_json tot), (''available'', uint_json available),
            (''usage'', JFloat (if tot > 0 then percent F (tot - available) tot else 0))] @
           (if swap_total > 0 then
              [(''swap'', jobj [(''total'', uint_json swap_total), (''free'', uint_json swap_free),
                 (''usage'', JFloat (percent F (swap_total - swap_free) swap_total))])]
            else []))"

text \<open>The value after a label at the start of a line; the last such line counts.\<close>

definition labelled :: "string \<Rightarrow> string list \<Rightarrow> 64 word" where
  "labelled label ls =
     fold (\<lambda>l acc. if starts_with label l
                    then (case extract_u64 (drop (length label) l) of Some (v, _) \<Rightarrow> word_of_int v | None \<Rightarrow> 0)
                    else acc) ls 0"

definition collect_memory :: "fpu \<Rightarrow> proc \<Rightarrow> json" where
  "collect_memory F p =
     (case pr_meminfo p of
        None \<Rightarrow>
          if \<not> pr_android p then JNull
          else (case pr_sysinfo p of
                  None \<Rightarrow> JNull
                | Some i \<Rightarrow>
                    let unit = (if si_unit i \<noteq> 0 then si_unit i else 1)
                    in memory_json F (si_totalram i * unit) ((si_freeram i + si_bufferram i) * unit)
                         (si_totalswap i * unit) (si_freeswap i * unit))
      | Some text \<Rightarrow>
          let ls = getlines text
          in memory_json F (labelled ''MemTotal:'' ls * 1024) (labelled ''MemAvailable:'' ls * 1024)
               (labelled ''SwapTotal:'' ls * 1024) (labelled ''SwapFree:'' ls * 1024))"

section \<open>Disks, load, uptime, processes\<close>

definition set_disk_paths :: "proc \<Rightarrow> string smap \<Rightarrow> monitoring \<Rightarrow> monitoring" where
  "set_disk_paths p paths m =
     (if paths = [] then
        m\<lparr>mo_disk_paths := [(''root'',
          if pr_android p then (case pr_home p of Some (c # cs) \<Rightarrow> c # cs | _ \<Rightarrow> ''/data'') else ''/'')]\<rparr>
      else m\<lparr>mo_disk_paths := paths\<rparr>)"

definition obj_or_null :: "(string \<times> json) list \<Rightarrow> json" where
  "obj_or_null kvs = (if kvs = [] then JNull else jobj kvs)"

definition disk_json :: "fpu \<Rightarrow> 64 word \<Rightarrow> 64 word \<Rightarrow> json" where
  "disk_json F capacity available =
     jobj [(''total'', uint_json capacity), (''available'', uint_json available),
       (''usage'', JFloat (if capacity > 0 then percent F (capacity - available) capacity else 0))]"

definition collect_disk :: "fpu \<Rightarrow> proc \<Rightarrow> monitoring \<Rightarrow> json" where
  "collect_disk F p m =
     obj_or_null (concat (map (\<lambda>(name, path).
       case pr_space p path of None \<Rightarrow> [] | Some (cap, av) \<Rightarrow> [(name, disk_json F cap av)]) (mo_disk_paths m)))"

definition collect_load :: "fpu \<Rightarrow> proc \<Rightarrow> json" where
  "collect_load F p =
     (if pr_android p then
        (case pr_sysinfo p of
           None \<Rightarrow> JNull
         | Some i \<Rightarrow>
             (let l = (\<lambda>n. JFloat (dbl F (double_of F (si_loads i ! n) / 65536)))
              in jobj [(''1m'', l 0), (''5m'', l 1), (''15m'', l 2)]))
      else
        (case pr_loads p of
           None \<Rightarrow> JNull
         | Some (a, b, c) \<Rightarrow> jobj [(''1m'', JFloat a), (''5m'', JFloat b), (''15m'', JFloat c)]))"

text \<open>A decimal number without exponent, as the kernel writes it.\<close>

definition extract_decimal :: "string \<Rightarrow> rat option" where
  "extract_decimal s =
     (let s = dropWhile is_space s; ip = takeWhile is_digit s; rest = drop (length ip) s in
      if ip = [] then None
      else case rest of
             c # cs \<Rightarrow>
               if c = CHR ''.'' then
                 (let fp = takeWhile is_digit cs in
                  Some (of_int (dec_number 0 ip) + of_int (dec_number 0 fp) / 10 ^ length fp))
               else Some (of_int (dec_number 0 ip))
           | [] \<Rightarrow> Some (of_int (dec_number 0 ip)))"

definition collect_uptime :: "fpu \<Rightarrow> proc \<Rightarrow> int" where
  "collect_uptime F p =
     (case Option.bind (pr_uptime p) extract_decimal of
        Some secs \<Rightarrow> as_uint64 (trunc_rat (dbl F secs))
      | None \<Rightarrow>
          if pr_android p then (case pr_sysinfo p of Some i \<Rightarrow> as_uint64 (si_uptime i) | None \<Rightarrow> 0) else 0)"

definition collect_processes :: "proc \<Rightarrow> nat" where
  "collect_processes p =
     (if pr_android p then (case pr_sysinfo p of Some i \<Rightarrow> si_procs i | None \<Rightarrow> 0)
      else length (filter (\<lambda>(name, is_dir). is_dir \<and> name \<noteq> [] \<and> is_digit (hd name)) (pr_dirs p)) mod 4294967296)"

section \<open>Network\<close>

text \<open>One line of \<open>/proc/net/dev\<close> after the two header lines: received and sent bytes.\<close>

definition net_line :: "string \<Rightarrow> (64 word \<times> 64 word) option" where
  "net_line line =
     (case find_first (\<lambda>c. c = CHR '':'') line of
        None \<Rightarrow> None
      | Some colon \<Rightarrow>
          let iface = take colon line;
              trimmed = dropWhile (\<lambda>c. c = CHR '' '') iface;
              iface = (if trimmed = [] then iface else trimmed);
              v = extract_many 9 (drop (Suc colon) line)
          in if iface = ''lo'' then None else Some (word_of_int (v ! 0), word_of_int (v ! 8)))"

definition read_network_sample :: "proc \<Rightarrow> net_sample" where
  "read_network_sample p =
     (case pr_netdev p of
        None \<Rightarrow> \<lparr>ns_rx = 0, ns_tx = 0, ns_valid = False, ns_time = pr_now p\<rparr>
      | Some text \<Rightarrow>
          fold (\<lambda>l s. case net_line l of
                        None \<Rightarrow> s
                      | Some (rx, tx) \<Rightarrow> s\<lparr>ns_rx := ns_rx s + rx, ns_tx := ns_tx s + tx\<rparr>)
            (drop 2 (getlines text))
            \<lparr>ns_rx = 0, ns_tx = 0, ns_valid = True, ns_time = pr_now p\<rparr>)"

definition rate :: "fpu \<Rightarrow> 64 word \<Rightarrow> 64 word \<Rightarrow> rat \<Rightarrow> rat" where
  "rate F cur prev elapsed = dbl F (double_of F (cur - prev) / elapsed)"

definition network_from :: "fpu \<Rightarrow> net_sample \<Rightarrow> monitoring \<Rightarrow> monitoring \<times> json" where
  "network_from F cur m =
     (if \<not> ns_valid cur then (m, JNull)
      else
        let elapsed = dbl F (of_int (ns_time cur - ns_time (mo_prev_net m)) / 1000000000);
            rates = (if elapsed > 0
                     then [(''rx_rate'', JFloat (rate F (ns_rx cur) (ns_rx (mo_prev_net m)) elapsed)),
                           (''tx_rate'', JFloat (rate F (ns_tx cur) (ns_tx (mo_prev_net m)) elapsed))]
                     else [(''rx_rate'', JFloat 0), (''tx_rate'', JFloat 0)])
        in (m\<lparr>mo_prev_net := cur\<rparr>,
            jobj (rates @ [(''rx_bytes'', uint_json (ns_rx cur)), (''tx_bytes'', uint_json (ns_tx cur))])))"

definition collect_network :: "fpu \<Rightarrow> proc \<Rightarrow> monitoring \<Rightarrow> monitoring \<times> json" where
  "collect_network F p m = network_from F (read_network_sample p) m"

section \<open>The resource\<close>

text \<open>The construction; the machine description comes from \<open>uname\<close> and the release files.\<close>

definition new_monitoring :: "proc \<Rightarrow> json \<Rightarrow> string \<Rightarrow> monitoring" where
  "new_monitoring p system_info version =
     (let cpu = read_cpu_sample p;
          m = \<lparr>mo_prev_cpu = cpu, mo_prev_cpu_ts = pr_now p, mo_cached_cpu = 0,
               mo_cpu_available = (cpu_total cpu > 0), mo_prev_net = read_network_sample p,
               mo_disk_paths = [], mo_system_info = system_info,
               mo_agent_info = jobj [(''version'', JStr version)]\<rparr>
      in set_disk_paths p [] m)"

definition collect :: "fpu \<Rightarrow> proc \<Rightarrow> monitoring \<Rightarrow> monitoring \<times> json" where
  "collect F p m =
     (let (m, usage) = (if mo_cpu_available m then (let (m, u) = collect_cpu F p m in (m, [(''usage'', JFloat u)]))
                        else (m, []));
          temp = read_cpu_temperature F p;
          cpu = jobj (usage @ [(''cores'', JUint (int (pr_cores p)))] @
                      (if temp \<ge> 0 then [(''temperature'', JFloat temp)] else []));
          (m, network) = collect_network F p m
      in (m, jobj
           ([(''system'', mo_system_info m), (''agent'', mo_agent_info m), (''cpu'', cpu),
             (''memory'', collect_memory F p), (''disk'', collect_disk F p m)] @
            (if network \<noteq> JNull then [(''network'', network)] else []) @
            [(''load'', collect_load F p), (''uptime'', JUint (collect_uptime F p)),
             (''processes'', jobj [(''total'', JUint (int (collect_processes p)))])])))"

section \<open>Lemmas\<close>

text \<open>Counters that only grow, and whose sum fits 64 bits.\<close>

definition cpu_fields :: "cpu_sample \<Rightarrow> 64 word list" where
  "cpu_fields s = [cs_user s, cs_nice s, cs_system s, cs_idle s, cs_iowait s, cs_irq s, cs_softirq s, cs_steal s]"

definition cpu_later :: "cpu_sample \<Rightarrow> cpu_sample \<Rightarrow> bool" where
  "cpu_later prev cur \<longleftrightarrow> list_all2 (\<le>) (cpu_fields prev) (cpu_fields cur) \<and>
     sum_list (map unat (cpu_fields cur)) < 18446744073709551616"

lemma unat_sum_list: "sum_list (map unat ws) < 18446744073709551616 \<Longrightarrow>
    unat (sum_list (ws :: 64 word list)) = sum_list (map unat ws)"
proof (induction ws)
  case Nil
  then show ?case by simp
next
  case (Cons w ws)
  then have "unat (sum_list ws) = sum_list (map unat ws)" by simp
  with Cons.prems show ?case by (simp add: unat_word_ariths)
qed

lemma cpu_total_sum: "cpu_total s = sum_list (cpu_fields s)"
  by (simp add: cpu_total_def cpu_fields_def algebra_simps)

lemma sum_list_later: "list_all2 (\<le>) xs ys \<Longrightarrow> sum_list (map unat xs) \<le> sum_list (map unat (ys :: 64 word list))"
proof (induction rule: list_all2_induct)
  case Nil
  then show ?case by simp
next
  case (Cons x xs y ys)
  then show ?case by (simp add: word_le_nat_alt)
qed

lemma unat_cpu_active:
  assumes "sum_list (map unat (cpu_fields s)) < 18446744073709551616"
  shows "unat (cpu_active s) = unat (cs_user s) + unat (cs_nice s) + unat (cs_system s) + unat (cs_irq s) +
    unat (cs_softirq s) + unat (cs_steal s)"
proof -
  have "cpu_active s = sum_list [cs_user s, cs_nice s, cs_system s, cs_irq s, cs_softirq s, cs_steal s]"
    by (simp add: cpu_active_def cpu_total_def algebra_simps)
  moreover have "sum_list (map unat [cs_user s, cs_nice s, cs_system s, cs_irq s, cs_softirq s, cs_steal s])
      < 18446744073709551616"
    using assms by (simp add: cpu_fields_def)
  ultimately have "unat (cpu_active s) =
      sum_list (map unat [cs_user s, cs_nice s, cs_system s, cs_irq s, cs_softirq s, cs_steal s])"
    by (simp only: unat_sum_list)
  then show ?thesis by simp
qed

lemma unat_diff: "a \<le> b \<Longrightarrow> unat (b - a) = unat b - unat (a :: 64 word)"
  by (simp add: word_le_nat_alt unat_sub)

lemma active_le_total:
  assumes "cpu_later prev cur"
  shows "unat (cpu_active cur - cpu_active prev) \<le> unat (cpu_total cur - cpu_total prev)"
proof -
  have s: "sum_list (map unat (cpu_fields prev)) \<le> sum_list (map unat (cpu_fields cur))"
    "sum_list (map unat (cpu_fields cur)) < 18446744073709551616"
    using assms sum_list_later by (auto simp: cpu_later_def)
  have le: "cs_user prev \<le> cs_user cur" "cs_nice prev \<le> cs_nice cur" "cs_system prev \<le> cs_system cur"
    "cs_idle prev \<le> cs_idle cur" "cs_iowait prev \<le> cs_iowait cur" "cs_irq prev \<le> cs_irq cur"
    "cs_softirq prev \<le> cs_softirq cur" "cs_steal prev \<le> cs_steal cur"
    using assms by (simp_all add: cpu_later_def cpu_fields_def)
  have t: "unat (cpu_total prev) = sum_list (map unat (cpu_fields prev))"
    "unat (cpu_total cur) = sum_list (map unat (cpu_fields cur))"
    using s by (simp_all add: cpu_total_sum unat_sum_list)
  have p: "sum_list (map unat (cpu_fields prev)) < 18446744073709551616" using s by linarith
  note a = unat_cpu_active [OF p] unat_cpu_active [OF s(2)]
  have "cpu_total prev \<le> cpu_total cur" using t s(1) by (simp add: word_le_nat_alt)
  moreover have "cpu_active prev \<le> cpu_active cur" using a le by (simp add: word_le_nat_alt)
  ultimately show ?thesis
    using a t le by (simp add: unat_diff cpu_fields_def word_le_nat_alt)
qed

lemma percent_bounds:
  assumes "ieee F" and "dbl F 100 = 100" and "unat part \<le> unat whole" and "whole \<noteq> 0" and "dbl F 1 = 1"
  shows "0 \<le> percent F part whole \<and> percent F part whole \<le> 100"
proof -
  have w: "1 \<le> double_of F whole"
  proof -
    have "1 \<le> unat whole" using assms(4) by (simp add: Suc_leI unat_gt_0)
    then have "(1::rat) \<le> of_nat (unat whole)" by (metis of_nat_1 of_nat_le_iff)
    from ieee_mono(1) [OF assms(1) this] show ?thesis using assms(5) by (simp add: double_of_def)
  qed
  have p: "0 \<le> double_of F part"
    unfolding double_of_def by (rule ieee_nonneg(2) [OF assms(1)]) (rule of_nat_0_le_iff)
  have "double_of F part \<le> double_of F whole"
    unfolding double_of_def using assms(3) by (intro ieee_mono(1) [OF assms(1)]) (simp only: of_nat_le_iff)
  with w p have q: "0 \<le> double_of F part / double_of F whole" "double_of F part / double_of F whole \<le> 1"
    by simp_all
  have r: "0 \<le> dbl F (double_of F part / double_of F whole)" "dbl F (double_of F part / double_of F whole) \<le> 1"
    using ieee_nonneg(2) [OF assms(1) q(1)] ieee_le_one(2) [OF assms(1) q(2)] .
  then have "0 \<le> percent F part whole" unfolding percent_def by (intro ieee_nonneg(2) [OF assms(1)]) simp
  moreover have "percent F part whole \<le> dbl F 100"
    unfolding percent_def using r by (intro ieee_mono(1) [OF assms(1)]) simp
  ultimately show ?thesis using assms(2) by simp
qed

section \<open>Properties\<close>

text \<open>
  The CPU usage the resource reports stays between 0 and 100 as long as the kernel's
  counters grow and their sum fits 64 bits, on every platform: a read inside the fifteen
  second window, or one that finds no new ticks, repeats the last value and changes nothing.
\<close>

theorem cpu_usage_bounds:
  assumes "ieee F" and "dbl F 100 = 100" and "cpu_later (mo_prev_cpu m) (read_cpu_sample p)"
    and "0 \<le> mo_cached_cpu m" and "mo_cached_cpu m \<le> 100" and "collect_cpu F p m = (m', usage)"
  shows "0 \<le> usage \<and> usage \<le> 100 \<and> mo_cached_cpu m' = usage \<and>
    (pr_now p - mo_prev_cpu_ts m < MIN_WINDOW \<longrightarrow> m' = m \<and> usage = mo_cached_cpu m)"
proof -
  let ?cur = "read_cpu_sample p"
  have "dbl F 1 = 1" using assms(1) by (simp add: ieee_def)
  note b = percent_bounds [OF assms(1,2) active_le_total [OF assms(3)] _ this]
  show ?thesis
    using assms(4-6) b by (auto simp: collect_cpu_def cpu_from_def Let_def split: if_splits)
qed

definition demo_proc :: proc where
  "demo_proc = \<lparr>pr_android = False, pr_now = 20000000000, pr_stat = Some ''cpu  30 0 10 60 0 0 0 0 0 0'',
     pr_temp = None, pr_meminfo = None, pr_netdev = None, pr_uptime = None, pr_dirs = [], pr_loads = None,
     pr_sysinfo = None, pr_space = (\<lambda>_. None), pr_cores = 4, pr_home = None\<rparr>"

definition demo_monitoring :: monitoring where
  "demo_monitoring = \<lparr>mo_prev_cpu = no_cpu, mo_prev_cpu_ts = 0, mo_cached_cpu = 0, mo_cpu_available = True,
     mo_prev_net = \<lparr>ns_rx = 5000, ns_tx = 100, ns_valid = True, ns_time = 10000000000\<rparr>,
     mo_disk_paths = [(''root'', ''/'')], mo_system_info = JNull, mo_agent_info = JNull\<rparr>"

lemma demo_extract: "extract_many 8 (dropWhile (\<lambda>c. \<not> is_space c) (dropWhile is_space ''cpu  30 0 10 60 0 0 0 0 0 0'')) =
    [30, 0, 10, 60, 0, 0, 0, 0]"
  by code_simp

lemma demo_cpu: "read_cpu_sample demo_proc = no_cpu\<lparr>cs_user := 30, cs_system := 10, cs_idle := 60\<rparr>"
proof -
  have "pr_stat demo_proc = Some ''cpu  30 0 10 60 0 0 0 0 0 0''" by (simp add: demo_proc_def)
  then show ?thesis by (simp only: read_cpu_sample_def option.case Let_def demo_extract) (simp add: no_cpu_def)
qed

theorem cpu_usage_bounds_witness:
  "0 \<le> snd (collect_cpu exact_fpu demo_proc demo_monitoring) \<and> snd (collect_cpu exact_fpu demo_proc demo_monitoring) \<le> 100"
proof -
  have l: "cpu_later (mo_prev_cpu demo_monitoring) (read_cpu_sample demo_proc)"
    by (simp add: demo_cpu cpu_later_def cpu_fields_def demo_monitoring_def no_cpu_def)
  show ?thesis
    using cpu_usage_bounds [OF ieee_exact _ l, of "fst (collect_cpu exact_fpu demo_proc demo_monitoring)"
        "snd (collect_cpu exact_fpu demo_proc demo_monitoring)"]
    by (simp add: exact_fpu_def demo_monitoring_def)
qed

text \<open>
  The network rates are correct as long as the counters grow, and only then: when the
  sum over the interfaces goes down, as it does when an interface disappears, the 64-bit
  subtraction wraps and the reported rate is that of almost \<open>2 ^ 64\<close> bytes.
\<close>

theorem network_rate_wraps:
  assumes "0 < elapsed"
  shows "rate F cur prev elapsed =
    (if prev \<le> cur then dbl F (dbl F (of_nat (unat cur - unat prev)) / elapsed)
     else dbl F (dbl F (of_int (18446744073709551616 - int (unat prev - unat cur))) / elapsed))"
proof (cases "prev \<le> cur")
  case True
  then show ?thesis by (simp add: rate_def double_of_def unat_diff)
next
  case False
  then have "cur < prev" by simp
  then have lt: "unat cur < unat prev" by (simp add: word_less_nat_alt)
  have "unat (cur - prev) = 18446744073709551616 - (unat prev - unat cur)"
    using lt by (subst unat_sub_if_size) (simp add: word_size)
  moreover have "unat prev - unat cur < 18446744073709551616"
  proof -
    have "unat prev < 2 ^ LENGTH(64)" by (rule unsigned_less)
    then show ?thesis by simp
  qed
  ultimately have "int (unat (cur - prev)) = 18446744073709551616 - int (unat prev - unat cur)"
    by (simp add: of_nat_diff)
  then have "(of_nat (unat (cur - prev)) :: rat) = of_int (18446744073709551616 - int (unat prev - unat cur))"
    by (metis of_int_of_nat_eq)
  with False show ?thesis by (simp add: rate_def double_of_def)
qed

theorem network_rate_wraps_witness:
  "rate exact_fpu 4000 5000 10 = of_int (18446744073709551616 - int (unat (5000 :: 64 word) - unat (4000 :: 64 word))) / 10"
  by (subst network_rate_wraps) (simp_all add: exact_fpu_def)

end
