(* ===== verification/Agent.thy ===== *)
theory Agent
  imports Watchdog Poller Monitoring
begin

text \<open>
  The agent object (\<open>src/thinr/agent/agent.hpp\<close>, \<open>agent.cpp\<close>): the order of its
  construction, with the early boot check before anything else, the wiring of the watchdog
  and the poller to the dispatcher, the remote configuration property, and the order of
  \<open>stop\<close>. The terminal, command, proxy and file-system extensions belong to the client
  library; here they are only present or absent.
\<close>

datatype agent_observer = WatchdogObserver | PollerObserver

record agent =
  ag_credentials :: credentials
  ag_state_dir :: string
  ag_verify_tls :: bool
  ag_dispatcher :: "agent_observer dispatcher option"
  ag_watchdog :: "watchdog option"
  ag_watchdog_sub :: subscription
  ag_poller :: "poller option"
  ag_poller_sub :: subscription
  ag_monitoring :: "monitoring option"
  ag_updater :: bool
  ag_extensions :: "string list"

record agent_env =
  an_session :: session
  an_wd :: wd_env
  an_insecure :: "string option"
  an_proc :: proc
  an_system_info :: json

definition agent_state_dir :: "session \<Rightarrow> string \<Rightarrow> string res" where
  "agent_state_dir se config_path =
     (if config_path = [] then rbind (default_config_path se) (\<lambda>p. Inr (parent_path p))
      else Inr (parent_path config_path))"

text \<open>\<open>THINR_INSECURE\<close> set to a non-empty value turns the verification off.\<close>

definition agent_verify_tls :: "credentials \<Rightarrow> string option \<Rightarrow> bool" where
  "agent_verify_tls c insecure =
     (cr_verify_ssl c \<and> \<not> (case insecure of Some v \<Rightarrow> v \<noteq> [] | None \<Rightarrow> False))"

definition CORE_EXTENSIONS :: "string list" where
  "CORE_EXTENSIONS = [''scripts'', ''shell'', ''cmd'', ''cmd_stream'', ''proxy'', ''filesystem'']"

text \<open>The constructor after the boot check and the check of the credentials.\<close>

definition agent_wire :: "platform \<Rightarrow> agent_env \<Rightarrow> credentials \<Rightarrow> string \<Rightarrow> string \<Rightarrow> fs \<Rightarrow> agent res" where
  "agent_wire pf e c config_path state_dir s =
     (let b = pf_build pf; d0 = new_dispatcher in
      rbind (new_watchdog (pf_parse pf) s state_dir (agent_version b)) (\<lambda>w.
        let (d1, ws) = subscribe WatchdogObserver d0;
            (d2, ps) = (if android b then (d1, no_subscription) else subscribe PollerObserver d1)
        in Inr \<lparr>ag_credentials = c, ag_state_dir = state_dir, ag_verify_tls = agent_verify_tls c (an_insecure e),
             ag_dispatcher = Some d2, ag_watchdog = Some w, ag_watchdog_sub = ws,
             ag_poller = (if android b then None
                          else Some (new_poller (cr_id c) config_path state_dir (agent_version b))),
             ag_poller_sub = ps,
             ag_monitoring = Some (new_monitoring (an_proc e) (an_system_info e) (agent_version b)),
             ag_updater = (\<not> android b), ag_extensions = CORE_EXTENSIONS\<rparr>))"

definition new_agent :: "platform \<Rightarrow> agent_env \<Rightarrow> credentials \<Rightarrow> string \<Rightarrow> history \<Rightarrow> (history \<times> agent res) option" where
  "new_agent pf e c config_path h =
     (case agent_state_dir (an_session e) config_path of
        Inl x \<Rightarrow> Some (h, Inl x)
      | Inr state_dir \<Rightarrow>
          (case check_boot (pf_parse pf) (pf_dump pf) (an_wd e) state_dir (agent_version (pf_build pf)) h of
             None \<Rightarrow> None
           | Some (h', Inl x) \<Rightarrow> Some (h', Inl x)
           | Some (h', Inr RevertedExit) \<Rightarrow> Some (h', Inl RevertedRestart)
           | Some (h', Inr Proceed) \<Rightarrow>
               if \<not> cr_is_valid c then Some (h', Inl (InvalidArgument ''Invalid device credentials''))
               else Some (h', agent_wire pf e c config_path state_dir (hd h'))))"

text \<open>\<open>stop\<close>: watchdog and poller first, then the extensions, the dispatcher last.\<close>

definition agent_stop :: "agent \<Rightarrow> agent" where
  "agent_stop a =
     (case ag_dispatcher a of
        None \<Rightarrow> a\<lparr>ag_watchdog := None, ag_poller := None, ag_monitoring := None, ag_updater := False, ag_extensions := []\<rparr>
      | Some d \<Rightarrow>
          let (d, ws) = sub_reset (ag_watchdog_sub a) d;
              a = a\<lparr>ag_watchdog := None, ag_watchdog_sub := ws\<rparr>;
              (d, ps) = sub_reset (ag_poller_sub a) d;
              a = a\<lparr>ag_poller := None, ag_poller_sub := ps\<rparr>;
              a = a\<lparr>ag_monitoring := None, ag_updater := False, ag_extensions := []\<rparr>
          in a\<lparr>ag_dispatcher := None\<rparr>)"

section \<open>Remote configuration\<close>

definition valid_disk_path :: "string \<Rightarrow> bool" where
  "valid_disk_path p \<longleftrightarrow> \<not> (p = [] \<or> hd p \<noteq> CHR ''/'' \<or> contains_sub ''..'' p)"

definition disk_paths_of :: "json smap \<Rightarrow> string smap" where
  "disk_paths_of disks =
     fold (\<lambda>(name, path) acc. case path of JStr p \<Rightarrow> if valid_disk_path p then smap_put name p acc else acc | _ \<Rightarrow> acc)
       disks []"

definition apply_monitoring_config :: "proc \<Rightarrow> json \<Rightarrow> agent \<Rightarrow> agent" where
  "apply_monitoring_config pr config a =
     (case jfind config ''monitoring'' of
        None \<Rightarrow> a
      | Some mon \<Rightarrow>
          (case ag_monitoring a of
             None \<Rightarrow> a
           | Some m \<Rightarrow>
               (case jfind mon ''disks'' of
                  Some (JObj disks) \<Rightarrow> a\<lparr>ag_monitoring := Some (set_disk_paths pr (disk_paths_of disks) m)\<rparr>
                | _ \<Rightarrow> a)))"

definition apply_update_config :: "json \<Rightarrow> agent \<Rightarrow> agent" where
  "apply_update_config config a =
     (case ag_poller a of
        None \<Rightarrow> a
      | Some p \<Rightarrow>
          (case jfind config ''update'' of
             None \<Rightarrow> a\<lparr>ag_poller := Some (set_remote_policy None p)\<rparr>
           | Some u \<Rightarrow>
               (case jfind u ''policy'' of
                  Some (JStr t) \<Rightarrow>
                    (case policy_from_string t of
                       Some q \<Rightarrow> a\<lparr>ag_poller := Some (set_remote_policy (Some q) p)\<rparr>
                     | None \<Rightarrow> a)
                | _ \<Rightarrow> a)))"



section \<open>Lemmas\<close>


lemma monitoring_config_poller [simp]: "ag_poller (apply_monitoring_config pr config a) = ag_poller a"
  by (simp add: apply_monitoring_config_def split: option.splits json.splits)

lemma update_config_monitoring [simp]: "ag_monitoring (apply_update_config config a) = ag_monitoring a"
  by (simp add: apply_update_config_def split: option.splits json.splits)





section \<open>Properties\<close>








text \<open>
  C9. A new binary on trial never runs unwatched: when the boot check let an armed start
  through and the constructor returned, the agent has a watchdog that is armed for the same
  update with the attempt of this start counted, and its observer is registered first.
\<close>

theorem trial_is_watched:
  assumes "new_agent pf e c config_path h = Some (h', Inr a)" and "agent_state_dir (an_session e) config_path = Inr d"
    and "json_text (pf_parse pf) (pf_dump pf)" and "marker_ok m" and "h \<noteq> []"
    and "data_of (hd h) (state_file d) = Some (marker_dump (pf_dump pf) m)"
    and "um_phase m = Pending" and "0 \<le> um_attempts m" and "um_attempts m < 3" and "um_to m = agent_version (pf_build pf)"
    and "wa_works (we_write_marker (an_wd e)) (marker_dump (pf_dump pf) (m\<lparr>um_attempts := um_attempts m + 1\<rparr>))"
  shows "\<exists>w. ag_watchdog a = Some w \<and> wd_armed w \<and> \<not> wd_resolved w \<and>
    wd_marker w = m\<lparr>um_attempts := um_attempts m + 1\<rparr> \<and>
    (\<exists>dp. ag_dispatcher a = Some dp \<and> hd (map snd (dp_observers dp)) = WatchdogObserver)"
proof -
  let ?m = "m\<lparr>um_attempts := um_attempts m + 1\<rparr>"
  obtain h1 where b: "check_boot (pf_parse pf) (pf_dump pf) (an_wd e) d (um_to m) h = Some (h1, Inr Proceed)"
    "data_of (hd h1) (state_file d) = Some (marker_dump (pf_dump pf) ?m)"
    using check_boot_arm [OF assms(3,4,6-9,11,5)] by blast
  have "in_int32 (um_attempts m + 1)" using assms(8,9) by (simp add: in_int32_def)
  then have "read_marker_file (pf_parse pf) (hd h1) (state_file d) = Inr (Some ?m)"
    by (intro read_marker [OF assms(3) marker_ok_attempts [OF assms(4)] b(2)])
  then have w: "\<exists>w. new_watchdog (pf_parse pf) (hd h1) d (agent_version (pf_build pf)) = Inr w \<and> wd_armed w \<and>
      \<not> wd_resolved w \<and> wd_marker w = ?m"
    using assms(7,10) by (simp add: new_watchdog_def)
  have "agent_wire pf e c config_path d (hd h1) = Inr a"
    using assms(1,2,10) b(1) by (auto simp: new_agent_def split: if_splits)
  with w show ?thesis
    by (auto simp: agent_wire_def Let_def subscribe_def new_dispatcher_def split: if_splits)
qed

definition trial_platform :: platform where
  "trial_platform = demo_platform\<lparr>pf_build := demo_build\<lparr>agent_version := ''v1.8.0''\<rparr>,
     pf_parse := ref_parse, pf_dump := ref_dump\<rparr>"

definition trial_env :: agent_env where
  "trial_env = \<lparr>an_session = pe_session demo_poll, an_wd = demo_boot 1, an_insecure = None,
     an_proc = demo_proc, an_system_info = JNull\<rparr>"

lemma demo_armed_disk:
  "data_of (hd [demo_disk (marker_dump ref_dump demo_marker)]) (state_file ''/etc/t'') = Some (marker_dump ref_dump demo_marker)"
  by (simp add: demo_disk_def data_of_def demo_state_file)

lemma demo_marker_sel:
  "um_phase demo_marker = Pending" "um_attempts demo_marker = 0" "um_to demo_marker = ''v1.8.0''"
  by (simp_all add: demo_marker_def)

lemma demo_boot_works:
  "wa_works (we_write_marker (demo_boot 1)) (marker_dump ref_dump (demo_marker\<lparr>um_attempts := um_attempts demo_marker + 1\<rparr>))"
  by (simp add: demo_boot_def demo_marker_sel)

lemma trial_agent:
  "\<exists>h' a. new_agent trial_platform trial_env demo_credentials ''/etc/t/config.json''
     [demo_disk (marker_dump ref_dump demo_marker)] = Some (h', Inr a)"
proof -
  let ?h = "[demo_disk (marker_dump ref_dump demo_marker)]"
  obtain h1 where b: "check_boot ref_parse ref_dump (demo_boot 1) ''/etc/t'' (um_to demo_marker) ?h = Some (h1, Inr Proceed)"
    "data_of (hd h1) (state_file ''/etc/t'') = Some (marker_dump ref_dump (demo_marker\<lparr>um_attempts := um_attempts demo_marker + 1\<rparr>))"
    using check_boot_arm [OF json_text_ref demo_marker_ok demo_armed_disk demo_marker_sel(1), of "demo_boot 1"]
      demo_boot_works demo_marker_sel by auto
  have "read_marker_file ref_parse (hd h1) (state_file ''/etc/t'') = Inr (Some (demo_marker\<lparr>um_attempts := um_attempts demo_marker + 1\<rparr>))"
    by (rule read_marker [OF json_text_ref marker_ok_attempts [OF demo_marker_ok] b(2)])
       (simp add: in_int32_def demo_marker_sel)
  then have "\<exists>w. new_watchdog ref_parse (hd h1) ''/etc/t'' ''v1.8.0'' = Inr w"
    by (simp add: new_watchdog_def demo_marker_sel)
  moreover have "agent_state_dir (an_session trial_env) ''/etc/t/config.json'' = Inr ''/etc/t''"
    by (simp add: agent_state_dir_def parent_path_def drop_slashes_def)
  moreover have "cr_is_valid demo_credentials" by (simp add: cr_is_valid_def demo_credentials_def)
  ultimately show ?thesis
    using b(1) demo_marker_sel
    by (auto simp: new_agent_def agent_wire_def trial_platform_def demo_build_def trial_env_def Let_def split_def)
qed

theorem trial_is_watched_witness:
  "\<exists>h' a w. new_agent trial_platform trial_env demo_credentials ''/etc/t/config.json''
     [demo_disk (marker_dump ref_dump demo_marker)] = Some (h', Inr a) \<and> ag_watchdog a = Some w \<and> wd_armed w"
proof -
  obtain h' a where a: "new_agent trial_platform trial_env demo_credentials ''/etc/t/config.json''
     [demo_disk (marker_dump ref_dump demo_marker)] = Some (h', Inr a)" using trial_agent by blast
  have d: "agent_state_dir (an_session trial_env) ''/etc/t/config.json'' = Inr ''/etc/t''"
    by (simp add: agent_state_dir_def parent_path_def drop_slashes_def)
  have p: "pf_parse trial_platform = ref_parse" "pf_dump trial_platform = ref_dump" "an_wd trial_env = demo_boot 1"
    "agent_version (pf_build trial_platform) = ''v1.8.0''"
    by (simp_all add: trial_platform_def trial_env_def)
  show ?thesis
    using trial_is_watched [OF a d, of demo_marker] a demo_armed_disk demo_boot_works demo_marker_sel
    by (auto simp: p json_text_ref demo_marker_ok)
qed

text \<open>
  After \<open>stop\<close> nothing of the agent can be called back: both subscriptions were removed
  from the dispatcher before it went away, and watchdog, poller and extensions are gone.
\<close>

theorem stop_detaches_everything:
  assumes "agent_wire pf e c config_path d s = Inr a"
  shows "\<exists>dp. ag_dispatcher a = Some dp \<and>
    dp_observers (fst (sub_reset (ag_poller_sub a) (fst (sub_reset (ag_watchdog_sub a) dp)))) = [] \<and>
    ag_dispatcher (agent_stop a) = None \<and> ag_watchdog (agent_stop a) = None \<and> ag_poller (agent_stop a) = None \<and>
    ag_monitoring (agent_stop a) = None \<and> ag_extensions (agent_stop a) = [] \<and>
    \<not> sb_owner (ag_watchdog_sub (agent_stop a)) \<and> \<not> sb_owner (ag_poller_sub (agent_stop a))"
  using assms
  by (auto simp: agent_wire_def agent_stop_def rbind_eq_Inr Let_def subscribe_def new_dispatcher_def sub_reset_def
      unsubscribe_def no_subscription_def split: if_splits prod.splits)

theorem stop_detaches_everything_witness:
  "\<exists>a. agent_wire demo_platform trial_env demo_credentials [] ''/etc/t'' demo_fs = Inr a \<and> ag_dispatcher (agent_stop a) = None"
proof -
  have "data_of demo_fs (state_file ''/etc/t'') = None" by (simp add: demo_state_file demo_fs_def data_of_def)
  then obtain a where a: "agent_wire demo_platform trial_env demo_credentials [] ''/etc/t'' demo_fs = Inr a"
    by (auto simp: agent_wire_def new_watchdog_def read_marker_file_def Let_def split_def)
  with stop_detaches_everything [OF a] show ?thesis by blast
qed

end
