(* ===== verification/Lifecycle.thy ===== *)
theory Lifecycle
  imports Watchdog
begin

text \<open>
  What the updater and the watchdog promise together, as a small machine on what is installed:
  a settled binary, a new one on trial with its backup, one that was restored. Every operation
  that touches the disk (\<open>apply_with_watchdog\<close>, \<open>check_boot\<close>, \<open>on_state\<close> and the deadline), run to
  its end or cut short by a power failure after any of its system calls, is a step of that
  machine on what the disk shows.
\<close>

section \<open>The machine\<close>

text \<open>
  \<open>Stale\<close>: a pending marker lies beside a binary it is not about, because the swap had not taken
  place yet or was undone before its record. \<open>Exposed\<close>: a binary whose marker outlived its
  backup. \<open>Mislabelled\<close>: a binary that was installed, its predecessor kept, but whose version is
  not the announced one (the updater only warns), so that its marker is not about it.
\<close>

datatype lifecycle = Settled string | Stale string | Trial string string nat | Exposed string nat | Restored string
  | Mislabelled string string

text \<open>What happens to the installation: every move of the machine has its occasion.\<close>

datatype life_event = Installing | Starting | Ready | Refused | Expiring | Quiet

definition gives_up :: "life_event \<Rightarrow> nat \<Rightarrow> bool" where
  "gives_up ev n \<longleftrightarrow> ev = Refused \<or> ev = Expiring \<or> ev = Starting \<and> n = 3"

inductive life_step :: "(string \<Rightarrow> string) \<Rightarrow> life_event \<Rightarrow> lifecycle \<Rightarrow> lifecycle \<Rightarrow> bool" for ver where
  stay: "life_step ver ev L L"
| announced: "life_step ver Installing (Settled b) (Stale b)"
| swapped: "ver new \<noteq> ver old \<Longrightarrow> life_step ver Installing (Settled old) (Trial new old 0)"
| mislabelled: "life_step ver Installing (Settled old) (Mislabelled new old)"
| cleared: "life_step ver Starting (Stale b) (Settled b)"
| cleared_mislabelled: "life_step ver Starting (Mislabelled new old) (Settled new)"
| uncovered_mislabelled: "life_step ver Starting (Mislabelled new old) (Stale new)"
| counted: "n < 3 \<Longrightarrow> life_step ver Starting (Trial new old n) (Trial new old (Suc n))"
| counted_exposed: "n < 3 \<Longrightarrow> life_step ver Starting (Exposed new n) (Exposed new (Suc n))"
| confirmed: "life_step ver Ready (Trial new old n) (Settled new)"
| uncovered: "life_step ver Ready (Trial new old n) (Exposed new n)"
| settled: "life_step ver Ready (Exposed new n) (Settled new)"
| reported: "life_step ver Ready (Restored b) (Settled b)"
| undone: "gives_up ev n \<Longrightarrow> life_step ver ev (Trial new old n) (Stale old)"
| reverted: "gives_up ev n \<Longrightarrow> life_step ver ev (Trial new old n) (Restored old)"

section \<open>What the disk shows\<close>

text \<open>An installation: its codec, the version each binary reports, where it lives.\<close>

record site =
  si_parse :: "string \<Rightarrow> json option"
  si_dump :: "json \<Rightarrow> string"
  si_sha :: sha256
  si_version :: "string \<Rightarrow> string"
  si_install :: string
  si_dir :: string

definition site_marker :: "site \<Rightarrow> string" where
  "site_marker X = state_file (si_dir X)"

definition site_backup :: "site \<Rightarrow> string" where
  "site_backup X = si_install X @ ''.prev''"

definition marker_on :: "site \<Rightarrow> fs \<Rightarrow> update_marker \<Rightarrow> bool" where
  "marker_on X s m \<longleftrightarrow> read_marker_file (si_parse X) s (site_marker X) = Inr (Some m) \<and> marker_ok m \<and>
     um_prev_binary m = site_backup X"

definition on_trial :: "site \<Rightarrow> fs \<Rightarrow> string \<Rightarrow> nat \<Rightarrow> bool" where
  "on_trial X s b n \<longleftrightarrow> data_of s (si_install X) = Some b \<and> n \<le> 3 \<and>
     (\<exists>m. marker_on X s m \<and> um_phase m = Pending \<and> um_to m = si_version X b \<and> um_attempts m = int n)"

definition displays :: "site \<Rightarrow> fs \<Rightarrow> lifecycle \<Rightarrow> bool" where
  "displays X s L = (case L of
     Settled b \<Rightarrow> data_of s (si_install X) = Some b \<and> data_of s (site_marker X) = None
   | Stale b \<Rightarrow> data_of s (si_install X) = Some b \<and>
       (\<exists>m. marker_on X s m \<and> um_phase m = Pending \<and> um_to m \<noteq> si_version X b)
   | Trial new old n \<Rightarrow> on_trial X s new n \<and> data_of s (site_backup X) = Some old \<and> si_version X new \<noteq> si_version X old
   | Exposed new n \<Rightarrow> on_trial X s new n \<and> data_of s (site_backup X) = None
   | Restored b \<Rightarrow> data_of s (si_install X) = Some b \<and> (\<exists>m. marker_on X s m \<and> um_phase m = RolledBack)
   | Mislabelled new old \<Rightarrow> data_of s (si_install X) = Some new \<and> data_of s (site_backup X) = Some old \<and>
       (\<exists>m. marker_on X s m \<and> um_phase m = Pending \<and> um_to m \<noteq> si_version X new))"

section \<open>The operations\<close>

text \<open>
  The agent that runs is the installed binary, so its build says that binary's version. The
  callers of an apply never ask for the version that runs; what the server delivers may report
  any version. The runtime object is the one built from the marker on this disk, which stays as
  it is until one of its tasks runs. A state change is named after what the watchdog makes of it.
\<close>

definition reaction_event :: "client_state \<Rightarrow> string \<Rightarrow> life_event" where
  "reaction_event st reason = (case event_of st reason of StreamsReady \<Rightarrow> Ready | AuthFailed \<Rightarrow> Refused | _ \<Rightarrow> Quiet)"

definition watched_at :: "site \<Rightarrow> wd_env \<Rightarrow> bool" where
  "watched_at X e \<longleftrightarrow> we_install e = si_install X \<and>
     {si_install X, site_backup X} \<inter> record_files e (si_dir X) = {}"

definition requested_at :: "site \<Rightarrow> build \<Rightarrow> apply_env \<Rightarrow> apply_request \<Rightarrow> string \<Rightarrow> bool" where
  "requested_at X b e rq old \<longleftrightarrow> ae_install e = si_install X \<and> rq_state_dir rq = si_dir X \<and> apart e rq \<and>
     marker_ok (apply_marker b e rq) \<and> agent_version b = si_version X old \<and> rq_version rq \<noteq> si_version X old"

inductive disk_step :: "site \<Rightarrow> life_event \<Rightarrow> fs \<Rightarrow> fs \<Rightarrow> bool" for X where
  applies: "data_of s (si_install X) = Some old \<Longrightarrow> requested_at X b e rq old \<Longrightarrow>
    apply_with_watchdog b (si_dump X) (si_sha X) e rq fl [s] = Some (h, fl', r) \<Longrightarrow>
    t \<in> set h \<Longrightarrow> disk_step X Installing s t"
| boots: "data_of s (si_install X) = Some b \<Longrightarrow> watched_at X e \<Longrightarrow>
    check_boot (si_parse X) (si_dump X) e (si_dir X) (si_version X b) [s] = Some (h, r) \<Longrightarrow>
    t \<in> set h \<Longrightarrow> disk_step X Starting s t"
| reacts: "data_of s (si_install X) = Some b \<Longrightarrow> watched_at X e \<Longrightarrow>
    new_watchdog (si_parse X) s (si_dir X) (si_version X b) = Inr w \<Longrightarrow>
    on_state (si_parse X) (si_dump X) e st reason w [s] = Some (w', h, eff) \<Longrightarrow>
    t \<in> set h \<Longrightarrow> disk_step X (reaction_event st reason) s t"
| expires: "data_of s (si_install X) = Some b \<Longrightarrow> watched_at X e \<Longrightarrow>
    new_watchdog (si_parse X) s (si_dir X) (si_version X b) = Inr w \<Longrightarrow> wd_armed w \<Longrightarrow>
    rollback (si_dump X) e ''deadline'' w [s] = Some (w', h, eff) \<Longrightarrow>
    t \<in> set h \<Longrightarrow> disk_step X Expiring s t"

section \<open>What one operation leaves behind\<close>

lemma site_paths [simp]: "site_backup X \<noteq> si_install X" "si_install X \<noteq> site_backup X"
  by (simp_all add: site_backup_def)

lemma set_hremove: "t \<in> set (hremove ok p h) \<Longrightarrow> t \<in> set h \<or> (ok p \<and> t = fremove p (hd h))"
  by (auto simp: hremove_def hstep_def split: if_splits)

lemma hext_set:
  assumes "hext Y h h'" and "t \<in> set h'" and "q \<notin> Y"
  shows "t \<in> set h \<or> data_of t q = data_of (hd h) q"
  using assms by (auto simp: hext_def)

lemma marker_on_cong:
  "data_of t (site_marker X) = data_of s (site_marker X) \<Longrightarrow> marker_on X t m = marker_on X s m"
  by (simp add: marker_on_def read_marker_file_def)

lemma marker_on_written:
  assumes "json_text (si_parse X) (si_dump X)" and "data_of t (site_marker X) = Some (marker_dump (si_dump X) m)"
    and "marker_ok m" and "um_prev_binary m = site_backup X"
  shows "marker_on X t m"
  using assms read_marker [OF assms(1,3,2)] by (simp add: marker_on_def)

lemma displays_simps:
  "displays X s (Settled b) \<longleftrightarrow> data_of s (si_install X) = Some b \<and> data_of s (site_marker X) = None"
  "displays X s (Stale b) \<longleftrightarrow> data_of s (si_install X) = Some b \<and>
     (\<exists>m. marker_on X s m \<and> um_phase m = Pending \<and> um_to m \<noteq> si_version X b)"
  "displays X s (Trial new old n) \<longleftrightarrow> on_trial X s new n \<and> data_of s (site_backup X) = Some old \<and>
     si_version X new \<noteq> si_version X old"
  "displays X s (Exposed new n) \<longleftrightarrow> on_trial X s new n \<and> data_of s (site_backup X) = None"
  "displays X s (Restored b) \<longleftrightarrow> data_of s (si_install X) = Some b \<and> (\<exists>m. marker_on X s m \<and> um_phase m = RolledBack)"
  "displays X s (Mislabelled new old) \<longleftrightarrow> data_of s (si_install X) = Some new \<and> data_of s (site_backup X) = Some old \<and>
     (\<exists>m. marker_on X s m \<and> um_phase m = Pending \<and> um_to m \<noteq> si_version X new)"
  by (simp_all add: displays_def)

lemma displays_installed:
  assumes "displays X s L" and "data_of s (si_install X) = Some b"
  obtains (Settled) "L = Settled b" "data_of s (site_marker X) = None"
  | (Stale) m where "L = Stale b" "marker_on X s m" "um_phase m = Pending" "um_to m \<noteq> si_version X b"
  | (Trial) old n m where "L = Trial b old n" "on_trial X s b n" "data_of s (site_backup X) = Some old"
      "si_version X b \<noteq> si_version X old"
      "marker_on X s m" "um_phase m = Pending" "um_to m = si_version X b" "um_attempts m = int n" "n \<le> 3"
  | (Exposed) n m where "L = Exposed b n" "on_trial X s b n" "data_of s (site_backup X) = None"
      "marker_on X s m" "um_phase m = Pending" "um_to m = si_version X b" "um_attempts m = int n" "n \<le> 3"
  | (Restored) m where "L = Restored b" "marker_on X s m" "um_phase m = RolledBack"
  | (Mislabelled) old m where "L = Mislabelled b old" "data_of s (site_backup X) = Some old" "marker_on X s m"
      "um_phase m = Pending" "um_to m \<noteq> si_version X b"
proof (cases L)
  case (Trial c old n)
  with assms have "on_trial X s c n" "c = b" by (auto simp: displays_simps on_trial_def)
  moreover from this obtain m where "marker_on X s m" "um_phase m = Pending" "um_to m = si_version X b" "um_attempts m = int n" "n \<le> 3"
    unfolding on_trial_def by blast
  ultimately show thesis using assms Trial that(3) by (simp add: displays_simps)
next
  case (Exposed c n)
  with assms have "on_trial X s c n" "c = b" by (auto simp: displays_simps on_trial_def)
  moreover from this obtain m where "marker_on X s m" "um_phase m = Pending" "um_to m = si_version X b" "um_attempts m = int n" "n \<le> 3"
    unfolding on_trial_def by blast
  ultimately show thesis using assms Exposed that(4) by (simp add: displays_simps)
qed (use assms that(1,2,5,6) in \<open>auto simp: displays_simps\<close>)

text \<open>Three files decide what the disk shows.\<close>

lemma displays_cong:
  assumes "data_of t (si_install X) = data_of s (si_install X)" and "data_of t (site_marker X) = data_of s (site_marker X)"
    and "data_of t (site_backup X) = data_of s (site_backup X)"
  shows "displays X t L = displays X s L"
  using assms marker_on_cong [OF assms(2)] by (simp add: displays_def on_trial_def split: lifecycle.splits)

lemma watched_files:
  assumes "watched_at X e"
  shows "we_install e = si_install X" "site_marker X \<noteq> si_install X" "site_marker X \<noteq> site_backup X"
    and "si_install X \<notin> record_files e (si_dir X)" "site_backup X \<notin> record_files e (si_dir X)"
    and "um_prev_binary m = site_backup X \<Longrightarrow> wd_apart e (si_dir X) m"
  using assms by (auto simp: watched_at_def record_files_def site_marker_def wd_apart_def)

text \<open>A rollback that is cut short: nothing, the rename alone, or the rename and the new marker.\<close>

lemma rollback_states:
  assumes "do_rollback (si_dump X) e (si_dir X) m reason [s] = Some (h, r)" and "watched_at X e"
    and "um_prev_binary m = site_backup X" and "t \<in> set h"
  shows "t = s \<or> (data_of s (site_backup X) \<noteq> None \<and> data_of t (si_install X) = data_of s (site_backup X) \<and>
    data_of t (site_marker X) \<in> {data_of s (site_marker X), Some (marker_dump (si_dump X) (m\<lparr>um_phase := RolledBack\<rparr>))})"
proof -
  note files = watched_files [OF assms(2)]
  have ne: "[s] \<noteq> []" by simp
  show ?thesis
  proof (cases rule: do_rollback_cases [OF assms(1) ne])
    case 1
    with assms(4) show ?thesis by simp
  next
    case (2 h2 ok1 ok2)
    let ?f = "frename (site_backup X) (si_install X) s"
    have h1: "hstep (frename (um_prev_binary m) (we_install e)) [s] = [?f, s]" by (simp add: hstep_def files assms(3))
    have f: "data_of ?f (si_install X) = data_of s (site_backup X)" "data_of ?f (site_marker X) = data_of s (site_marker X)"
      using files by (simp_all add: data_of_rename)
    have w1: "hext {reverted_file (si_dir X), tmp_path (we_write_reverted e) (reverted_file (si_dir X))} [?f, s] h2"
      using hext_write [OF 2(4)] by (simp add: h1)
    have m1: "u = s \<or> data_of u (site_marker X) = data_of s (site_marker X)" if "u \<in> set h2" for u
      using hext_set [OF w1 that, of "site_marker X"] f by (auto simp: site_marker_def)
    have "data_of (hd h2) (site_marker X) = data_of s (site_marker X)"
      using hext_hd [OF w1, of "site_marker X"] f by (simp add: site_marker_def)
    then have mk: "t = s \<or> data_of t (site_marker X) \<in> {data_of s (site_marker X), Some (marker_dump (si_dump X) (m\<lparr>um_phase := RolledBack\<rparr>))}"
      using hwrite_trace [OF 2(5) assms(4)] m1 by (auto simp: site_marker_def)
    have "t = s \<or> data_of t (si_install X) = data_of s (site_backup X)"
      using hext_set [OF 2(6) assms(4) files(4)] f by (auto simp: h1)
    with mk 2(2) show ?thesis by (auto simp: fexists_data assms(3))
  qed
qed

text \<open>An apply that is cut short: the marker appears only over an installation without one.\<close>

lemma contents_hremove:
  assumes "\<And>t. t \<in> set h \<Longrightarrow> data_of t q \<in> V" and "h \<noteq> []" and "None \<in> V" and "t \<in> set (hremove ok p h)"
  shows "data_of t q \<in> V"
  using assms(1) [of "hd h"] assms set_hremove [OF assms(4)] by auto

lemma contents_hext:
  assumes "hext Y h h'" and "q \<notin> Y" and "\<And>t. t \<in> set h \<Longrightarrow> data_of t q \<in> V" and "h \<noteq> []" and "t \<in> set h'"
  shows "data_of t q \<in> V"
  using hext_set [OF assms(1,5,2)] assms(3,4) hd_in_set by metis

lemma apply_swap_marker:
  assumes "apply_swap b jd e rq h = Some (h', r)" and "apart e rq" and "h \<noteq> []" and "None \<in> V"
    and "Some (marker_dump jd (apply_marker b e rq)) \<in> V"
    and old: "\<And>t. t \<in> set h \<Longrightarrow> data_of t (state_file (rq_state_dir rq)) \<in> V" and "t \<in> set h'"
  shows "data_of t (state_file (rq_state_dir rq)) \<in> V"
proof -
  let ?st = "state_file (rq_state_dir rq)"
  from assms(1) obtain h1 ok where
    w: "hwrite (ae_marker_write e) ?st (marker_dump jd (apply_marker b e rq)) 420 h = Some (h1, ok)"
    by (auto simp: apply_swap_def Let_def split: option.splits)
  have ne: "h1 \<noteq> []" using hext_ne [OF hext_write [OF w assms(3)]] .
  have hdV: "data_of (hd h) ?st \<in> V" using old assms(3) by simp
  have 1: "data_of u ?st \<in> V" if "u \<in> set h1" for u
    using hwrite_trace [OF w that] old [of u] hdV assms(5) by metis
  let ?R = "\<lambda>p. hremove (ae_remove e) p"
  have rm: "data_of u ?st \<in> V" if "\<And>v. v \<in> set k \<Longrightarrow> data_of v ?st \<in> V" "k \<noteq> []" "u \<in> set (?R p k)" for u p k
    using contents_hremove [where h = k and q = ?st] that assms(4) by blast
  have 2: "data_of u ?st \<in> V" if "u \<in> set (?R (new_path e) (?R (prev_path e) h1))" for u
    by (rule rm [OF rm [OF 1 ne] _ that]) (simp_all add: ne)
  have 3: "data_of u ?st \<in> V" if "u \<in> set (?R (new_path e) (?R (prev_path e) (?R ?st h1)))" for u
    by (rule rm [OF rm [OF rm [OF 1 ne]] _ that]) (simp_all add: ne)
  have 4: "data_of u ?st \<in> V" if "u \<in> set (hstep (frename (new_path e) (ae_install e)) h1)" for u
    using that 1 ne assms(2) by (auto simp: hstep_def data_of_rename apart_def)
  have "h' \<in> {?R (new_path e) (?R (prev_path e) h1), ?R (new_path e) (?R (prev_path e) (?R ?st h1)),
      hstep (frename (new_path e) (ae_install e)) h1}"
    using assms(1) w by (auto simp: apply_swap_def Let_def split: if_splits bool.splits)
  with 2 3 4 assms(7) show ?thesis by auto
qed

lemma apply_guarded:
  assumes "apply_with_watchdog b jd sha e rq fl [s] = Some (h, fl', r)" and "data_of s (state_file (rq_state_dir rq)) \<noteq> None"
  shows "h = [s]"
  using assms by (auto simp: apply_with_watchdog_def fexists_data split: if_splits)

lemma apply_marker_states:
  assumes "apply_with_watchdog b jd sha e rq fl [s] = Some (h, fl', r)" and "apart e rq"
    and "data_of s (state_file (rq_state_dir rq)) = None" and "t \<in> set h"
  shows "data_of t (state_file (rq_state_dir rq)) \<in> {None, Some (marker_dump jd (apply_marker b e rq))}"
proof -
  let ?st = "state_file (rq_state_dir rq)"
  let ?V = "{None, Some (marker_dump jd (apply_marker b e rq))}"
  obtain h1 r1 where f: "apply_fetch e sha rq [s] = (h1, r1)" by (cases "apply_fetch e sha rq [s]")
  obtain h2 r2 where k: "apply_backup e h1 = (h2, r2)" by (cases "apply_backup e h1")
  have e1: "hext {new_path e} [s] h1" by (rule apply_fetch_ext [OF f]) simp
  have e2: "hext {new_path e, prev_tmp e, prev_path e} h1 h2" by (rule apply_backup_ext [OF k hext_ne [OF e1]])
  have out: "?st \<notin> {new_path e}" "?st \<notin> {new_path e, prev_tmp e, prev_path e}" using assms(2) by (auto simp: apart_def)
  have 1: "data_of u ?st \<in> ?V" if "u \<in> set h1" for u
    by (rule contents_hext [OF e1 out(1) _ _ that]) (simp_all add: assms(3))
  have 2: "data_of u ?st \<in> ?V" if "u \<in> set h2" for u
    by (rule contents_hext [OF e2 out(2) 1 hext_ne [OF e1] that])
  have 3: "data_of u ?st \<in> ?V" if "apply_swap b jd e rq h2 = Some (h3, r3)" "u \<in> set h3" for h3 r3 u
    by (rule apply_swap_marker [OF that(1) assms(2) hext_ne [OF e2] _ _ 2 that(2)]) simp_all
  have "h \<in> {[s], h1, h2} \<or> (\<exists>r3. apply_swap b jd e rq h2 = Some (h, r3))"
    using assms(1) f k by (auto simp: apply_with_watchdog_def split: if_splits option.splits)
  with 1 2 3 assms(3,4) show ?thesis by (elim disjE insertE exE) auto
qed

lemma apply_states:
  assumes "apply_with_watchdog b jd sha e rq fl [s] = Some (h, fl', r)" and "apart e rq" and "t \<in> set h"
  shows "data_of t (ae_install e) = data_of s (ae_install e) \<or> (committed b jd sha e rq s t \<and> t = hd h)"
proof -
  have ne: "[s] \<noteq> []" by simp
  show ?thesis
  proof (cases rule: apply_cases [OF assms(1) ne assms(2)])
    case 1
    then show ?thesis using hext_set [OF 1(1) assms(3) install_untouched [OF assms(2)]] by auto
  next
    case (2 ar h1)
    have "t = hd h \<or> t \<in> set h1" using assms(3) 2(4) by (metis set_ConsD)
    then show ?thesis using hext_set [OF 2(3) _ install_untouched [OF assms(2)]] 2(5) by auto
  qed
qed

section \<open>Each operation is a step\<close>

lemma apply_simulated:
  assumes "json_text (si_parse X) (si_dump X)" and "displays X s L" and "data_of s (si_install X) = Some old"
    and "requested_at X b e rq old"
    and "apply_with_watchdog b (si_dump X) (si_sha X) e rq fl [s] = Some (h, fl', r)"
    and "t \<in> set h"
  shows "\<exists>L'. life_step (si_version X) Installing L L' \<and> displays X t L'"
proof (cases "data_of s (site_marker X)")
  case (Some c)
  then have "h = [s]" using apply_guarded [OF assms(5)] assms(4) by (simp add: requested_at_def site_marker_def)
  with assms(2,6) show ?thesis by (auto intro: stay)
next
  case None
  let ?m = "apply_marker b e rq"
  have rq: "ae_install e = si_install X" "rq_state_dir rq = si_dir X" "apart e rq" "marker_ok ?m"
    "rq_version rq \<noteq> si_version X old" using assms(4) by (auto simp: requested_at_def)
  have st: "state_file (rq_state_dir rq) = site_marker X" by (simp add: rq site_marker_def)
  have m: "um_phase ?m = Pending" "um_to ?m = rq_version rq" "um_attempts ?m = 0" "um_prev_binary ?m = site_backup X"
    by (simp_all add: apply_marker_def prev_path_def site_backup_def rq)
  have L: "L = Settled old"
    using assms(2,3) None by (auto simp: displays_def on_trial_def marker_on_def read_marker_file_def split: lifecycle.splits)
  have mk: "data_of t (site_marker X) \<in> {None, Some (marker_dump (si_dump X) ?m)}"
    using apply_marker_states [OF assms(5) rq(3) _ assms(6)] None by (simp add: st)
  note on = marker_on_written [OF assms(1) _ rq(4) m(4)]
  from apply_states [OF assms(5) rq(3) assms(6)] show ?thesis
  proof
    assume "data_of t (ae_install e) = data_of s (ae_install e)"
    then have i: "data_of t (si_install X) = Some old" using assms(3) by (simp add: rq)
    show ?thesis
    proof (cases "data_of t (site_marker X)")
      case None
      with i show ?thesis unfolding L by (intro exI [of _ "Settled old"]) (simp add: displays_def stay)
    next
      case (Some c)
      with mk on [of t] i m rq(5) show ?thesis unfolding L
        by (intro exI [of _ "Stale old"]) (auto simp: displays_def announced)
    qed
  next
    assume c: "committed b (si_dump X) (si_sha X) e rq s t \<and> t = hd h"
    then obtain new where n: "data_of t (si_install X) = Some new" "data_of t (site_backup X) = Some old"
      "data_of t (site_marker X) = Some (marker_dump (si_dump X) ?m)"
      using assms(3) unfolding committed_def by (auto simp: rq site_marker_def prev_path_def site_backup_def)
    show ?thesis
    proof (cases "si_version X new = rq_version rq")
      case False
      with n on [of t] m show ?thesis unfolding L
        by (intro exI [of _ "Mislabelled new old"]) (auto simp: displays_def intro!: mislabelled)
    next
      case True
      with n on [of t] m rq(5) show ?thesis unfolding L
        by (intro exI [of _ "Trial new old 0"]) (auto simp: displays_def on_trial_def intro!: swapped)
    qed
  qed
qed

lemma marker_read:
  "marker_on X s m \<Longrightarrow> read_marker_file (si_parse X) s (state_file (si_dir X)) = Inr (Some m)"
  by (simp add: marker_on_def site_marker_def)

lemma no_marker: "data_of s (site_marker X) = None \<Longrightarrow> read_marker_file (si_parse X) s (state_file (si_dir X)) = Inr None"
  by (simp add: read_marker_file_def site_marker_def)

text \<open>A rollback of a trial, for whatever reason, cut short or not.\<close>

lemma rollback_simulated:
  assumes "json_text (si_parse X) (si_dump X)" and "displays X s (Trial new old n)"
    and "marker_on X s m" and "um_phase m = Pending" and "um_to m = si_version X new"
    and "do_rollback (si_dump X) e (si_dir X) (m\<lparr>um_attempts := k\<rparr>) reason [s] = Some (h, r)" and "in_int32 k"
    and "watched_at X e" and "t \<in> set h" and "gives_up ev n"
  shows "\<exists>L'. life_step (si_version X) ev (Trial new old n) L' \<and> displays X t L'"
proof -
  let ?m = "m\<lparr>um_attempts := k, um_phase := RolledBack\<rparr>"
  have b: "data_of s (site_backup X) = Some old" "si_version X new \<noteq> si_version X old"
    using assms(2) by (auto simp: displays_def)
  have p: "um_prev_binary (m\<lparr>um_attempts := k\<rparr>) = site_backup X" using assms(3) by (simp add: marker_on_def)
  have "marker_ok m" using assms(3) by (simp add: marker_on_def)
  then have ok: "marker_ok ?m" using assms(7) by (simp add: marker_ok_def)
  from rollback_states [OF assms(6,8) p assms(9)] consider "t = s"
    | "data_of t (si_install X) = Some old" "data_of t (site_marker X) = data_of s (site_marker X)"
    | "data_of t (si_install X) = Some old" "data_of t (site_marker X) = Some (marker_dump (si_dump X) ?m)"
    using b by auto
  then show ?thesis
  proof cases
    case 1
    with assms(2) show ?thesis by (auto intro: stay)
  next
    case 2
    then have "displays X t (Stale old)"
      using marker_on_cong [OF 2(2)] assms(3-5) b by (auto simp: displays_def)
    then show ?thesis by (blast intro: undone assms(10))
  next
    case 3
    then have "displays X t (Restored old)"
      using marker_on_written [OF assms(1) 3(2) ok] p by (auto simp: displays_def)
    then show ?thesis by (blast intro: reverted assms(10))
  qed
qed

lemma rollback_exposed:
  assumes "data_of s (site_backup X) = None" and "um_prev_binary m = site_backup X"
    and "do_rollback jd e d m reason [s] = Some (h, r)"
  shows "h = [s]"
  using assms by (auto simp: do_rollback_def fexists_data split: if_splits)

text \<open>The counting of one more start.\<close>

lemma counted_states:
  assumes "json_text (si_parse X) (si_dump X)" and "on_trial X s new n" and "n < 3" and "marker_on X s m"
    and "um_phase m = Pending" and "um_to m = si_version X new" and "um_attempts m = int n" and "watched_at X e"
    and "hwrite (we_write_marker e) (site_marker X) (marker_dump (si_dump X) (m\<lparr>um_attempts := int n + 1\<rparr>)) 420 [s] = Some (h, ok)"
    and "t \<in> set h"
  shows "(on_trial X t new n \<or> on_trial X t new (Suc n)) \<and> data_of t (site_backup X) = data_of s (site_backup X)"
proof -
  let ?m = "m\<lparr>um_attempts := int n + 1\<rparr>"
  note files = watched_files [OF assms(8)]
  have "hext {site_marker X, tmp_path (we_write_marker e) (site_marker X)} [s] h" by (rule hext_write [OF assms(9)]) simp
  note keep = hext_set [OF this assms(10)]
  have i: "data_of t (si_install X) = data_of s (si_install X)" "data_of t (site_backup X) = data_of s (site_backup X)"
    using keep [of "si_install X"] keep [of "site_backup X"] assms(8)
    by (auto simp: watched_at_def record_files_def site_marker_def)
  have "marker_ok m" and p: "um_prev_binary ?m = site_backup X" using assms(4) by (simp_all add: marker_on_def)
  then have ok: "marker_ok ?m" "um_prev_binary ?m = site_backup X"
    using assms(3) by (simp_all add: marker_ok_def in_int32_def)
  consider "data_of t (site_marker X) = data_of s (site_marker X)"
    | "data_of t (site_marker X) = Some (marker_dump (si_dump X) ?m)"
    using hwrite_trace [OF assms(9,10)] by auto
  then show ?thesis
  proof cases
    case 1
    with i marker_on_cong [OF 1] assms(2) show ?thesis by (auto simp: on_trial_def)
  next
    case 2
    with i marker_on_written [OF assms(1) 2 ok] assms(2-7) show ?thesis by (auto simp: on_trial_def)
  qed
qed

text \<open>A start on trial: it is counted, or the backup comes back; a foreign marker is cleared.\<close>

lemma boot_on_trial:
  assumes "marker_on X s m" and "um_phase m = Pending" and "um_to m = si_version X b" and "um_attempts m = int n" and "n \<le> 3"
    and "check_boot (si_parse X) (si_dump X) e (si_dir X) (si_version X b) [s] = Some (h, r)"
  shows "(n < 3 \<and> (\<exists>ok. hwrite (we_write_marker e) (site_marker X)
      (marker_dump (si_dump X) (m\<lparr>um_attempts := int n + 1\<rparr>)) 420 [s] = Some (h, ok))) \<or>
    (n = 3 \<and> (\<exists>r'. do_rollback (si_dump X) e (si_dir X) (m\<lparr>um_attempts := int n + 1\<rparr>) ''crash_loop'' [s] = Some (h, r')))"
proof -
  have dec: "bd_action (decide_boot (Some m) (si_version X b)) = (if n < 3 then Arm else Rollback)"
    "bd_marker (decide_boot (Some m) (si_version X b)) = m\<lparr>um_attempts := int n + 1\<rparr>"
    using assms(2-5) by (auto simp: decide_boot_simps WATCHDOG_MAX_ATTEMPTS_def in_int32_def)
  note eval = check_boot_def Let_def marker_read [OF assms(1)] dec
  show ?thesis
  proof (cases "n < 3")
    case True
    then have "\<exists>ok. hwrite (we_write_marker e) (site_marker X) (marker_dump (si_dump X) (m\<lparr>um_attempts := int n + 1\<rparr>)) 420 [s] = Some (h, ok)"
      using assms(6) by (simp add: eval site_marker_def split: option.splits prod.splits)
    with True show ?thesis by blast
  next
    case False
    then have "\<exists>r'. do_rollback (si_dump X) e (si_dir X) (m\<lparr>um_attempts := int n + 1\<rparr>) ''crash_loop'' [s] = Some (h, r')"
      using assms(6) by (simp add: eval split: option.splits prod.splits sum.splits bool.splits)
    moreover have "n = 3" using False assms(5) by simp
    ultimately show ?thesis by blast
  qed
qed

lemma boot_stale:
  assumes "marker_on X s m" and "um_phase m = Pending" and "um_to m \<noteq> si_version X b"
    and "check_boot (si_parse X) (si_dump X) e (si_dir X) (si_version X b) [s] = Some (h, r)" and "watched_at X e" and "t \<in> set h"
  shows "data_of t (si_install X) = data_of s (si_install X) \<and> data_of t (site_marker X) \<in> {None, data_of s (site_marker X)} \<and>
    data_of t (site_backup X) \<in> {None, data_of s (site_backup X)}"
proof -
  note files = watched_files [OF assms(5)]
  have p: "um_prev_binary m = site_backup X" "site_backup X \<noteq> []" using assms(1) by (simp_all add: marker_on_def site_backup_def)
  have dec: "bd_action (decide_boot (Some m) (si_version X b)) = ClearNoRevert" "bd_marker (decide_boot (Some m) (si_version X b)) = m"
    using assms(2,3) by (simp_all add: decide_boot_def)
  have "h = hremove (we_remove e) (site_backup X) (hremove (we_remove e) (site_marker X) [s])"
    using assms(4) by (simp add: check_boot_def Let_def marker_read [OF assms(1)] dec p) (simp add: site_marker_def)
  with assms(6) files(2,3) show ?thesis by (auto dest!: set_hremove simp: hd_hremove)
qed

lemma boot_simulated:
  assumes "json_text (si_parse X) (si_dump X)" and "displays X s L" and "data_of s (si_install X) = Some b"
    and "watched_at X e"
    and "check_boot (si_parse X) (si_dump X) e (si_dir X) (si_version X b) [s] = Some (h, r)" and "t \<in> set h"
  shows "\<exists>L'. life_step (si_version X) Starting L L' \<and> displays X t L'"
proof -
  note files = watched_files [OF assms(4)]
  have same: ?thesis if "h = [s]" using that assms(2,6) by (auto intro: stay)
  note trial = boot_on_trial [OF _ _ _ _ _ assms(5)]
  from assms(2,3) show ?thesis
  proof (cases rule: displays_installed)
    case Settled
    then have "h = [s]" using assms(5) no_marker [of s X] by (simp add: check_boot_def decide_boot_simps Let_def)
    then show ?thesis by (rule same)
  next
    case (Stale m)
    have "data_of t (si_install X) = Some b \<and> data_of t (site_marker X) \<in> {None, data_of s (site_marker X)}"
      using boot_stale [OF Stale(2-4) assms(5,4,6)] assms(3) by simp
    then have "displays X t (Settled b) \<or> displays X t (Stale b)"
      using marker_on_cong [of t X s] Stale by (auto simp: displays_simps)
    then show ?thesis unfolding Stale(1) by (blast intro: stay cleared)
  next
    case (Trial old n m)
    from trial [OF Trial(5-9)] consider ok where "n < 3" "hwrite (we_write_marker e) (site_marker X)
        (marker_dump (si_dump X) (m\<lparr>um_attempts := int n + 1\<rparr>)) 420 [s] = Some (h, ok)"
      | r' where "n = 3" "do_rollback (si_dump X) e (si_dir X) (m\<lparr>um_attempts := int n + 1\<rparr>) ''crash_loop'' [s] = Some (h, r')"
      by blast
    then show ?thesis
    proof cases
      case (1 ok)
      from counted_states [OF assms(1) Trial(2) 1(1) Trial(5-8) assms(4) 1(2) assms(6)] Trial(3,4)
      have "displays X t (Trial b old n) \<or> displays X t (Trial b old (Suc n))" by (simp add: displays_simps)
      with 1(1) show ?thesis unfolding Trial(1) by (blast intro: stay counted)
    next
      case (2 r')
      have "in_int32 (int n + 1)" using Trial(9) by (simp add: in_int32_def)
      from rollback_simulated [OF assms(1) assms(2) [unfolded Trial(1)] Trial(5-7) 2(2) this assms(4,6), of Starting] 2(1) show ?thesis
        unfolding Trial(1) by (simp add: gives_up_def)
    qed
  next
    case (Exposed n m)
    have p: "um_prev_binary (m\<lparr>um_attempts := int n + 1\<rparr>) = site_backup X" using Exposed(4) by (simp add: marker_on_def)
    from trial [OF Exposed(4-8)] rollback_exposed [OF Exposed(3) p] consider "h = [s]" | ok where "n < 3"
        "hwrite (we_write_marker e) (site_marker X) (marker_dump (si_dump X) (m\<lparr>um_attempts := int n + 1\<rparr>)) 420 [s] = Some (h, ok)"
      by blast
    then show ?thesis
    proof cases
      case 1
      then show ?thesis by (rule same)
    next
      case (2 ok)
      from counted_states [OF assms(1) Exposed(2) 2(1) Exposed(4-7) assms(4) 2(2) assms(6)] Exposed(3)
      have "displays X t (Exposed b n) \<or> displays X t (Exposed b (Suc n))" by (simp add: displays_simps)
      with 2(1) show ?thesis unfolding Exposed(1) by (blast intro: stay counted_exposed)
    qed
  next
    case (Restored m)
    then have "h = [s]" using assms(5) marker_read [OF Restored(2)] by (simp add: check_boot_def decide_boot_simps Let_def)
    then show ?thesis by (rule same)
  next
    case (Mislabelled old m)
    have "data_of t (si_install X) = Some b \<and> data_of t (site_marker X) \<in> {None, data_of s (site_marker X)} \<and>
        data_of t (site_backup X) \<in> {None, Some old}"
      using boot_stale [OF Mislabelled(3-5) assms(5,4,6)] assms(3) Mislabelled(2) by simp
    then have "displays X t (Settled b) \<or> displays X t (Stale b) \<or> displays X t (Mislabelled b old)"
      using marker_on_cong [of t X s] Mislabelled by (auto simp: displays_simps)
    then show ?thesis unfolding Mislabelled(1) by (blast intro: stay cleared_mislabelled uncovered_mislabelled)
  qed
qed

text \<open>The runtime object a disk gives rise to, and what it may do.\<close>

lemma new_watchdog_none:
  "data_of s (site_marker X) = None \<Longrightarrow> new_watchdog (si_parse X) s (si_dir X) v = Inr w \<Longrightarrow>
     \<not> wd_armed w \<and> \<not> wd_report_pending w"
  using no_marker [of s X] by (auto simp: new_watchdog_def)

lemma new_watchdog_marker:
  assumes "marker_on X s m" and "new_watchdog (si_parse X) s (si_dir X) v = Inr w"
  shows "wd_marker w = m" "wd_state_dir w = si_dir X" "wd_armed w \<longleftrightarrow> um_phase m = Pending \<and> v = um_to m"
    "wd_report_pending w \<longleftrightarrow> um_phase m = RolledBack"
  using assms(2) marker_read [OF assms(1)] by (auto simp: new_watchdog_def Let_def split: if_splits)

lemma claim_cases:
  assumes "on_state_claim w st reason = (w', t)"
  obtains (nothing) "t = None"
  | (report) "t = Some ReportTask" "wd_report_pending w" "wd_state_dir w' = wd_state_dir w" "reaction_event st reason = Ready"
  | (confirm) "t = Some ConfirmTask" "wd_armed w" "wd_marker w' = wd_marker w" "wd_state_dir w' = wd_state_dir w"
      "reaction_event st reason = Ready"
  | (rollback) why where "t = Some (RollbackTask why)" "wd_armed w" "wd_marker w' = wd_marker w" "wd_state_dir w' = wd_state_dir w"
      "reaction_event st reason = Refused"
  using assms by (auto simp: on_state_claim_def reaction_event_def event_of_def Let_def split: if_splits)

lemma on_state_tasks:
  assumes "on_state jp jd e st reason w [s] = Some (w', h, eff)"
  obtains (nothing) "h = [s]"
  | (report) "wd_report_pending w" "h = hremove (we_remove e) (state_file (wd_state_dir w)) [s]" "reaction_event st reason = Ready"
  | (confirm) "wd_armed w" "reaction_event st reason = Ready" "um_prev_binary (wd_marker w) \<noteq> [] \<Longrightarrow>
      h = hremove (we_remove e) (um_prev_binary (wd_marker w)) (hremove (we_remove e) (state_file (wd_state_dir w)) [s])"
  | (rollback) why r where "wd_armed w" "do_rollback jd e (wd_state_dir w) (wd_marker w) why [s] = Some (h, r)"
      "reaction_event st reason = Refused"
proof -
  obtain v t where c: "on_state_claim w st reason = (v, t)" by (cases "on_state_claim w st reason")
  from c show thesis
  proof (cases rule: claim_cases)
    case nothing
    with assms c that(1) show thesis by (simp add: on_state_def)
  next
    case report
    with assms c have "h = [s] \<or> h = hremove (we_remove e) (state_file (wd_state_dir w)) [s]"
      by (auto simp: on_state_def run_task_def report_rolled_back_def Let_def split: sum.splits)
    with that(1,2) report show thesis by blast
  next
    case confirm
    with assms c have "um_prev_binary (wd_marker w) \<noteq> [] \<Longrightarrow>
        h = hremove (we_remove e) (um_prev_binary (wd_marker w)) (hremove (we_remove e) (state_file (wd_state_dir w)) [s])"
      by (auto simp: on_state_def run_task_def confirm_def Let_def)
    with that(3) confirm show thesis by blast
  next
    case (rollback why)
    with assms c have "\<exists>r. do_rollback jd e (wd_state_dir w) (wd_marker w) why [s] = Some (h, r)"
      by (auto simp: on_state_def run_task_def rollback_def Let_def split: option.splits sum.splits)
    with that(4) rollback show thesis by blast
  qed
qed

text \<open>A confirmation: the marker goes first, then the backup.\<close>

lemma confirm_states:
  assumes "t \<in> set (hremove ok (site_backup X) (hremove ok (site_marker X) [s]))" and "site_marker X \<noteq> si_install X"
    and "site_marker X \<noteq> site_backup X"
  shows "data_of t (si_install X) = data_of s (si_install X) \<and>
    (data_of t (site_marker X) = None \<or>
     data_of t (site_marker X) = data_of s (site_marker X) \<and> data_of t (site_backup X) \<in> {None, data_of s (site_backup X)})"
  using assms by (auto dest!: set_hremove simp: hd_hremove split: if_splits)

lemma on_trial_cong:
  assumes "on_trial X s b n" and "data_of t (si_install X) = data_of s (si_install X)"
    and "data_of t (site_marker X) = data_of s (site_marker X)"
  shows "on_trial X t b n"
  using assms(1,2) marker_on_cong [OF assms(3)] by (simp add: on_trial_def)

lemma confirm_simulated:
  assumes "displays X s L" and "data_of s (si_install X) = Some b" and "L \<in> {Trial b old n, Exposed b n}" and "watched_at X e"
    and "t \<in> set (hremove ok (site_backup X) (hremove ok (site_marker X) [s]))"
  shows "\<exists>L'. life_step (si_version X) Ready L L' \<and> displays X t L'"
proof -
  note c = confirm_states [OF assms(5) watched_files(2,3) [OF assms(4)]]
  have i: "data_of t (si_install X) = Some b" using c assms(2) by simp
  consider "displays X t (Settled b)"
    | "displays X t L"
    | "displays X t (Exposed b n)"
  proof (cases "data_of t (site_marker X)")
    case None
    with i that(1) show thesis by (simp add: displays_simps)
  next
    case (Some x)
    with c have m: "data_of t (site_marker X) = data_of s (site_marker X)"
      and k: "data_of t (site_backup X) \<in> {None, data_of s (site_backup X)}" by auto
    have "on_trial X s b n" using assms(1,3) by (auto simp: displays_simps)
    then have "on_trial X t b n" by (rule on_trial_cong) (use c m in simp_all)
    with k assms(1,3) that(2,3) show thesis by (auto simp: displays_simps)
  qed
  then show ?thesis using assms(3) by cases (auto intro: stay confirmed settled uncovered)
qed

lemma reaction_on_trial:
  assumes "json_text (si_parse X) (si_dump X)" and "displays X s (Trial b old n)"
    and "marker_on X s m" and "um_phase m = Pending" and "um_to m = si_version X b"
    and "watched_at X e" and "new_watchdog (si_parse X) s (si_dir X) (si_version X b) = Inr w"
    and "on_state (si_parse X) (si_dump X) e st reason w [s] = Some (w', h, eff)" and "t \<in> set h"
  shows "\<exists>L'. life_step (si_version X) (reaction_event st reason) (Trial b old n) L' \<and> displays X t L'"
proof -
  note w = new_watchdog_marker [OF assms(3,7)]
  have p: "um_prev_binary m = site_backup X" "site_backup X \<noteq> []" using assms(3) by (simp_all add: marker_on_def site_backup_def)
  have i: "data_of s (si_install X) = Some b" using assms(2) by (simp add: displays_simps on_trial_def)
  show ?thesis
  proof (cases rule: on_state_tasks [OF assms(8)])
    case 1
    with assms(2,9) show ?thesis by (auto intro: stay)
  next
    case 2
    with w assms(4) show ?thesis by simp
  next
    case 3
    then have "t \<in> set (hremove (we_remove e) (site_backup X) (hremove (we_remove e) (site_marker X) [s]))"
      using assms(9) w p by (simp add: site_marker_def)
    with confirm_simulated [OF assms(2) i _ assms(6), of old n] 3(2) show ?thesis by auto
  next
    case (4 why r)
    have "in_int32 (um_attempts m)" using assms(3) by (simp add: marker_on_def marker_ok_def)
    with 4(2) w rollback_simulated [OF assms(1-5) _ _ assms(6,9), where k = "um_attempts m" and ev = Refused]
    show ?thesis using 4(3) by (simp add: gives_up_def)
  qed
qed

lemma reaction_exposed:
  assumes "displays X s (Exposed b n)" and "data_of s (site_backup X) = None"
    and "marker_on X s m" and "um_phase m = Pending" and "um_to m = si_version X b"
    and "watched_at X e" and "new_watchdog (si_parse X) s (si_dir X) (si_version X b) = Inr w"
    and "on_state (si_parse X) (si_dump X) e st reason w [s] = Some (w', h, eff)" and "t \<in> set h"
  shows "\<exists>L'. life_step (si_version X) (reaction_event st reason) (Exposed b n) L' \<and> displays X t L'"
proof -
  note w = new_watchdog_marker [OF assms(3,7)]
  have p: "um_prev_binary m = site_backup X" "site_backup X \<noteq> []" using assms(3) by (simp_all add: marker_on_def site_backup_def)
  have i: "data_of s (si_install X) = Some b" using assms(1) by (simp add: displays_simps on_trial_def)
  have same: ?thesis if "h = [s]" using that assms(1,9) by (auto intro: stay)
  show ?thesis
  proof (cases rule: on_state_tasks [OF assms(8)])
    case 1
    then show ?thesis by (rule same)
  next
    case 2
    with w assms(4) show ?thesis by simp
  next
    case 3
    then have "t \<in> set (hremove (we_remove e) (site_backup X) (hremove (we_remove e) (site_marker X) [s]))"
      using assms(9) w p by (simp add: site_marker_def)
    with confirm_simulated [OF assms(1) i _ assms(6), of b n] 3(2) show ?thesis by auto
  next
    case (4 why r)
    with w p rollback_exposed [OF assms(2)] show ?thesis by (intro same) auto
  qed
qed

lemma reaction_simulated:
  assumes "json_text (si_parse X) (si_dump X)" and "displays X s L" and "data_of s (si_install X) = Some b"
    and "watched_at X e" and "new_watchdog (si_parse X) s (si_dir X) (si_version X b) = Inr w"
    and "on_state (si_parse X) (si_dump X) e st reason w [s] = Some (w', h, eff)" and "t \<in> set h"
  shows "\<exists>L'. life_step (si_version X) (reaction_event st reason) L L' \<and> displays X t L'"
proof -
  note files = watched_files [OF assms(4)]
  have same: ?thesis if "h = [s]" using that assms(2,7) by (auto intro: stay)
  from assms(2,3) show ?thesis
  proof (cases rule: displays_installed)
    case Settled
    have "h = [s]" using new_watchdog_none [OF Settled(2) assms(5)]
      by (cases rule: on_state_tasks [OF assms(6)]) simp_all
    then show ?thesis by (rule same)
  next
    case (Stale m)
    have "h = [s]" using new_watchdog_marker [OF Stale(2) assms(5)] Stale(3,4)
      by (cases rule: on_state_tasks [OF assms(6)]) simp_all
    then show ?thesis by (rule same)
  next
    case (Trial old n m)
    show ?thesis unfolding Trial(1)
      by (rule reaction_on_trial [OF assms(1) assms(2) [unfolded Trial(1)] Trial(5-7) assms(4-7)])
  next
    case (Exposed n m)
    show ?thesis unfolding Exposed(1)
      by (rule reaction_exposed [OF assms(2) [unfolded Exposed(1)] Exposed(3-6) assms(4-7)])
  next
    case (Restored m)
    note w = new_watchdog_marker [OF Restored(2) assms(5)]
    show ?thesis
    proof (cases rule: on_state_tasks [OF assms(6)])
      case 2
      then have "data_of t (si_install X) = Some b \<and> data_of t (site_marker X) \<in> {None, data_of s (site_marker X)}"
        using assms(3,7) w files(2) by (auto dest!: set_hremove simp: site_marker_def)
      then have "displays X t (Settled b) \<or> displays X t (Restored b)"
        using marker_on_cong [of t X s] Restored by (auto simp: displays_simps)
      then show ?thesis unfolding Restored(1) 2(3) by (blast intro: stay reported)
    qed (use w Restored same in auto)
  next
    case (Mislabelled old m)
    have "h = [s]" using new_watchdog_marker [OF Mislabelled(3) assms(5)] Mislabelled(4,5)
      by (cases rule: on_state_tasks [OF assms(6)]) simp_all
    then show ?thesis by (rule same)
  qed
qed

lemma expiry_simulated:
  assumes "json_text (si_parse X) (si_dump X)" and "displays X s L" and "data_of s (si_install X) = Some b"
    and "watched_at X e" and "new_watchdog (si_parse X) s (si_dir X) (si_version X b) = Inr w" and "wd_armed w"
    and "rollback (si_dump X) e why w [s] = Some (w', h, eff)" and "t \<in> set h"
  shows "\<exists>L'. life_step (si_version X) Expiring L L' \<and> displays X t L'"
proof -
  from assms(7) obtain r where d: "do_rollback (si_dump X) e (wd_state_dir w) (wd_marker w) why [s] = Some (h, r)"
    by (auto simp: rollback_def Let_def split: option.splits sum.splits)
  from assms(2,3) show ?thesis
  proof (cases rule: displays_installed)
    case Settled
    with new_watchdog_none [OF _ assms(5)] assms(6) show ?thesis by simp
  next
    case (Stale m)
    with new_watchdog_marker [OF Stale(2) assms(5)] assms(6) show ?thesis by simp
  next
    case (Trial old n m)
    have "in_int32 (um_attempts m)" using Trial(5) by (simp add: marker_on_def marker_ok_def)
    with d new_watchdog_marker [OF Trial(5) assms(5)]
      rollback_simulated [OF assms(1) assms(2) [unfolded Trial(1)] Trial(5-7) _ _ assms(4,8), where k = "um_attempts m" and ev = Expiring]
    show ?thesis unfolding Trial(1) by (simp add: gives_up_def)
  next
    case (Exposed n m)
    have "um_prev_binary m = site_backup X" using Exposed(4) by (simp add: marker_on_def)
    with d new_watchdog_marker [OF Exposed(4) assms(5)] rollback_exposed [OF Exposed(3)] have "h = [s]" by simp
    with assms(2,8) show ?thesis by (auto intro: stay)
  next
    case (Restored m)
    with new_watchdog_marker [OF Restored(2) assms(5)] assms(6) show ?thesis by simp
  next
    case (Mislabelled old m)
    with new_watchdog_marker [OF Mislabelled(3) assms(5)] assms(6) show ?thesis by simp
  qed
qed

lemma disk_step_simulated:
  assumes "json_text (si_parse X) (si_dump X)" and "disk_step X ev s t" and "displays X s L"
  shows "\<exists>L'. life_step (si_version X) ev L L' \<and> displays X t L'"
  using assms(2)
proof cases
  case (applies old b e rq fl h fl' r)
  show ?thesis unfolding applies(1) by (rule apply_simulated [OF assms(1,3) applies(2-)])
next
  case (boots b e h r)
  show ?thesis unfolding boots(1) by (rule boot_simulated [OF assms(1,3) boots(2-)])
next
  case (reacts b e w st reason w' h eff)
  show ?thesis unfolding reacts(1) by (rule reaction_simulated [OF assms(1,3) reacts(2-)])
next
  case (expires b e w w' h eff)
  show ?thesis unfolding expires(1) by (rule expiry_simulated [OF assms(1,3) expires(2-)])
qed

section \<open>Whole histories\<close>

text \<open>
  A run is the list of what happened, each event with the state it led to: of file systems for
  the program, of the states of the machine for what they show.
\<close>

primrec run_of :: "(life_event \<Rightarrow> 'a \<Rightarrow> 'a \<Rightarrow> bool) \<Rightarrow> 'a \<Rightarrow> (life_event \<times> 'a) list \<Rightarrow> bool" where
  "run_of R s [] \<longleftrightarrow> True"
| "run_of R s (x # r) \<longleftrightarrow> R (fst x) s (snd x) \<and> run_of R (snd x) r"

definition run_last :: "'a \<Rightarrow> (life_event \<times> 'a) list \<Rightarrow> 'a" where
  "run_last s r = last (s # map snd r)"

lemma run_last_simps [simp]: "run_last s [] = s" "run_last s (r @ [x]) = snd x" "run_last s (x # r) = run_last (snd x) r"
  by (simp_all add: run_last_def)

lemma run_of_snoc: "run_of R s (r @ [x]) \<longleftrightarrow> run_of R s r \<and> R (fst x) (run_last s r) (snd x)"
  by (induction r arbitrary: s) auto

lemma run_of_mono: "run_of R s r \<Longrightarrow> (\<And>ev s t. R ev s t \<Longrightarrow> Q ev s t) \<Longrightarrow> run_of Q s r"
  by (induction r arbitrary: s) auto

definition shown_by :: "site \<Rightarrow> life_event \<times> fs \<Rightarrow> life_event \<times> lifecycle \<Rightarrow> bool" where
  "shown_by X x y \<longleftrightarrow> fst y = fst x \<and> displays X (snd x) (snd y)"

text \<open>A disk that stays as it is shows what it showed, whatever happened.\<close>

lemma run_simulated:
  assumes "json_text (si_parse X) (si_dump X)" and "run_of (\<lambda>ev s t. t = s \<or> disk_step X ev s t) s r" and "displays X s L"
  shows "\<exists>ls. run_of (life_step (si_version X)) L ls \<and> list_all2 (shown_by X) r ls"
  using assms(2,3)
proof (induction r arbitrary: s L)
  case (Cons x r)
  then have "snd x = s \<or> disk_step X (fst x) s (snd x)" and r: "run_of (\<lambda>ev s t. t = s \<or> disk_step X ev s t) (snd x) r" by simp_all
  then obtain L' where L: "life_step (si_version X) (fst x) L L'" "displays X (snd x) L'"
    using disk_step_simulated [OF assms(1) _ Cons.prems(2)] Cons.prems(2) stay by metis
  from Cons.IH [OF r L(2)] obtain ls where "run_of (life_step (si_version X)) L' ls" "list_all2 (shown_by X) r ls" by blast
  with L show ?case by (intro exI [of _ "(fst x, L') # ls"]) (simp add: shown_by_def [of X x])
qed simp

lemma shown_last: "list_all2 (shown_by X) r ls \<Longrightarrow> displays X s L \<Longrightarrow> displays X (run_last s r) (run_last L ls)"
  by (induction r ls arbitrary: s L rule: list_all2_induct) (auto simp: shown_by_def)

lemma displays_settled:
  assumes "displays X s L" and "displays X s (Settled c)"
  shows "L = Settled c"
proof -
  have c: "data_of s (si_install X) = Some c" "data_of s (site_marker X) = None" using assms(2) by (simp_all add: displays_simps)
  from assms(1) c(1) show ?thesis
    by (cases rule: displays_installed) (use c(2) in \<open>auto simp: marker_on_def read_marker_file_def\<close>)
qed

section \<open>How a binary comes to be settled\<close>

text \<open>
  An installation put the machine into the state \<open>shown\<close>, and an event \<open>ev\<close> after it left the
  binary \<open>c\<close> settled.
\<close>

definition entered :: "(life_event \<times> lifecycle) list \<Rightarrow> lifecycle \<Rightarrow> bool" where
  "entered l shown \<longleftrightarrow> (Installing, shown) \<in> set l"

definition came_through :: "(life_event \<times> lifecycle) list \<Rightarrow> lifecycle \<Rightarrow> life_event \<Rightarrow> string \<Rightarrow> bool" where
  "came_through l shown ev c \<longleftrightarrow> (\<exists>l1 l2 l3. l = l1 @ (Installing, shown) # l2 @ (ev, Settled c) # l3)"

definition account :: "string \<Rightarrow> (life_event \<times> lifecycle) list \<Rightarrow> string \<Rightarrow> bool" where
  "account b l c \<longleftrightarrow> c = b \<or> (\<exists>old. came_through l (Trial c old 0) Ready c) \<or> (\<exists>old. came_through l (Mislabelled c old) Starting c)"

primrec accounted :: "string \<Rightarrow> (life_event \<times> lifecycle) list \<Rightarrow> lifecycle \<Rightarrow> bool" where
  "accounted b l (Settled c) \<longleftrightarrow> account b l c"
| "accounted b l (Stale c) \<longleftrightarrow> account b l c \<or> (\<exists>old. entered l (Mislabelled c old))"
| "accounted b l (Restored c) \<longleftrightarrow> account b l c"
| "accounted b l (Trial new old n) \<longleftrightarrow> (\<exists>old. entered l (Trial new old 0)) \<and> account b l old"
| "accounted b l (Exposed new n) \<longleftrightarrow> (\<exists>old. entered l (Trial new old 0))"
| "accounted b l (Mislabelled new old) \<longleftrightarrow> (\<exists>old. entered l (Mislabelled new old)) \<and> account b l old"

lemma entered_snoc: "entered (l @ [x]) shown \<longleftrightarrow> entered l shown \<or> x = (Installing, shown)"
  by (auto simp: entered_def)

lemma came_through_snoc: "came_through l shown ev c \<Longrightarrow> came_through (l @ [x]) shown ev c"
  by (force simp: came_through_def)

lemma came_through_now: "entered l shown \<Longrightarrow> came_through (l @ [(ev, Settled c)]) shown ev c"
  unfolding entered_def came_through_def by (metis append.assoc append_Cons append_Nil in_set_conv_decomp)

lemma account_snoc: "account b l c \<Longrightarrow> account b (l @ [x]) c"
  by (auto simp: account_def intro: came_through_snoc)

lemma account_now:
  "entered l (Trial c old 0) \<Longrightarrow> account b (l @ [(Ready, Settled c)]) c"
  "entered l (Mislabelled c old) \<Longrightarrow> account b (l @ [(Starting, Settled c)]) c"
  by (auto simp: account_def intro: came_through_now)

lemma accounted_snoc: "accounted b l L \<Longrightarrow> accounted b (l @ [x]) L"
  by (cases L) (auto simp: entered_snoc intro: account_snoc)

lemma accounted_step: "life_step ver ev L L' \<Longrightarrow> accounted b l L \<Longrightarrow> accounted b (l @ [(ev, L')]) L'"
  by (induction rule: life_step.induct)
    (auto simp: entered_snoc intro: accounted_snoc account_snoc account_now)

lemma accounted_run: "run_of (life_step ver) (Settled b) ls \<Longrightarrow> accounted b ls (run_last (Settled b) ls)"
proof (induction ls rule: rev_induct)
  case Nil
  show ?case by (simp add: account_def)
next
  case (snoc x ls)
  then show ?case using accounted_step [of ver "fst x" "run_last (Settled b) ls" "snd x" b ls] by (simp add: run_of_snoc)
qed

text \<open>The same on the disk.\<close>

definition brought_in :: "site \<Rightarrow> lifecycle \<Rightarrow> life_event \<Rightarrow> (life_event \<times> fs) list \<Rightarrow> string \<Rightarrow> bool" where
  "brought_in X shown ev r c \<longleftrightarrow> (\<exists>r1 u r2 v r3. r = r1 @ (Installing, u) # r2 @ (ev, v) # r3 \<and>
     displays X u shown \<and> displays X v (Settled c))"

lemma brought_in_shown:
  assumes "list_all2 (shown_by X) r ls" and "came_through ls shown ev c"
  shows "brought_in X shown ev r c"
proof -
  obtain l1 l2 l3 where "ls = l1 @ (Installing, shown) # l2 @ (ev, Settled c) # l3" using assms(2) by (auto simp: came_through_def)
  with assms(1) obtain r1 x r2 y r3 where "r = r1 @ x # r2 @ y # r3" "shown_by X x (Installing, shown)" "shown_by X y (ev, Settled c)"
    by (auto simp: list_all2_append2 list_all2_Cons2)
  then show ?thesis unfolding brought_in_def shown_by_def by (cases x, cases y) fastforce
qed

section \<open>A concrete update, confirmed\<close>

definition demo_site :: site where
  "demo_site = \<lparr>si_parse = ref_parse, si_dump = ref_dump, si_sha = (\<lambda>_. Some [1, 255]),
     si_version = (\<lambda>c. if c = ''new'' then ''v1.8.0'' else ''v1.7.5''), si_install = ''/opt/a'', si_dir = ''/etc/t''\<rparr>"

definition trial_marker :: update_marker where
  "trial_marker = apply_marker demo_build demo_env demo_request"

definition trial_apply :: apply_env where
  "trial_apply = demo_env\<lparr>ae_marker_write := good_wa (marker_dump ref_dump trial_marker)\<rparr>"

definition watch_env :: wd_env where
  "watch_env = (demo_wd [] [])\<lparr>we_install := ''/opt/a''\<rparr>"

lemma demo_site_sel [simp]:
  "si_parse demo_site = ref_parse" "si_dump demo_site = ref_dump" "si_install demo_site = ''/opt/a''" "si_dir demo_site = ''/etc/t''"
  "si_sha demo_site = (\<lambda>_. Some [1, 255])" "site_marker demo_site = ''/etc/t/update.state''" "site_backup demo_site = ''/opt/a.prev''"
  "si_version demo_site c = (if c = ''new'' then ''v1.8.0'' else ''v1.7.5'')"
  by (simp_all add: demo_site_def site_marker_def site_backup_def demo_state_file)

lemma trial_marker_sel:
  "um_phase trial_marker = Pending" "um_to trial_marker = ''v1.8.0''" "um_attempts trial_marker = 0"
  "um_prev_binary trial_marker = ''/opt/a.prev''" "marker_ok trial_marker"
  by (simp_all add: trial_marker_def apply_marker_def demo_request_def prev_path_def demo_env_def marker_ok_def demo_build_def
      ascii_def code_of_def in_int32_def in_int64_def)

lemma trial_fields: "ae_install trial_apply = ''/opt/a''" "ae_copy trial_apply = Copied" "ae_rename_prev trial_apply" "ae_rename_swap trial_apply"
  "ae_remove trial_apply = (\<lambda>_. True)" "ae_marker_write trial_apply = good_wa (marker_dump ref_dump trial_marker)" "ae_stat_ok trial_apply"
  "ae_sessions_start trial_apply = 0"
  by (simp_all add: trial_apply_def) (simp_all add: demo_env_def)

lemma trial_env: "new_path trial_apply = ''/opt/a.new''" "prev_path trial_apply = ''/opt/a.prev''" "prev_tmp trial_apply = ''/opt/a.prev.tmp''"
  by (simp_all add: new_path_def prev_path_def prev_tmp_def trial_fields)

lemma demo_request_sel: "rq_state_dir demo_request = ''/etc/t''" "rq_version demo_request = ''v1.8.0''"
  by (simp_all add: demo_request_def)

lemma trial_marked: "apply_marker demo_build trial_apply demo_request = trial_marker"
  by (simp add: trial_marker_def apply_marker_def prev_path_def trial_apply_def)

lemma trial_fetch: "apply_fetch trial_apply sha rq h = apply_fetch demo_env sha rq h"
  by (simp add: apply_fetch_def Let_def new_path_def trial_apply_def cong: if_cong)

lemma trial_apart: "apart trial_apply demo_request"
  by (simp add: apart_def trial_env trial_fields demo_request_def demo_state_file tmp_path_def)

lemma demo_fetched:
  "(case apply_fetch demo_env (\<lambda>_. Some [1, 255]) demo_request [demo_fs] of (h, r) \<Rightarrow>
      (r = None, data_of (hd h) ''/opt/a'', data_of (hd h) ''/opt/a.new'')) = (True, Some ''old'', Some ''new'')"
  by code_simp


lemma trial_applied:
  "\<exists>h fl r. apply_with_watchdog demo_build ref_dump (\<lambda>_. Some [1, 255]) trial_apply demo_request False [demo_fs] = Some (h, fl, r) \<and> h \<noteq> [] \<and>
     data_of (hd h) ''/opt/a'' = Some ''new'' \<and> displays demo_site (hd h) (Trial ''new'' ''old'' 0)"
proof -
  let ?c = "marker_dump ref_dump trial_marker"
  obtain h1 where f: "apply_fetch trial_apply (\<lambda>_. Some [1, 255]) demo_request [demo_fs] = (h1, None)"
    and d1: "data_of (hd h1) ''/opt/a'' = Some ''old''" "data_of (hd h1) ''/opt/a.new'' = Some ''new''"
    using demo_fetched unfolding trial_fetch by (auto split: prod.splits)
  have "h1 \<noteq> []" using hext_ne [OF apply_fetch_ext [OF f]] by simp
  obtain h2 where k: "apply_backup trial_apply h1 = (h2, None)"
    using d1 by (simp add: apply_backup_def Let_def trial_fields trial_env hremove_def fexists_data)
  note k1 = apply_backup_accepts [OF k] and k2 = apply_backup_ext [OF k \<open>h1 \<noteq> []\<close>]
  obtain h3 where w: "hwrite (ae_marker_write trial_apply) ''/etc/t/update.state'' ?c 420 h2 = Some (h3, True)"
    using hwrite_works [OF good_wa_works] unfolding trial_fields by blast
  have x: "data_of (hd h3) q = data_of (hd h2) q" if "q \<in> {''/opt/a'', ''/opt/a.new'', ''/opt/a.prev''}" for q
    by (rule hext_hd [OF hext_write [OF w hext_ne [OF k2]]]) (use that in \<open>auto simp: tmp_path_def\<close>)
  let ?h = "hstep (frename ''/opt/a.new'' ''/opt/a'') h3"
  have d3: "data_of (hd ?h) ''/opt/a'' = Some ''new''" "data_of (hd ?h) ''/opt/a.prev'' = Some ''old''"
    "data_of (hd ?h) ''/etc/t/update.state'' = Some ?c"
    using x k1 d1 hwrite_data [OF w] by (simp_all add: trial_env trial_fields data_of_rename)
  have "fexists (hd h3) ''/opt/a.new''" using x k1 d1 by (simp add: trial_env fexists_data)
  then have "\<exists>r. apply_swap demo_build ref_dump trial_apply demo_request h2 = Some (?h, r)"
    using w by (simp add: apply_swap_def Let_def trial_env trial_fields trial_marked demo_request_sel demo_state_file)
  moreover have "\<not> fexists demo_fs ''/etc/t/update.state''" by (simp add: demo_fs_def fexists_def)
  ultimately have "\<exists>fl r. apply_with_watchdog demo_build ref_dump (\<lambda>_. Some [1, 255]) trial_apply demo_request False [demo_fs] = Some (?h, fl, r)"
    using f k by (auto simp: apply_with_watchdog_def demo_build_def trial_fields demo_request_sel demo_state_file)
  moreover have "displays demo_site (hd ?h) (Trial ''new'' ''old'' 0)"
    using d3 marker_on_written [of demo_site "hd ?h" trial_marker] json_text_ref trial_marker_sel
    by (auto simp: displays_simps on_trial_def)
  moreover have "?h \<noteq> []" by (simp add: hstep_def)
  ultimately show ?thesis using d3(1) by blast
qed

lemma trial_requested: "requested_at demo_site demo_build trial_apply demo_request ''old''"
  by (simp add: requested_at_def trial_apart trial_fields trial_marked trial_marker_sel demo_request_sel)
    (simp add: demo_build_def)

lemma trial_install: "\<exists>t. disk_step demo_site Installing demo_fs t \<and> displays demo_site t (Trial ''new'' ''old'' 0)"
proof -
  obtain h fl r where h: "apply_with_watchdog demo_build ref_dump (\<lambda>_. Some [1, 255]) trial_apply demo_request False [demo_fs] = Some (h, fl, r)"
    "h \<noteq> []" "data_of (hd h) ''/opt/a'' = Some ''new''" "displays demo_site (hd h) (Trial ''new'' ''old'' 0)"
    using trial_applied by blast
  then have "hd h \<in> set h" by simp
  moreover have "data_of demo_fs (si_install demo_site) = Some ''old''" by (simp add: demo_fs_def data_of_def)
  ultimately have "disk_step demo_site Installing demo_fs (hd h)"
    using disk_step.applies [of demo_fs demo_site "''old''" demo_build trial_apply demo_request False h fl r "hd h"]
      trial_requested h by (simp add: demo_request_sel)
  with h(4) show ?thesis by blast
qed

text \<open>The new binary comes up and its streams are ready.\<close>

lemma watch_env_sel: "we_install watch_env = ''/opt/a''" "we_remove watch_env = (\<lambda>_. True)" "watched_at demo_site watch_env"
  by (simp_all add: watch_env_def demo_wd_def watched_at_def record_files_def tmp_path_def demo_reverted_file demo_state_file)

lemma trial_confirmed:
  assumes "displays demo_site s (Trial ''new'' ''old'' 0)"
  shows "\<exists>t. disk_step demo_site Ready s t \<and> displays demo_site t (Settled ''new'')"
proof -
  have i: "data_of s (si_install demo_site) = Some ''new''" using assms by (simp add: displays_simps on_trial_def)
  obtain m where m: "marker_on demo_site s m" "um_phase m = Pending" "um_to m = si_version demo_site ''new''"
    using assms by (auto simp: displays_simps on_trial_def)
  obtain w where w: "new_watchdog (si_parse demo_site) s (si_dir demo_site) (si_version demo_site ''new'') = Inr w"
    "\<not> wd_resolved w"
    using marker_read [OF m(1)] m(2,3) by (simp add: new_watchdog_def Let_def)
  note k = new_watchdog_marker [OF m(1) w(1)]
  have b: "um_prev_binary m = site_backup demo_site" using m(1) by (simp add: marker_on_def)
  let ?h = "hremove (we_remove watch_env) ''/opt/a.prev'' (hremove (we_remove watch_env) ''/etc/t/update.state'' [s])"
  have "\<exists>w' eff. on_state (si_parse demo_site) (si_dump demo_site) watch_env STREAMS_READY [] w [s] = Some (w', ?h, eff)"
    using w(2) k m(2,3) b demo_state_file
    by (auto simp: on_state_def on_state_claim_def event_of_def run_task_def confirm_def Let_def)
  then obtain w' eff where o: "on_state (si_parse demo_site) (si_dump demo_site) watch_env STREAMS_READY [] w [s] = Some (w', ?h, eff)"
    by blast
  have "?h \<noteq> []" by (simp add: hremove_def hstep_def)
  then have "disk_step demo_site (reaction_event STREAMS_READY []) s (hd ?h)" by (intro disk_step.reacts [OF i watch_env_sel(3) w(1) o]) simp
  then have "disk_step demo_site Ready s (hd ?h)" by (simp add: reaction_event_def event_of_def)
  moreover have "displays demo_site (hd ?h) (Settled ''new'')"
    using i by (simp add: displays_simps hd_hremove watch_env_sel)
  ultimately show ?thesis by blast
qed

lemma demo_site_settled: "displays demo_site demo_fs (Settled ''old'')"
  by (simp add: displays_simps demo_fs_def data_of_def)

lemma demo_json: "json_text (si_parse demo_site) (si_dump demo_site)"
  by (simp add: json_text_ref)

section \<open>Claims\<close>

text \<open>
  C4. A binary is only ever settled (installed, with no marker beside it) in one of three ways:
  it was the settled one at the beginning; or an apply of the history left it installed on
  trial, no start counted yet and its predecessor's copy beside it, and later the first ready
  connection of a start confirmed it; or an apply installed it although it does not report the
  version it was announced with, its predecessor kept as well, and a later start cleared the
  marker that is not about it. Nothing else ever settles a binary, in any order of applies,
  boots, reactions and deadlines, each possibly cut short by a power failure.
\<close>

theorem settled_was_tried:
  assumes "json_text (si_parse X) (si_dump X)" and "run_of (disk_step X) s r"
    and "displays X s (Settled b)" and "displays X (run_last s r) (Settled c)"
  shows "c = b \<or> (\<exists>old. brought_in X (Trial c old 0) Ready r c) \<or> (\<exists>old. brought_in X (Mislabelled c old) Starting r c)"
proof -
  have "run_of (\<lambda>ev s t. t = s \<or> disk_step X ev s t) s r" using assms(2) by (rule run_of_mono) simp
  from run_simulated [OF assms(1) this assms(3)] obtain ls where
    ls: "run_of (life_step (si_version X)) (Settled b) ls" "list_all2 (shown_by X) r ls" by blast
  have "run_last (Settled b) ls = Settled c" using displays_settled [OF shown_last [OF ls(2) assms(3)] assms(4)] .
  with accounted_run [OF ls(1)] have "account b ls c" by simp
  with brought_in_shown [OF ls(2)] show ?thesis unfolding account_def by blast
qed

lemma settled_was_tried_witness:
  "\<exists>r. run_of (disk_step demo_site) demo_fs r \<and> displays demo_site (run_last demo_fs r) (Settled ''new'') \<and>
     ((\<exists>old. brought_in demo_site (Trial ''new'' old 0) Ready r ''new'') \<or>
      (\<exists>old. brought_in demo_site (Mislabelled ''new'' old) Starting r ''new''))"
proof -
  obtain u where u: "disk_step demo_site Installing demo_fs u" "displays demo_site u (Trial ''new'' ''old'' 0)" using trial_install by blast
  obtain t where t: "disk_step demo_site Ready u t" "displays demo_site t (Settled ''new'')" using trial_confirmed [OF u(2)] by blast
  have s: "run_of (disk_step demo_site) demo_fs [(Installing, u), (Ready, t)]" using u(1) t(1) by simp
  have l: "displays demo_site (run_last demo_fs [(Installing, u), (Ready, t)]) (Settled ''new'')" using t(2) by simp
  from settled_was_tried [OF demo_json s demo_site_settled l] s l show ?thesis
    by (intro exI [of _ "[(Installing, u), (Ready, t)]"]) simp
qed

end
