(* ===== verification/Program.thy ===== *)
theory Program
  imports Agent Lifecycle
begin

text \<open>
  The entry points of the program that touch what is installed, each with the operation of the
  updater or the watchdog it leads to: every one of them is a step of \<open>Lifecycle\<close> or leaves the
  disk alone.
\<close>

section \<open>The program over its installation\<close>

text \<open>
  The entry points that touch what is installed: the construction of the agent at a start, a
  cycle of the poller, an update asked for by the user or the cloud, a state change the
  watchdog of the running agent sees and its deadline. The agent that runs is the installed
  binary, in the environment of the installation \<open>X\<close>.
\<close>

definition installed_runs :: "site \<Rightarrow> build \<Rightarrow> fs \<Rightarrow> string \<Rightarrow> bool" where
  "installed_runs X b s old \<longleftrightarrow> data_of s (si_install X) = Some old \<and> agent_version b = si_version X old"

definition runs_on :: "site \<Rightarrow> platform \<Rightarrow> bool" where
  "runs_on X pf \<longleftrightarrow> pf_parse pf = si_parse X \<and> pf_dump pf = si_dump X \<and> pf_sha pf = si_sha X"

text \<open>
  What is asked of the environment of an apply: it replaces the installed binary of this
  installation and uses its state directory, the files it works on are different ones, and its
  version and instant fit a marker. What the server delivers may be anything.
\<close>

definition placed_apply :: "site \<Rightarrow> build \<Rightarrow> apply_env \<Rightarrow> apply_request \<Rightarrow> bool" where
  "placed_apply X b e rq \<longleftrightarrow> ae_install e = si_install X \<and> rq_state_dir rq = si_dir X \<and> apart e rq \<and>
     marker_ok (apply_marker b e rq)"

inductive program_step :: "site \<Rightarrow> life_event \<Rightarrow> fs \<Rightarrow> fs \<Rightarrow> bool" for X where
  starts: "installed_runs X (pf_build pf) s old \<Longrightarrow> runs_on X pf \<Longrightarrow> watched_at X (an_wd e) \<Longrightarrow>
    agent_state_dir (an_session e) config_path = Inr (si_dir X) \<Longrightarrow>
    new_agent pf e c config_path [s] = Some (h, r) \<Longrightarrow> t \<in> set h \<Longrightarrow> program_step X Starting s t"
| polls: "installed_runs X (pf_build pf) s old \<Longrightarrow> runs_on X pf \<Longrightarrow> pl_version p = agent_version (pf_build pf) \<Longrightarrow>
    run_cycle pf e p fl [s] = Some (p', h, fl', r) \<Longrightarrow>
    (\<And>l man. poll_gates pf e p s l man \<Longrightarrow>
       placed_apply X (pf_build pf) (pe_apply e) (poll_request pf p l man)) \<Longrightarrow>
    t \<in> set h \<Longrightarrow> program_step X Installing s t"
| updates: "installed_runs X b s old \<Longrightarrow>
    run b (si_parse X) (si_dump X) (si_sha X) e act channel origin fl [s] = Some (h, fl', r) \<Longrightarrow>
    (\<And>v. fetch_latest_version b (si_parse X) (re_http e) channel = Inr v \<Longrightarrow>
       placed_apply X b (re_apply e) (run_request b e v channel origin)) \<Longrightarrow>
    t \<in> set h \<Longrightarrow> program_step X Installing s t"
| reacts: "installed_runs X (pf_build pf) s old \<Longrightarrow> runs_on X pf \<Longrightarrow> watched_at X (an_wd e) \<Longrightarrow>
    agent_wire pf e c config_path (si_dir X) s = Inr a \<Longrightarrow> ag_watchdog a = Some w \<Longrightarrow>
    on_state (pf_parse pf) (pf_dump pf) (an_wd e) st reason w [s] = Some (w', h, eff) \<Longrightarrow>
    t \<in> set h \<Longrightarrow> program_step X (reaction_event st reason) s t"
| expires: "installed_runs X (pf_build pf) s old \<Longrightarrow> runs_on X pf \<Longrightarrow> watched_at X (an_wd e) \<Longrightarrow>
    agent_wire pf e c config_path (si_dir X) s = Inr a \<Longrightarrow> ag_watchdog a = Some w \<Longrightarrow> wd_armed w \<Longrightarrow>
    rollback (pf_dump pf) (an_wd e) ''deadline'' w [s] = Some (w', h, eff) \<Longrightarrow>
    t \<in> set h \<Longrightarrow> program_step X Expiring s t"

lemma new_agent_boots:
  assumes "new_agent pf e c config_path h = Some (h', r)" and "agent_state_dir (an_session e) config_path = Inr d"
  shows "\<exists>o'. check_boot (pf_parse pf) (pf_dump pf) (an_wd e) d (agent_version (pf_build pf)) h = Some (h', o')"
  using assms by (auto simp: new_agent_def split: option.splits sum.splits boot_outcome.splits if_splits)

lemma wired_watchdog:
  assumes "agent_wire pf e c config_path d s = Inr a" and "ag_watchdog a = Some w"
  shows "new_watchdog (pf_parse pf) s d (agent_version (pf_build pf)) = Inr w"
  using assms by (auto simp: agent_wire_def rbind_eq_Inr Let_def split_def)

lemma run_current: "rr_current (run_start b) = agent_version b" "rq_version (run_request b e v channel origin) = vi_version v"
  by (simp_all add: run_start_def run_request_def)

lemma run_cases:
  assumes "run b jp jd sha e act channel origin fl h = Some (h', fl', r)"
  obtains (quiet) "h' = h"
  | (applied) v a where "fetch_latest_version b jp (re_http e) channel = Inr v" "vi_version v \<noteq> agent_version b"
      "apply_with_watchdog b jd sha (re_apply e) (run_request b e v channel origin) fl h = Some (h', fl', a)"
proof (cases "fetch_latest_version b jp (re_http e) channel")
  case (Inl x)
  with assms quiet show thesis by (simp add: run_def Let_def split: if_splits)
next
  case (Inr v)
  let ?A = "apply_with_watchdog b jd sha (re_apply e) (run_request b e v channel origin) fl h"
  have "h' = h \<or> (vi_version v \<noteq> agent_version b \<and> (\<exists>a. ?A = Some (h', fl', a)))"
  proof (cases "android b \<or> vi_version v = [] \<or> vi_version v = agent_version b \<or> act \<noteq> Apply")
    case True
    with assms Inr show ?thesis by (auto simp: run_def run_current Let_def split: if_splits)
  next
    case False
    then have g: "\<not> android b" "vi_version v \<noteq> []" "agent_version b \<noteq> vi_version v" "act = Apply" by auto
    with assms Inr have "(case ?A of
        None \<Rightarrow> None
      | Some (h', fl, Inl x) \<Rightarrow> Some (h', fl, Inl x)
      | Some (h', fl, Inr ar) \<Rightarrow> Some (h', fl, Inr (run_report ((run_start b)\<lparr>rr_latest := vi_version v\<rparr>) ar))) = Some (h', fl', r)"
      by (simp add: run_def run_current Let_def)
    with g show ?thesis by (auto split: option.splits sum.splits)
  qed
  with Inr quiet applied show thesis by blast
qed

lemma poll_step_disk:
  assumes "installed_runs X (pf_build pf) s old" and "runs_on X pf" and "pl_version p = agent_version (pf_build pf)"
    and "run_cycle pf e p fl [s] = Some (p', h, fl', r)"
    and "\<And>l man. poll_gates pf e p s l man \<Longrightarrow>
      placed_apply X (pf_build pf) (pe_apply e) (poll_request pf p l man)"
    and "t \<in> set h"
  shows "t = s \<or> disk_step X Installing s t"
  using assms(4)
proof (cases rule: run_cycle_cases)
  case quiet
  with assms(6) show ?thesis by simp
next
  case (applied path l man a)
  have g: "poll_gates pf e p s l man" using applied(3) by simp
  note ok = assms(5) [OF g]
  have "mf_version man \<noteq> si_version X old" using g assms(1,3) by (simp add: poll_gates_def installed_runs_def)
  then have "requested_at X (pf_build pf) (pe_apply e) (poll_request pf p l man) old"
    using ok assms(1) by (simp add: requested_at_def placed_apply_def installed_runs_def)
  then have "disk_step X Installing s t"
    using disk_step.applies [of s X old "pf_build pf" "pe_apply e" "poll_request pf p l man" fl h fl' a t]
      assms(1,2,6) applied(4) ok by (auto simp: installed_runs_def runs_on_def placed_apply_def)
  then show ?thesis ..
qed

lemma update_step_disk:
  assumes "installed_runs X b s old"
    and "run b (si_parse X) (si_dump X) (si_sha X) e act channel origin fl [s] = Some (h, fl', r)"
    and "\<And>v. fetch_latest_version b (si_parse X) (re_http e) channel = Inr v \<Longrightarrow>
      placed_apply X b (re_apply e) (run_request b e v channel origin)"
    and "t \<in> set h"
  shows "t = s \<or> disk_step X Installing s t"
  using assms(2)
proof (cases rule: run_cases)
  case quiet
  with assms(4) show ?thesis by simp
next
  case (applied v a)
  note ok = assms(3) [OF applied(1)]
  have "requested_at X b (re_apply e) (run_request b e v channel origin) old"
    using ok assms(1) applied(2) by (simp add: requested_at_def placed_apply_def installed_runs_def run_current)
  then have "disk_step X Installing s t"
    using disk_step.applies [of s X old b "re_apply e" "run_request b e v channel origin" fl h fl' a t]
      assms(1,4) applied(3) ok by (auto simp: installed_runs_def placed_apply_def)
  then show ?thesis ..
qed

lemma program_step_disk:
  assumes "program_step X ev s t"
  shows "t = s \<or> disk_step X ev s t"
  using assms
proof cases
  case (starts pf old e config_path c h r)
  then obtain o' where "check_boot (si_parse X) (si_dump X) (an_wd e) (si_dir X) (si_version X old) [s] = Some (h, o')"
    using new_agent_boots [OF starts(6,5)] using starts(2,3) by (auto simp: installed_runs_def runs_on_def)
  with starts show ?thesis by (auto simp: installed_runs_def intro: disk_step.boots)
next
  case (polls pf old p e fl p' h fl' r)
  show ?thesis unfolding polls(1) by (rule poll_step_disk [OF polls(2-)])
next
  case (updates b old e act channel origin fl h fl' r)
  show ?thesis unfolding updates(1) by (rule update_step_disk [OF updates(2-)])
next
  case (reacts pf old e c config_path a w st reason w' h eff)
  have "new_watchdog (si_parse X) s (si_dir X) (si_version X old) = Inr w"
    using wired_watchdog [OF reacts(5,6)] reacts(2,3) by (simp add: installed_runs_def runs_on_def)
  with reacts show ?thesis by (auto simp: installed_runs_def runs_on_def intro: disk_step.reacts)
next
  case (expires pf old e c config_path a w w' h eff)
  have "new_watchdog (si_parse X) s (si_dir X) (si_version X old) = Inr w"
    using wired_watchdog [OF expires(5,6)] expires(2,3) by (simp add: installed_runs_def runs_on_def)
  with expires show ?thesis by (auto simp: installed_runs_def runs_on_def intro: disk_step.expires)
qed

section \<open>A concrete start on trial\<close>

definition watch_site :: site where
  "watch_site = \<lparr>si_parse = ref_parse, si_dump = ref_dump, si_sha = pf_sha trial_platform,
     si_version = (\<lambda>c. if c = ''new'' then ''v1.8.0'' else ''v1.7.5''), si_install = ''/bin/agent'', si_dir = ''/etc/t''\<rparr>"

definition trial_disk :: fs where
  "trial_disk = demo_disk (marker_dump ref_dump demo_marker)"

lemma watch_site_sel [simp]:
  "si_parse watch_site = ref_parse" "si_dump watch_site = ref_dump" "si_install watch_site = ''/bin/agent''"
  "si_dir watch_site = ''/etc/t''" "si_sha watch_site = pf_sha trial_platform"
  "si_version watch_site c = (if c = ''new'' then ''v1.8.0'' else ''v1.7.5'')"
  "site_marker watch_site = ''/etc/t/update.state''" "site_backup watch_site = ''/bin/agent.prev''"
  by (simp_all add: watch_site_def site_marker_def site_backup_def demo_state_file)

lemma trial_disk_data:
  "data_of trial_disk ''/bin/agent'' = Some ''new''" "data_of trial_disk ''/bin/agent.prev'' = Some ''old''"
  "data_of trial_disk ''/etc/t/update.state'' = Some (marker_dump ref_dump demo_marker)"
  by (simp_all add: trial_disk_def demo_disk_def data_of_def)

lemma trial_disk_shown: "displays watch_site trial_disk (Trial ''new'' ''old'' 0)"
proof -
  have "um_prev_binary demo_marker = ''/bin/agent.prev''" by (simp add: demo_marker_def)
  with marker_on_written [of watch_site trial_disk demo_marker] show ?thesis
    by (auto simp: displays_simps on_trial_def trial_disk_data json_text_ref demo_marker_ok demo_marker_sel)
qed

lemma trial_start:
  "\<exists>h a. new_agent trial_platform trial_env demo_credentials ''/etc/t/config.json'' [trial_disk] = Some (h, Inr a) \<and>
     program_step watch_site Starting trial_disk (hd h)"
proof -
  obtain h a where a: "new_agent trial_platform trial_env demo_credentials ''/etc/t/config.json'' [trial_disk] = Some (h, Inr a)"
    using trial_agent unfolding trial_disk_def by blast
  have d: "agent_state_dir (an_session trial_env) ''/etc/t/config.json'' = Inr ''/etc/t''"
    by (simp add: agent_state_dir_def parent_path_def drop_slashes_def)
  have p: "pf_parse trial_platform = ref_parse" "pf_dump trial_platform = ref_dump" "an_wd trial_env = demo_boot 1"
    "agent_version (pf_build trial_platform) = ''v1.8.0''"
    by (simp_all add: trial_platform_def trial_env_def)
  obtain h1 where b: "check_boot ref_parse ref_dump (demo_boot 1) ''/etc/t'' (um_to demo_marker) [trial_disk] = Some (h1, Inr Proceed)"
      "h1 \<noteq> []"
    using check_boot_arm [OF json_text_ref demo_marker_ok demo_armed_disk demo_marker_sel(1), of "demo_boot 1"]
      demo_boot_works demo_marker_sel hext_ne unfolding trial_disk_def by fastforce
  from new_agent_boots [OF a d] b have ne: "h \<noteq> []" by (simp add: p demo_marker_sel)
  have "watched_at watch_site (an_wd trial_env)"
    by (simp add: watched_at_def p demo_boot_def record_files_def tmp_path_def demo_state_file demo_reverted_file)
  moreover have "installed_runs watch_site (pf_build trial_platform) trial_disk ''new''"
    by (simp add: installed_runs_def p trial_disk_data)
  moreover have "runs_on watch_site trial_platform" by (simp add: runs_on_def p)
  ultimately have "program_step watch_site Starting trial_disk (hd h)"
    using program_step.starts [of watch_site trial_platform trial_disk "''new''" trial_env "''/etc/t/config.json''" demo_credentials h "Inr a" "hd h"]
      a d ne by simp
  with a show ?thesis by blast
qed

end
