(* ===== verification/Rollout.thy ===== *)
theory Rollout
  imports Program
begin

text \<open>
  The good path of a release, end to end: the poll cycle installs it
  (\<open>src/thinr/runtime/update_poller.cpp\<close>, \<open>src/thinr/extensions/updater.cpp\<close>), the next start
  counts it and arms the watchdog (\<open>src/thinr/agent/agent.cpp\<close>), and the first ready connection
  confirms it (\<open>src/thinr/runtime/update_watchdog.cpp\<close>). What the other theories forbid, this
  one shows to happen: the gates and guards do not keep a good release out.
\<close>

section \<open>An apply that meets no failure\<close>

text \<open>
  No call fails, no session is open, the download ends with the binary \<open>new\<close>, which has the
  announced digest and reports a version.
\<close>

definition sound_apply :: "build \<Rightarrow> (json \<Rightarrow> string) \<Rightarrow> sha256 \<Rightarrow> apply_env \<Rightarrow> apply_request \<Rightarrow> string \<Rightarrow> bool" where
  "sound_apply b jd sha e rq new \<longleftrightarrow>
     ae_stat_ok e \<and> ae_sessions_start e = 0 \<and> ae_sessions_swap e = 0 \<and> download_binary (ae_download e) \<and>
     dl_contents (ae_download e) \<noteq> [] \<and> last (dl_contents (ae_download e)) = new \<and>
     digest_ok sha (rq_checksum rq) new \<and> verify_binary (ae_probe e) \<noteq> [] \<and> ae_copy e = Copied \<and>
     ae_rename_prev e \<and> ae_rename_swap e \<and> wa_works (ae_marker_write e) (marker_dump jd (apply_marker b e rq))"

lemma sound_fetch:
  assumes "sound_apply b jd sha e rq new"
  obtains h1 where "apply_fetch e sha rq h = (h1, None)" and "data_of (hd h1) (new_path e) = Some new"
proof -
  let ?h = "fold (\<lambda>c. hstep (put_file (new_path e) c)) (dl_contents (ae_download e)) h"
  have d: "data_of (hd ?h) (new_path e) = Some new" using assms by (simp add: hd_download sound_apply_def)
  show thesis
    by (rule that [of "if ae_chmod e then hstep (add_exec (new_path e)) ?h else ?h"])
      (use assms d in \<open>auto simp: apply_fetch_def Let_def sound_apply_def digest_ok_def compute_sha256_def\<close>)
qed

lemma sound_backup:
  assumes "sound_apply b jd sha e rq new" and "data_of (hd h) (ae_install e) \<noteq> None"
  obtains h1 where "apply_backup e h = (h1, None)"
  using assms by (auto simp: apply_backup_def Let_def sound_apply_def hd_hremove fexists_data)

lemma sound_swap:
  assumes "sound_apply b jd sha e rq new" and "data_of (hd h) (new_path e) = Some new" and "apart e rq" and "h \<noteq> []"
  obtains h1 r where "apply_swap b jd e rq h = Some (h1, r)" and "ar_status r = Updated"
    and "data_of (hd h1) (ae_install e) = Some new"
    and "data_of (hd h1) (prev_path e) = data_of (hd h) (prev_path e)"
    and "data_of (hd h1) (state_file (rq_state_dir rq)) = Some (marker_dump jd (apply_marker b e rq))"
proof -
  let ?st = "state_file (rq_state_dir rq)" and ?c = "marker_dump jd (apply_marker b e rq)"
  obtain h1 where w: "hwrite (ae_marker_write e) ?st ?c 420 h = Some (h1, True)"
    using hwrite_works assms(1) unfolding sound_apply_def by blast
  have keep: "data_of (hd h1) q = data_of (hd h) q" if "q \<in> {new_path e, prev_path e}" for q
    by (rule hext_hd [OF hext_write [OF w assms(4)]]) (use that assms(3) in \<open>auto simp: apart_def\<close>)
  have there: "fexists (hd h1) (new_path e)" using keep assms(2) by (simp add: fexists_data)
  show thesis
    by (rule that [of "hstep (frename (new_path e) (ae_install e)) h1"])
      (use assms w there keep hwrite_data [OF w] in
        \<open>auto simp: apply_swap_def Let_def sound_apply_def data_of_rename apart_def\<close>)
qed

lemma apply_goes_through:
  assumes "sound_apply b jd sha e rq new" and "apart e rq" and "\<not> android b" and "rq_version rq \<noteq> []"
    and "data_of s (state_file (rq_state_dir rq)) = None" and "data_of s (ae_install e) = Some old"
  shows "\<exists>h ar. apply_with_watchdog b jd sha e rq False [s] = Some (h, False, Inr ar) \<and> ar_status ar = Updated \<and>
    data_of (hd h) (ae_install e) = Some new \<and> data_of (hd h) (prev_path e) = Some old \<and>
    data_of (hd h) (state_file (rq_state_dir rq)) = Some (marker_dump jd (apply_marker b e rq))"
proof -
  obtain h1 where f: "apply_fetch e sha rq [s] = (h1, None)" "data_of (hd h1) (new_path e) = Some new"
    by (rule sound_fetch [OF assms(1)])
  have e1: "hext {new_path e} [s] h1" by (rule apply_fetch_ext [OF f(1)]) simp
  have i: "data_of (hd h1) (ae_install e) = Some old" using hext_hd [OF e1, of "ae_install e"] assms(6) by simp
  then obtain h2 where k: "apply_backup e h1 = (h2, None)" using sound_backup [OF assms(1), of h1] by auto
  note k1 = apply_backup_accepts [OF k]
  have "h2 \<noteq> []" using hext_ne [OF apply_backup_ext [OF k hext_ne [OF e1]]] .
  then obtain h3 r where w: "apply_swap b jd e rq h2 = Some (h3, r)" "ar_status r = Updated"
      "data_of (hd h3) (ae_install e) = Some new" "data_of (hd h3) (prev_path e) = data_of (hd h2) (prev_path e)"
      "data_of (hd h3) (state_file (rq_state_dir rq)) = Some (marker_dump jd (apply_marker b e rq))"
    using sound_swap [OF assms(1) _ assms(2), of h2] f(2) k1(3) by auto
  have "apply_with_watchdog b jd sha e rq False [s] = Some (h3, False, Inr r)"
    using assms(1,3-5) f(1) k w(1) by (auto simp: apply_with_watchdog_def sound_apply_def fexists_data)
  then show ?thesis using w(2-5) k1(1) i by auto
qed

section \<open>The cycle\<close>

lemma gates_apply:
  assumes "config_path_of (pe_session e) (pl_config_path p) = Inr path"
    and "l = settings_from_json (read_update_section (pf_parse pf) (pe_cfg e) s path)"
    and "poll_gates pf e p s l man"
    and "apply_with_watchdog (pf_build pf) (pf_dump pf) (pf_sha pf) (pe_apply e) (poll_request pf p l man) fl [s] = Some (h, fl', Inr ar)"
    and "ar_status ar = Updated"
  shows "\<exists>p'. run_cycle pf e p fl [s] = Some (p', h, fl', Inr Restarting)"
proof -
  let ?p = "p\<lparr>pl_interval_h := us_check_interval_h l\<rparr>"
  have ro: "remote_override ?p = remote_override p" "poll_request pf ?p l = poll_request pf p l"
    by (simp_all add: remote_override_def poll_request_def fun_eq_iff)
  obtain rv where rv: "last_reverted (pf_parse pf) s (pl_state_dir p) = Inr rv"
    "\<forall>r. rv = Some r \<longrightarrow> \<not> skip_reverted_version r (mf_version man) (pe_now_revert e) REVERTED_RETRY_COOLDOWN_S"
    using assms(3) by (auto simp: poll_gates_def)
  show ?thesis
    using assms(1,3-5) rv
    by (cases rv) (simp_all add: run_cycle_def poll_gates_def ro Let_def flip: assms(2) del: is_eligible.simps)
qed

lemma gated_version:
  assumes "poll_gates pf e p s l man"
  shows "mf_version man \<noteq> []" "mf_version man \<noteq> pl_version p"
proof -
  have "fetch_manifest (pf_fpu pf) (pf_parse pf) (pe_http e) (us_channel l) = Some man" "mf_valid man"
    using assms by (simp_all add: poll_gates_def)
  then show "mf_version man \<noteq> []"
    by (auto simp: fetch_manifest_def manifest_parse_def manifest_of_json_def parse_flags empty_manifest_def Let_def
        split: http_out.splits option.splits if_splits)
  show "mf_version man \<noteq> pl_version p" using assms by (simp add: poll_gates_def)
qed

section \<open>The confirmation\<close>

text \<open>A trial whose streams become ready while the files can be removed.\<close>

lemma ready_confirms:
  assumes "marker_on X s m" and "um_phase m = Pending" and "um_to m = si_version X new" and "data_of s (si_install X) = Some new"
    and "new_watchdog (si_parse X) s (si_dir X) (si_version X new) = Inr w" and "watched_at X e" and "\<And>q. we_remove e q"
  shows "\<exists>w' h. on_state (si_parse X) (si_dump X) e STREAMS_READY reason w [s] =
      Some (w', h, Some (Confirmed (report e ''confirmed'' (um_from m) (um_to m) ''ok''))) \<and>
    displays X (hd h) (Settled new) \<and> data_of (hd h) (site_backup X) = None"
proof -
  have w: "w = \<lparr>wd_state_dir = si_dir X, wd_version = si_version X new, wd_marker = m, wd_armed = True,
      wd_report_pending = False, wd_resolved = False, wd_deadline_stop = False,
      wd_deadline_s = (if um_deadline_s m > 0 then um_deadline_s m else 90)\<rparr>"
    using assms(2,3,5) marker_read [OF assms(1)] by (simp add: new_watchdog_def Let_def)
  have b: "um_prev_binary m = site_backup X" "site_backup X \<noteq> []"
    using assms(1) by (simp_all add: marker_on_def site_backup_def)
  note files = watched_files [OF assms(6)]
  let ?h = "hremove (we_remove e) (site_backup X) (hremove (we_remove e) (site_marker X) [s])"
  have "\<exists>w'. on_state (si_parse X) (si_dump X) e STREAMS_READY reason w [s] =
      Some (w', ?h, Some (Confirmed (report e ''confirmed'' (um_from m) (um_to m) ''ok'')))"
    unfolding w using b
    by (simp add: on_state_def on_state_claim_def event_of_def run_task_def confirm_def Let_def flip: site_marker_def)
  moreover have "displays X (hd ?h) (Settled new)" "data_of (hd ?h) (site_backup X) = None"
    using assms(4,7) files by (simp_all add: displays_simps hd_hremove)
  ultimately show ?thesis by blast
qed

section \<open>The first start\<close>

text \<open>A start of the binary \<open>new\<close> on its installation that can write its marker.\<close>

definition sound_start :: "site \<Rightarrow> platform \<Rightarrow> agent_env \<Rightarrow> credentials \<Rightarrow> string \<Rightarrow> update_marker \<Rightarrow> string \<Rightarrow> bool" where
  "sound_start X pf e c config_path m new \<longleftrightarrow>
     runs_on X pf \<and> agent_version (pf_build pf) = si_version X new \<and> cr_is_valid c \<and>
     agent_state_dir (an_session e) config_path = Inr (si_dir X) \<and> watched_at X (an_wd e) \<and>
     wa_works (we_write_marker (an_wd e)) (marker_dump (si_dump X) (m\<lparr>um_attempts := 1\<rparr>))"

lemma trial_starts:
  assumes "json_text (si_parse X) (si_dump X)" and "sound_start X pf e c config_path m new" and "marker_ok m"
    and "data_of t (site_marker X) = Some (marker_dump (si_dump X) m)" and "um_prev_binary m = site_backup X"
    and "um_phase m = Pending" and "um_attempts m = 0" and "um_to m = si_version X new"
    and "data_of t (si_install X) = Some new" and "data_of t (site_backup X) = Some old" and "si_version X new \<noteq> si_version X old"
  shows "\<exists>h a w. new_agent pf e c config_path [t] = Some (h, Inr a) \<and> ag_watchdog a = Some w \<and>
    new_watchdog (si_parse X) (hd h) (si_dir X) (si_version X new) = Inr w \<and>
    displays X (hd h) (Trial new old 1) \<and> marker_on X (hd h) (m\<lparr>um_attempts := 1\<rparr>)"
proof -
  let ?m = "m\<lparr>um_attempts := 1\<rparr>"
  have e: "runs_on X pf" "agent_version (pf_build pf) = si_version X new" "cr_is_valid c"
    "agent_state_dir (an_session e) config_path = Inr (si_dir X)" "watched_at X (an_wd e)"
    "wa_works (we_write_marker (an_wd e)) (marker_dump (si_dump X) (m\<lparr>um_attempts := um_attempts m + 1\<rparr>))"
    using assms(2,7) by (simp_all add: sound_start_def)
  note files = watched_files [OF e(5)]
  have st: "state_file (si_dir X) = site_marker X" by (simp add: site_marker_def)
  obtain h where b: "check_boot (si_parse X) (si_dump X) (an_wd e) (si_dir X) (um_to m) [t] = Some (h, Inr Proceed)"
      "data_of (hd h) (site_marker X) = Some (marker_dump (si_dump X) ?m)"
      "hext {site_marker X, tmp_path (we_write_marker (an_wd e)) (site_marker X)} [t] h"
    using check_boot_arm [OF assms(1,3), of "[t]" "si_dir X" "an_wd e"] assms(4,6,7) e(6) by (auto simp: st)
  have keep: "data_of (hd h) q = data_of t q" if "q \<in> {si_install X, site_backup X}" for q
    using hext_hd [OF b(3), of q] that e(5) by (auto simp: watched_at_def record_files_def st)
  have mk: "marker_on X (hd h) ?m"
    by (rule marker_on_written [OF assms(1) b(2)]) (use assms(3,5) in \<open>simp_all add: marker_ok_def in_int32_def\<close>)
  obtain w where w: "new_watchdog (si_parse X) (hd h) (si_dir X) (si_version X new) = Inr w"
    using marker_read [OF mk] assms(6,8) by (simp add: new_watchdog_def Let_def)
  then obtain a where a: "agent_wire pf e c config_path (si_dir X) (hd h) = Inr a" "ag_watchdog a = Some w"
    using e(1,2) by (auto simp: agent_wire_def runs_on_def Let_def split_def)
  have "new_agent pf e c config_path [t] = Some (h, Inr a)"
    using e(1-4) b(1) a(1) assms(8) by (simp add: new_agent_def runs_on_def)
  moreover have "displays X (hd h) (Trial new old 1)"
    using keep mk assms(6,8-11) by (auto simp: displays_simps on_trial_def)
  ultimately show ?thesis using a(2) w mk by blast
qed

section \<open>Claims\<close>

text \<open>
  C3. A good release reaches the device and stays: on a settled installation whose gates are
  open, the poll cycle that meets no failure installs the announced binary and asks for the
  restart; the next start runs it on trial, with the predecessor kept and one start counted;
  the first ready connection confirms it, tells the cloud, and leaves the new binary settled
  without marker or backup.
\<close>

theorem good_release_is_confirmed:
  assumes "json_text (si_parse X) (si_dump X)" and "displays X s (Settled old)"
    and "installed_runs X (pf_build pf) s old" and "runs_on X pf" and "\<not> android (pf_build pf)"
    and "config_path_of (pe_session e) (pl_config_path p) = Inr path"
    and "l = settings_from_json (read_update_section (pf_parse pf) (pe_cfg e) s path)" and "poll_gates pf e p s l man"
    and "rq = poll_request pf p l man" and "requested_at X (pf_build pf) (pe_apply e) rq old"
    and "sound_apply (pf_build pf) (pf_dump pf) (pf_sha pf) (pe_apply e) rq new" and "si_version X new = mf_version man"
    and "sound_start X pf' e' c config_path (apply_marker (pf_build pf) (pe_apply e) rq) new"
    and "watched_at X ready" and "\<And>q. we_remove ready q"
  shows "\<exists>p' h h' a w w' h''.
    run_cycle pf e p False [s] = Some (p', h, False, Inr Restarting) \<and> displays X (hd h) (Trial new old 0) \<and>
    new_agent pf' e' c config_path [hd h] = Some (h', Inr a) \<and> displays X (hd h') (Trial new old 1) \<and>
    ag_watchdog a = Some w \<and>
    on_state (pf_parse pf') (pf_dump pf') ready STREAMS_READY reason w [hd h'] =
      Some (w', h'', Some (Confirmed (report ready ''confirmed'' (si_version X old) (mf_version man) ''ok''))) \<and>
    displays X (hd h'') (Settled new) \<and> data_of (hd h'') (site_backup X) = None"
proof -
  let ?m = "apply_marker (pf_build pf) (pe_apply e) rq"
  have r: "ae_install (pe_apply e) = si_install X" "rq_state_dir rq = si_dir X" "apart (pe_apply e) rq" "marker_ok ?m"
    "rq_version rq \<noteq> si_version X old" using assms(10) by (simp_all add: requested_at_def)
  have v: "rq_version rq = mf_version man" "rq_version rq \<noteq> []" using gated_version [OF assms(8)] by (simp_all add: assms(9))
  have m: "um_phase ?m = Pending" "um_to ?m = si_version X new" "um_attempts ?m = 0" "um_prev_binary ?m = site_backup X"
    "um_from ?m = si_version X old"
    using assms(3) v(1) by (simp_all add: apply_marker_def prev_path_def site_backup_def r(1) assms(12) installed_runs_def)
  have st: "state_file (rq_state_dir rq) = site_marker X" "prev_path (pe_apply e) = site_backup X"
    by (simp_all add: r site_marker_def prev_path_def site_backup_def)
  have s: "data_of s (state_file (rq_state_dir rq)) = None" "data_of s (ae_install (pe_apply e)) = Some old"
    using assms(2) by (simp_all add: st r(1) displays_simps)
  obtain h ar where A: "apply_with_watchdog (pf_build pf) (pf_dump pf) (pf_sha pf) (pe_apply e) rq False [s] = Some (h, False, Inr ar)"
      "ar_status ar = Updated" "data_of (hd h) (si_install X) = Some new" "data_of (hd h) (site_backup X) = Some old"
      "data_of (hd h) (site_marker X) = Some (marker_dump (si_dump X) ?m)"
    using apply_goes_through [OF assms(11) r(3) assms(5) v(2) s] assms(4) unfolding st r(1) by (auto simp: runs_on_def)
  from gates_apply [OF assms(6-8) A(1) [unfolded assms(9)] A(2)]
  obtain p' where cycle: "run_cycle pf e p False [s] = Some (p', h, False, Inr Restarting)" by blast
  have ne: "si_version X new \<noteq> si_version X old" using r(5) v(1) assms(12) by simp
  have trial: "displays X (hd h) (Trial new old 0)"
    using A(3,4) ne m marker_on_written [OF assms(1) A(5) r(4) m(4)] by (auto simp: displays_simps on_trial_def)
  obtain h' a w where boot: "new_agent pf' e' c config_path [hd h] = Some (h', Inr a)" "ag_watchdog a = Some w"
      "new_watchdog (si_parse X) (hd h') (si_dir X) (si_version X new) = Inr w"
      "displays X (hd h') (Trial new old 1)" "marker_on X (hd h') (?m\<lparr>um_attempts := 1\<rparr>)"
    using trial_starts [OF assms(1,13) r(4) A(5) m(4,1,3,2) A(3,4) ne] by blast
  have i: "data_of (hd h') (si_install X) = Some new" using boot(4) by (simp add: displays_simps on_trial_def)
  have pf': "pf_parse pf' = si_parse X" "pf_dump pf' = si_dump X" using assms(13) by (simp_all add: sound_start_def runs_on_def)
  have "\<exists>w' h''. on_state (si_parse X) (si_dump X) ready STREAMS_READY reason w [hd h'] =
      Some (w', h'', Some (Confirmed (report ready ''confirmed'' (si_version X old) (mf_version man) ''ok''))) \<and>
      displays X (hd h'') (Settled new) \<and> data_of (hd h'') (site_backup X) = None"
    using ready_confirms [OF boot(5) _ _ i boot(3) assms(14,15), of reason] m assms(12) by simp
  with cycle trial boot(1,2,4) show ?thesis unfolding pf' by blast
qed

text \<open>Version v1.8.0 is announced to everybody; the installed binary is v1.7.5.\<close>

definition roll_document :: json where
  "roll_document = JObj [(''version'', JStr ''v1.8.0'')]"

definition roll_manifest :: manifest where
  "roll_manifest = empty_manifest\<lparr>mf_version := ''v1.8.0'', mf_valid := True\<rparr>"

definition roll_platform :: platform where
  "roll_platform = demo_platform\<lparr>pf_parse := ref_parse, pf_dump := ref_dump\<rparr>"

definition roll_request :: apply_request where
  "roll_request = poll_request roll_platform demo_poller (settings_from_json (JObj [])) roll_manifest"

definition roll_marker :: update_marker where
  "roll_marker = apply_marker demo_build demo_env roll_request"

definition roll_poll :: poll_env where
  "roll_poll = demo_poll\<lparr>pe_http := (\<lambda>_. HttpResponse 200 (ref_dump roll_document)),
     pe_apply := demo_env\<lparr>ae_marker_write := good_wa (marker_dump ref_dump roll_marker)\<rparr>\<rparr>"

definition roll_start :: agent_env where
  "roll_start = trial_env\<lparr>an_wd := (demo_wd [] (marker_dump ref_dump (roll_marker\<lparr>um_attempts := 1\<rparr>)))\<lparr>we_install := ''/opt/a''\<rparr>\<rparr>"

lemma roll_request_sel:
  "rq_version roll_request = ''v1.8.0''" "rq_state_dir roll_request = ''/etc/t''" "rq_checksum roll_request = []"
  by (simp_all add: roll_request_def poll_request_def roll_manifest_def demo_poller_def new_poller_def empty_manifest_def checksum_for_def)

lemma roll_fields:
  "pf_build roll_platform = demo_build" "pf_parse roll_platform = ref_parse" "pf_dump roll_platform = ref_dump"
  "pf_sha roll_platform = (\<lambda>_. Some [1, 255])" "pf_fpu roll_platform = exact_fpu"
  "pe_session roll_poll = pe_session demo_poll" "pe_cfg roll_poll = demo_cfg []"
  "pe_http roll_poll = (\<lambda>_. HttpResponse 200 (ref_dump roll_document))"
  "pe_apply roll_poll = demo_env\<lparr>ae_marker_write := good_wa (marker_dump ref_dump roll_marker)\<rparr>"
  "pl_config_path demo_poller = []" "pl_state_dir demo_poller = ''/etc/t''" "pl_version demo_poller = ''v1.7.5''"
  "pl_connected demo_poller" "remote_override demo_poller = None" "pl_device_id demo_poller = ''dev''"
  by (simp_all add: roll_platform_def demo_platform_def roll_poll_def demo_poll_def demo_poller_def new_poller_def remote_override_def)

lemma roll_parsed: "manifest_parse exact_fpu ref_parse (ref_dump roll_document) = roll_manifest"
proof -
  have "jfind roll_document k = (if k = ''version'' then Some (JStr ''v1.8.0'') else None)" for k
    by (simp add: roll_document_def smap_get_def)
  moreover have "jnorm roll_document = roll_document" "is_object roll_document" by (simp_all add: roll_document_def)
  ultimately show ?thesis
    by (simp add: manifest_parse_def ref_text manifest_of_json_def parse_frozen_def parse_staging_def jcontains_def
        parse_checksums_def roll_manifest_def Let_def empty_manifest_def number_of_def positive_def)
qed

lemma roll_path: "config_path_of (pe_session roll_poll) (pl_config_path demo_poller) = Inr ''/etc/thinr-agent/config.json''"
  by (simp add: roll_fields demo_poll_def) code_simp

lemma roll_settings:
  "read_update_section (pf_parse roll_platform) (pe_cfg roll_poll) demo_fs ''/etc/thinr-agent/config.json'' = JObj []"
  by (simp add: read_update_section_def read_raw_def cfg_exists_def roll_fields demo_cfg_def demo_fs_def fexists_def)

lemma roll_gates: "poll_gates roll_platform roll_poll demo_poller demo_fs (settings_from_json (JObj [])) roll_manifest"
proof -
  have "effective_policy (settings_from_json (JObj [])) None = Automatic" by code_simp
  moreover have "fetch_manifest exact_fpu ref_parse (pe_http roll_poll) ch = Some roll_manifest" for ch
    by (simp add: fetch_manifest_def roll_fields roll_parsed)
  moreover have "last_reverted ref_parse demo_fs ''/etc/t'' = Inr None"
    by (simp add: last_reverted_def demo_fs_def data_of_def flip: reverted_file_def) (simp add: demo_reverted_file)
  ultimately show ?thesis
    by (simp add: poll_gates_def roll_fields roll_manifest_def empty_manifest_def evaluate_eligibility_def)
qed

lemma roll_marker_sel:
  "um_to roll_marker = ''v1.8.0''" "um_from roll_marker = ''v1.7.5''" "marker_ok roll_marker"
proof -
  have d: "rq_deadline_s roll_request = 90"
    unfolding roll_request_def poll_request_def by simp code_simp
  show "um_to roll_marker = ''v1.8.0''" "um_from roll_marker = ''v1.7.5''" "marker_ok roll_marker"
    by (simp_all add: roll_marker_def apply_marker_def roll_request_sel d demo_build_def marker_ok_def prev_path_def demo_env_def
        ascii_def code_of_def in_int32_def in_int64_def)
qed

lemma roll_applied: "apply_marker demo_build (pe_apply roll_poll) roll_request = roll_marker"
  by (simp add: roll_fields roll_marker_def apply_marker_def prev_path_def)

lemma roll_sound: "sound_apply demo_build ref_dump (\<lambda>_. Some [1, 255]) (pe_apply roll_poll) roll_request ''new''"
proof -
  have "verify_binary (ae_probe demo_env) = ''v1.8.0''" by code_simp
  then show ?thesis
    by (simp add: sound_apply_def roll_applied) (simp add: roll_fields demo_env_def download_binary_def digest_ok_def roll_request_sel)
qed

lemma roll_requested: "requested_at demo_site demo_build (pe_apply roll_poll) roll_request ''old''"
proof -
  have "apart (pe_apply roll_poll) roll_request"
    by (simp add: apart_def roll_fields demo_env_def roll_request_sel demo_state_file new_path_def prev_path_def prev_tmp_def
        tmp_path_def)
  then show ?thesis
    by (simp add: requested_at_def roll_applied roll_marker_sel roll_request_sel)
      (simp add: roll_fields demo_env_def demo_build_def)
qed

lemma roll_started: "sound_start demo_site trial_platform roll_start demo_credentials ''/etc/t/config.json'' roll_marker ''new''"
proof -
  have "cr_is_valid demo_credentials" by (simp add: cr_is_valid_def demo_credentials_def)
  then show ?thesis
    by (simp add: sound_start_def runs_on_def trial_platform_def demo_platform_def demo_build_def agent_state_dir_def parent_path_def
        drop_slashes_def roll_start_def demo_wd_def watched_at_def record_files_def tmp_path_def demo_state_file demo_reverted_file)
qed

lemma good_release_is_confirmed_witness:
  "\<exists>p' h h' h'' a w w' eff. run_cycle roll_platform roll_poll demo_poller False [demo_fs] = Some (p', h, False, Inr Restarting) \<and>
     new_agent trial_platform roll_start demo_credentials ''/etc/t/config.json'' [hd h] = Some (h', Inr a) \<and>
     on_state ref_parse ref_dump watch_env STREAMS_READY [] w [hd h'] = Some (w', h'', Some eff) \<and>
     displays demo_site (hd h'') (Settled ''new'')"
proof -
  have r: "roll_request = poll_request roll_platform demo_poller (settings_from_json (JObj [])) roll_manifest"
    by (simp add: roll_request_def)
  have l: "settings_from_json (JObj []) =
      settings_from_json (read_update_section (pf_parse roll_platform) (pe_cfg roll_poll) demo_fs ''/etc/thinr-agent/config.json'')"
    by (simp only: roll_settings)
  have runs: "installed_runs demo_site (pf_build roll_platform) demo_fs ''old''" "runs_on demo_site roll_platform"
    "\<not> android (pf_build roll_platform)"
    by (simp_all add: installed_runs_def runs_on_def roll_fields demo_build_def demo_fs_def data_of_def)
  have v: "si_version demo_site ''new'' = mf_version roll_manifest" by (simp add: roll_manifest_def)
  have t: "pf_parse trial_platform = ref_parse" "pf_dump trial_platform = ref_dump" by (simp_all add: trial_platform_def)
  have pf: "pf_build roll_platform = demo_build" "pf_dump roll_platform = ref_dump" "pf_sha roll_platform = (\<lambda>_. Some [1, 255])"
    by (simp_all add: roll_fields)
  note ready = roll_requested [folded pf(1)] roll_sound [folded pf] roll_started [folded roll_applied, folded pf(1)]
  have "we_remove watch_env q" for q by (simp add: watch_env_sel)
  from good_release_is_confirmed [OF demo_json demo_site_settled runs roll_path l roll_gates r ready(1,2) v ready(3)
      watch_env_sel(3) this, of "[]"]
  show ?thesis unfolding t by blast
qed

end
