(* ===== verification/Manifest_Contract.thy ===== *)
theory Manifest_Contract
  imports Manifest
begin

text \<open>
  The contract between the agent and the release tools (\<open>docs/update-manifest.md\<close>), stated on
  the document itself, and the proof that parse and evaluation together
  (\<open>src/thinr/update/manifest.cpp\<close>) decide as it says, in exact arithmetic.
\<close>

section \<open>The contract\<close>

text \<open>Numbers are read as they are written; the version is a non-empty string.\<close>

definition field :: "json \<Rightarrow> string \<Rightarrow> rat option" where
  "field j k = number_of exact_fpu j k"

definition announces :: "json \<Rightarrow> string \<Rightarrow> bool" where
  "announces j v \<longleftrightarrow> jfind j ''version'' = Some (JStr v) \<and> v \<noteq> []"

definition staged :: "json \<Rightarrow> bool" where
  "staged j \<longleftrightarrow> jcontains j ''published_at'' \<or> jcontains j ''soak_h'' \<or> jcontains j ''ramp_h''"

text \<open>
  A device of fraction \<open>f\<close> at the instant \<open>now\<close>: a document without staging is for everybody; a
  staging block is all three members or nobody's; nobody before the publication and the soak;
  then everybody without a ramp, else those whose fraction the ramp has passed, at the frozen
  instant if there is one.
\<close>

definition contract :: "json \<Rightarrow> rat \<Rightarrow> int \<Rightarrow> bool" where
  "contract j f now \<longleftrightarrow>
     (\<exists>v. announces j v) \<and>
     (staged j \<longrightarrow>
       (case (field j ''published_at'', field j ''soak_h'', field j ''ramp_h'') of
          (Some published, Some soak, Some ramp) \<Rightarrow>
            0 < published \<and> 0 \<le> soak \<and> soak \<le> 8760 \<and> 0 \<le> ramp \<and> ramp \<le> 8760 \<and>
            (let soak_over = published + soak * 3600;
                 ramp_ref = (case field j ''frozen_at'' of
                    Some z \<Rightarrow> if 0 < z then min (of_int now) z else of_int now
                  | None \<Rightarrow> of_int now)
             in published \<le> of_int now \<and> soak_over \<le> of_int now \<and>
                (ramp = 0 \<or> f < (ramp_ref - soak_over) / 3600 / ramp))
        | _ \<Rightarrow> False))"

text \<open>The instants of the contract are whole numbers of the range of \<open>int64_t\<close>.\<close>

definition instant :: "json \<Rightarrow> string \<Rightarrow> bool" where
  "instant j k \<longleftrightarrow> (case jfind j k of
     Some (JInt n) \<Rightarrow> in_int64 n | Some (JUint n) \<Rightarrow> in_int64 n | None \<Rightarrow> True | _ \<Rightarrow> False)"

section \<open>Lemmas\<close>

lemma instant_read:
  assumes "instant j k"
  shows "field j k = (if jcontains j k then Some (of_int (int64_of j k)) else None)"
  using assms
  by (auto simp: instant_def field_def number_of_def int64_of_def jcontains_def exact_fpu_def split: option.splits json.splits)

lemma field_contained: "field j k = Some x \<Longrightarrow> jcontains j k"
  by (auto simp: field_def number_of_def jcontains_def split: option.splits)

lemma exact_fraction:
  assumes "sha (d @ '':'' @ v) = Some digest" and "8 \<le> length digest"
  shows "device_fraction exact_fpu sha d v = of_nat (unat (big_endian digest)) / 2 ^ 64"
proof -
  have "unat (big_endian digest) < 2 ^ 64" using unsigned_less [of "big_endian digest"] by simp
  then have "(of_nat (unat (big_endian digest)) :: rat) < of_nat (2 ^ 64)" by (simp only: of_nat_less_iff)
  then have "(of_nat (unat (big_endian digest)) :: rat) / 18446744073709551616 < 1" by simp
  with assms show ?thesis by (simp add: device_fraction_def exact_fpu_def Let_def)
qed

lemma exact_ramp:
  "soak_end exact_fpu m = of_int (mf_published_at m) + mf_soak_h m * 3600"
  "ramp_ratio exact_fpu m now =
     ((if mf_has_frozen m then min (of_int now) (of_int (mf_frozen_at m)) else of_int now) - soak_end exact_fpu m) / 3600 / mf_ramp_h m"
  by (simp_all add: soak_end_def ramp_ratio_def exact_fpu_def Let_def)

text \<open>What the parser makes of a document.\<close>

definition staging_ok :: "json \<Rightarrow> bool" where
  "staging_ok j \<longleftrightarrow> positive (field j ''published_at'') \<and> hours_ok (field j ''soak_h'') \<and> hours_ok (field j ''ramp_h'')"

lemma frozen_keeps:
  "mf_has_staging (parse_frozen F j m) = mf_has_staging m" "mf_staging_invalid (parse_frozen F j m) = mf_staging_invalid m"
  "mf_published_at (parse_frozen F j m) = mf_published_at m" "mf_soak_h (parse_frozen F j m) = mf_soak_h m"
  "mf_ramp_h (parse_frozen F j m) = mf_ramp_h m"
  by (simp_all add: parse_frozen_def)

lemma parsed_staging:
  assumes "m = manifest_of_json exact_fpu j" and "is_object j"
  shows "mf_valid m \<longleftrightarrow> (\<exists>v. announces j v)"
    and "announces j v \<Longrightarrow> mf_version m = v"
    and "mf_has_staging m \<longleftrightarrow> staging_ok j" and "mf_staging_invalid m \<longleftrightarrow> staged j \<and> \<not> staging_ok j"
    and "staging_ok j \<Longrightarrow> mf_published_at m = int64_of j ''published_at''"
    and "staging_ok j \<Longrightarrow> field j ''soak_h'' = Some (mf_soak_h m) \<and> field j ''ramp_h'' = Some (mf_ramp_h m)"
    and "mf_has_frozen m \<longleftrightarrow> positive (field j ''frozen_at'')"
    and "mf_has_frozen m \<Longrightarrow> mf_frozen_at m = int64_of j ''frozen_at''"
proof -
  define n where "n = (case jfind j ''version'' of Some (JStr s) \<Rightarrow> s | _ \<Rightarrow> [])"
  define m0 where "m0 = empty_manifest\<lparr>mf_version := n, mf_valid := (n \<noteq> []), mf_checksums := parse_checksums j\<rparr>"
  have m: "m = parse_frozen exact_fpu j (parse_staging exact_fpu j m0)"
    using assms by (simp add: manifest_of_json_def n_def m0_def Let_def)
  have m0: "mf_has_staging m0 = False" "mf_staging_invalid m0 = False" "mf_has_frozen m0 = False" "mf_version m0 = n" "mf_valid m0 = (n \<noteq> [])"
    by (simp_all add: m0_def empty_manifest_def)
  have here: "staging_ok j \<Longrightarrow> jcontains j ''published_at'' \<and> jcontains j ''soak_h'' \<and> jcontains j ''ramp_h''"
    by (auto simp: staging_ok_def positive_def hours_ok_def dest: field_contained)
  have st: "parse_staging exact_fpu j m0 =
      (if staging_ok j then m0\<lparr>mf_has_staging := True, mf_published_at := int64_of j ''published_at'',
          mf_soak_h := the (field j ''soak_h''), mf_ramp_h := the (field j ''ramp_h'')\<rparr>
       else if staged j then m0\<lparr>mf_staging_invalid := True\<rparr> else m0)"
    using here unfolding parse_staging_def Let_def staging_ok_def [symmetric] field_def [symmetric]
    by (auto simp: staged_def staging_ok_def)
  show "mf_valid m \<longleftrightarrow> (\<exists>v. announces j v)" "announces j v \<Longrightarrow> mf_version m = v"
    by (auto simp: m parse_flags m0 n_def announces_def split: option.splits json.splits)
  show "mf_has_staging m \<longleftrightarrow> staging_ok j" "mf_staging_invalid m \<longleftrightarrow> staged j \<and> \<not> staging_ok j"
    using here by (auto simp: m frozen_keeps st m0 staged_def)
  show "staging_ok j \<Longrightarrow> mf_published_at m = int64_of j ''published_at''"
    by (simp add: m st frozen_keeps)
  show "staging_ok j \<Longrightarrow> field j ''soak_h'' = Some (mf_soak_h m) \<and> field j ''ramp_h'' = Some (mf_ramp_h m)"
    by (auto simp: m st frozen_keeps staging_ok_def hours_ok_def)
  show "mf_has_frozen m \<longleftrightarrow> positive (field j ''frozen_at'')" "mf_has_frozen m \<Longrightarrow> mf_frozen_at m = int64_of j ''frozen_at''"
    by (auto simp: m st parse_frozen_def m0 field_def split: if_splits)
qed

lemma not_object: "\<not> is_object j \<Longrightarrow> jfind j k = None"
  by (cases j) simp_all

text \<open>The contract of a document in terms of the manifest read from it.\<close>

lemma staged_contract:
  assumes "m = manifest_of_json exact_fpu j" and "is_object j" and "staging_ok j"
    and "instant j ''published_at''" and "instant j ''frozen_at''"
  shows "contract j f now \<longleftrightarrow> mf_valid m \<and> mf_published_at m \<le> now \<and> soak_end exact_fpu m \<le> of_int now \<and>
    (mf_ramp_h m \<le> 0 \<or> f < ramp_ratio exact_fpu m now)"
proof -
  note p = parsed_staging [OF assms(1,2)]
  obtain P S R where F: "field j ''published_at'' = Some P" "field j ''soak_h'' = Some S" "field j ''ramp_h'' = Some R"
    and r: "0 < P" "0 \<le> S" "S \<le> 8760" "0 \<le> R" "R \<le> 8760"
    using assms(3) by (auto simp: staging_ok_def positive_def hours_ok_def)
  have n: "of_int (mf_published_at m) = P" "mf_soak_h m = S" "mf_ramp_h m = R"
    using p(5,6) [OF assms(3)] F instant_read [OF assms(4)] by (auto split: if_splits)
  have z: "(if mf_has_frozen m then min (of_int now) (of_int (mf_frozen_at m)) else of_int now :: rat) =
      (case field j ''frozen_at'' of Some z \<Rightarrow> if 0 < z then min (of_int now) z else of_int now | None \<Rightarrow> of_int now)"
    using p(7,8) instant_read [OF assms(5)] by (auto simp: positive_def split: option.splits if_splits)
  have pub: "mf_published_at m \<le> now \<longleftrightarrow> P \<le> of_int now" unfolding n(1) [symmetric] by simp
  have st: "staged j" using F field_contained by (auto simp: staged_def)
  have R: "R \<le> 0 \<longleftrightarrow> R = 0" using r(4) by auto
  show ?thesis
    unfolding p(1) pub exact_ramp n z R using r st by (simp only: contract_def F option.case prod.case Let_def simp_thms)
qed

lemma unstaged_contract: "\<not> staging_ok j \<Longrightarrow> contract j f now \<longleftrightarrow> (\<exists>v. announces j v) \<and> \<not> staged j"
  by (auto simp: contract_def staging_ok_def positive_def hours_ok_def Let_def split: option.splits)

lemma contract_no_object: "\<not> is_object j \<Longrightarrow> \<not> contract j f now"
  by (simp add: contract_def announces_def not_object)

section \<open>Claims\<close>

text \<open>
  C16. The agent keeps its side of the contract: for every document whose instants are whole
  numbers of 64 bits and every device, parsing and evaluating in exact arithmetic decides as
  the contract does with the device's fraction, the first eight bytes of the digest of
  \<open>id:version\<close> over \<open>2\<^sup>6\<^sup>4\<close>.
\<close>

theorem eligibility_matches_contract:
  assumes "jp txt = Some j" and "instant j ''published_at''" and "instant j ''frozen_at''"
    and "\<And>v. announces j v \<Longrightarrow> sha (device_id @ '':'' @ v) = Some digest" and "8 \<le> length digest"
  shows "is_eligible (evaluate_eligibility exact_fpu sha (manifest_parse exact_fpu jp txt) device_id now) \<longleftrightarrow>
    contract j (of_nat (unat (big_endian digest)) / 2 ^ 64) now"
proof (cases "is_object j")
  case False
  with assms(1) contract_no_object [OF False] show ?thesis
    by (simp add: manifest_parse_def manifest_of_json_def evaluate_eligibility_def empty_manifest_def)
next
  case True
  let ?f = "of_nat (unat (big_endian digest)) / 2 ^ 64 :: rat"
  obtain m where m: "m = manifest_of_json exact_fpu j" "manifest_parse exact_fpu jp txt = m"
    using assms(1) by (simp add: manifest_parse_def)
  note p = parsed_staging [OF m(1) True]
  have f: "device_fraction exact_fpu sha device_id (mf_version m) = ?f" if valid: "mf_valid m"
  proof -
    obtain v where v: "announces j v" using p(1) valid by blast
    with p(2) exact_fraction [of sha device_id v digest] assms(4) [OF v] assms(5) show ?thesis by simp
  qed
  have l: "ldbl exact_fpu x = x" for x by (simp add: exact_fpu_def)
  show ?thesis
  proof (cases "staging_ok j")
    case ok: True
    have "mf_has_staging m" "\<not> mf_staging_invalid m" using p(3,4) ok by blast+
    then show ?thesis
      unfolding m(2) staged_contract [OF m(1) True ok assms(2,3)] eligible_iff l using f by (cases "mf_valid m") auto
  next
    case False
    then show ?thesis unfolding m(2) unstaged_contract [OF False] eligible_iff using p(1,3,4) by blast
  qed
qed

text \<open>A staged release in its ramp: a device in the middle of the range is past it after 17 of 18 parts.\<close>

definition staged_document :: json where
  "staged_document = jobj [(''version'', JStr ''v1.8.0''), (''published_at'', JUint 1000), (''soak_h'', JUint 1), (''ramp_h'', JUint 1)]"

lemma eligibility_matches_contract_witness:
  "is_eligible (evaluate_eligibility exact_fpu demo_sha (manifest_parse exact_fpu (\<lambda>_. Some staged_document) ''{}'') ''dev'' 8000) \<and>
   contract staged_document (of_nat (unat (big_endian (replicate 32 128))) / 2 ^ 64) 8000"
proof -
  have be: "big_endian (replicate 32 128) = 9259542123273814144"
    unfolding big_endian_def take_digest by simp
  have j: "field staged_document ''published_at'' = Some 1000" "field staged_document ''soak_h'' = Some 1"
    "field staged_document ''ramp_h'' = Some 1" "field staged_document ''frozen_at'' = None"
    "announces staged_document v \<longleftrightarrow> v = ''v1.8.0''" "staged staged_document" for v
    by (auto simp: staged_document_def field_def number_of_def announces_def staged_def jcontains_def exact_fpu_def)
  have i: "instant staged_document ''published_at''" "instant staged_document ''frozen_at''"
    by (simp_all add: staged_document_def instant_def in_int64_def)
  have "contract staged_document (of_nat (unat (big_endian (replicate 32 128))) / 2 ^ 64) 8000"
    by (simp add: contract_def j be)
  with eligibility_matches_contract [of "\<lambda>_. Some staged_document" "''{}''" staged_document demo_sha "''dev''" "replicate 32 128" 8000, OF refl i]
  show ?thesis by (simp add: demo_sha_def)
qed

end
