(* ===== verification/Actions.thy ===== *)
theory Actions
  imports Prelude
begin

text \<open>
  Code that talks to the outside world (HTTP, processes, the terminal, files) as actions: a
  state of the world is passed along and kept even when the action throws. The combinators
  are the sequencing, \<open>try\<close> and \<open>catch\<close> of the sources; \<open>keeps\<close> is the invariant
  reasoning the components share.
\<close>

section \<open>Actions on a world\<close>

text \<open>An action returns or throws, and leaves the world changed in either case.\<close>

type_synonym ('w, 'a) act = "'w \<Rightarrow> 'a res \<times> 'w"

definition aret :: "'a \<Rightarrow> ('w, 'a) act" where
  "aret x = (\<lambda>w. (Inr x, w))"

definition athrow :: "exn \<Rightarrow> ('w, 'a) act" where
  "athrow e = (\<lambda>w. (Inl e, w))"

definition abind :: "('w, 'a) act \<Rightarrow> ('a \<Rightarrow> ('w, 'b) act) \<Rightarrow> ('w, 'b) act" where
  "abind m f = (\<lambda>w. case m w of (Inl e, w') \<Rightarrow> (Inl e, w') | (Inr x, w') \<Rightarrow> f x w')"

definition acatch :: "('w, 'a) act \<Rightarrow> (exn \<Rightarrow> ('w, 'a) act) \<Rightarrow> ('w, 'a) act" where
  "acatch m f = (\<lambda>w. case m w of (Inl e, w') \<Rightarrow> f e w' | (Inr x, w') \<Rightarrow> (Inr x, w'))"

text \<open>Running an action for its outcome, exceptions included.\<close>

definition atry :: "('w, 'a) act \<Rightarrow> ('w, 'a res) act" where
  "atry m = (\<lambda>w. case m w of (r, w') \<Rightarrow> (Inr r, w'))"

definition alift :: "'a res \<Rightarrow> ('w, 'a) act" where
  "alift r = (\<lambda>w. (r, w))"

text \<open>A loop over a list, left by the first exception.\<close>

primrec afor :: "('a \<Rightarrow> ('w, unit) act) \<Rightarrow> 'a list \<Rightarrow> ('w, unit) act" where
  "afor f [] = aret ()"
| "afor f (x # xs) = abind (f x) (\<lambda>_. afor f xs)"

named_theorems act_simps \<open>evaluation of actions\<close>

lemma aret_app [act_simps]: "aret x w = (Inr x, w)" by (simp add: aret_def)
lemma athrow_app [act_simps]: "athrow e w = (Inl e, w)" by (simp add: athrow_def)
lemma alift_app [act_simps]: "alift r w = (r, w)" by (simp add: alift_def)

lemma abind_Inr [act_simps]: "m w = (Inr x, w') \<Longrightarrow> abind m f w = f x w'" by (simp add: abind_def)
lemma abind_Inl [act_simps]: "m w = (Inl e, w') \<Longrightarrow> abind m f w = (Inl e, w')" by (simp add: abind_def)

lemma atry_app [act_simps]: "m w = (r, w') \<Longrightarrow> atry m w = (Inr r, w')" by (simp add: atry_def)

lemma abind_aret [simp]: "abind (aret x) f = f x" by (simp add: abind_def aret_def)
lemma abind_alift [simp]: "abind (alift (Inr x)) f = f x" "abind (alift (Inl e)) f = athrow e"
  by (simp_all add: abind_def alift_def athrow_def)
lemma abind_athrow [simp]: "abind (athrow e) f = athrow e" by (simp add: abind_def athrow_def)

lemma abind_cases:
  assumes "abind m f w = (r, w')"
  obtains (thrown) e where "m w = (Inl e, w')" "r = Inl e"
  | (returned) x w1 where "m w = (Inr x, w1)" "f x w1 = (r, w')"
  using assms by (auto simp: abind_def split: prod.splits sum.splits)

lemma acatch_cases:
  assumes "acatch m f w = (r, w')"
  obtains (thrown) e w1 where "m w = (Inl e, w1)" "f e w1 = (r, w')"
  | (returned) x where "m w = (Inr x, w')" "r = Inr x"
  using assms by (auto simp: acatch_def split: prod.splits sum.splits)

text \<open>What every run of an action keeps, by an invariant of the world.\<close>

definition keeps :: "('w \<Rightarrow> bool) \<Rightarrow> ('w, 'a) act \<Rightarrow> bool" where
  "keeps I m \<longleftrightarrow> (\<forall>w. I w \<longrightarrow> I (snd (m w)))"

named_theorems keeps_intros \<open>preservation of invariants of the world\<close>

lemma keeps_aret [keeps_intros]: "keeps I (aret x)" by (simp add: keeps_def aret_def)
lemma keeps_athrow [keeps_intros]: "keeps I (athrow e)" by (simp add: keeps_def athrow_def)
lemma keeps_alift [keeps_intros]: "keeps I (alift r)" by (simp add: keeps_def alift_def)

lemma keeps_abind [keeps_intros]: "keeps I m \<Longrightarrow> (\<And>x. keeps I (f x)) \<Longrightarrow> keeps I (abind m f)"
  by (fastforce simp: keeps_def abind_def split: prod.splits sum.splits)

lemma keeps_acatch [keeps_intros]: "keeps I m \<Longrightarrow> (\<And>e. keeps I (f e)) \<Longrightarrow> keeps I (acatch m f)"
  by (fastforce simp: keeps_def acatch_def split: prod.splits sum.splits)

lemma keeps_atry [keeps_intros]: "keeps I m \<Longrightarrow> keeps I (atry m)"
  by (fastforce simp: keeps_def atry_def split: prod.splits)

lemma keeps_res [keeps_intros]:
  "(\<And>e. keeps I (f e)) \<Longrightarrow> (\<And>x. keeps I (g x)) \<Longrightarrow> keeps I (case r of Inl e \<Rightarrow> f e | Inr x \<Rightarrow> g x)"
  by (cases r) simp_all

lemma keeps_option [keeps_intros]:
  "keeps I m \<Longrightarrow> (\<And>x. keeps I (f x)) \<Longrightarrow> keeps I (case c of None \<Rightarrow> m | Some x \<Rightarrow> f x)"
  by (cases c) simp_all

lemma keeps_prod [keeps_intros]: "(\<And>x y. keeps I (f x y)) \<Longrightarrow> keeps I (case p of (x, y) \<Rightarrow> f x y)"
  by (cases p) simp

lemma keeps_if [keeps_intros]: "keeps I m \<Longrightarrow> keeps I n \<Longrightarrow> keeps I (if b then m else n)"
  by simp

end
