(* ===== verification/Service_Installer.thy ===== *)
theory Service_Installer
  imports Paths Actions
begin

text \<open>
  The template of the service installers (\<open>src/thinr/installer/base_service_installer.hpp\<close>,
  \<open>base_service_installer.cpp\<close>, \<open>service_installer.cpp\<close>) and the choice of one
  (\<open>service_installer_factory.cpp\<close>). An init system is a record of its operations, the
  virtual functions of the class; the locale \<open>init_system\<close> is what the template relies on.
  The world holds the files; a shell command maps it to an exit code and a new world.
\<close>

section \<open>The machine\<close>

record 'w world =
  wo_fs :: fs
  wo_rest :: 'w

text \<open>
  What a \<open>copy_file\<close> does to its target: all of it, nothing, or a part (so many bytes, left with
  that mode), after which it throws.
\<close>

datatype copy_out = CopyWhole | CopyRefused | CopyTorn nat nat

record 'w host =
  ho_session :: session
  ho_user :: "string option"
  ho_pw_name :: "string option"
  ho_group :: "string \<Rightarrow> string"
  ho_exe :: "string option"
  ho_dir :: "string \<Rightarrow> bool"
  ho_system :: "string \<Rightarrow> 'w world \<Rightarrow> int \<times> 'w world"
  ho_open :: "string \<Rightarrow> bool"
  ho_short :: "string \<Rightarrow> nat option"
  ho_remove :: "string \<Rightarrow> bool"
  ho_copy :: "string \<Rightarrow> copy_out"
  ho_chmod :: "string \<Rightarrow> bool"
  ho_list :: "string \<Rightarrow> 'w world \<Rightarrow> string list option"

text \<open>
  \<open>ho_dir\<close> says which directories (and files outside the agent's reach) exist, \<open>ho_list\<close> is a
  directory's listing; the booleans say which files can be opened, removed and given a mode.
\<close>

definition hexists :: "'w host \<Rightarrow> string \<Rightarrow> 'w world \<Rightarrow> bool" where
  "hexists H p w \<longleftrightarrow> fexists (wo_fs w) p \<or> ho_dir H p"

text \<open>An \<open>ofstream\<close> opened, filled and closed: it may not open, or lose its tail.\<close>

definition write_text :: "'w host \<Rightarrow> string \<Rightarrow> string \<Rightarrow> ('w world, bool) act" where
  "write_text H p bytes = (\<lambda>w.
     if \<not> ho_open H p then (Inr False, w)
     else case ho_short H p of
            None \<Rightarrow> (Inr True, w\<lparr>wo_fs := put_bytes p bytes (wo_fs w)\<rparr>)
          | Some k \<Rightarrow> (Inr False, w\<lparr>wo_fs := put_bytes p (take k bytes) (wo_fs w)\<rparr>))"

definition remove_file :: "'w host \<Rightarrow> string \<Rightarrow> ('w world, unit) act" where
  "remove_file H p = (\<lambda>w.
     if ho_remove H p then (Inr (), w\<lparr>wo_fs := fremove p (wo_fs w)\<rparr>) else (Inl (FilesystemError p), w))"

text \<open>
  \<open>copy_file\<close> with \<open>overwrite_existing\<close>: the source must be there, and the two paths must not be
  the same file. Setting the permissions may fail on its own.
\<close>

definition copy_file :: "'w host \<Rightarrow> string \<Rightarrow> string \<Rightarrow> ('w world, unit) act" where
  "copy_file H p q = (\<lambda>w. case wo_fs w p of
     None \<Rightarrow> (Inl (FilesystemError p), w)
   | Some f \<Rightarrow>
       if p = q then (Inl (FilesystemError q), w)
       else (case ho_copy H q of
            CopyWhole \<Rightarrow> (Inr (), w\<lparr>wo_fs := (wo_fs w)(q \<mapsto> f)\<rparr>)
          | CopyRefused \<Rightarrow> (Inl (FilesystemError q), w)
          | CopyTorn k mode \<Rightarrow>
              (Inl (FilesystemError q), w\<lparr>wo_fs := (wo_fs w)(q \<mapsto> \<lparr>f_data = take k (f_data f), f_mode = mode\<rparr>)\<rparr>)))"

definition set_permissions :: "'w host \<Rightarrow> string \<Rightarrow> nat \<Rightarrow> ('w world, unit) act" where
  "set_permissions H p mode = (\<lambda>w. case wo_fs w p of
     None \<Rightarrow> (Inl (FilesystemError p), w)
   | Some f \<Rightarrow>
       if ho_chmod H p then (Inr (), w\<lparr>wo_fs := (wo_fs w)(p \<mapsto> f\<lparr>f_mode := mode\<rparr>)\<rparr>) else (Inl (FilesystemError p), w))"

definition file_there :: "'w host \<Rightarrow> string \<Rightarrow> ('w world, bool) act" where
  "file_there H p = (\<lambda>w. (Inr (hexists H p w), w))"

definition execute_system_command :: "'w host \<Rightarrow> string \<Rightarrow> ('w world, bool) act" where
  "execute_system_command H cmd = (\<lambda>w. case ho_system H cmd w of (code, w') \<Rightarrow> (Inr (code = 0), w'))"

section \<open>An init system\<close>

datatype service_status = NOT_INSTALLED | INSTALLED_STOPPED | INSTALLED_RUNNING | STATUS_UNKNOWN

datatype install_mode = SYSTEM | USER | AUTO

record 'w init_impl =
  im_name :: string
  im_path :: "bool \<Rightarrow> string"
  im_install :: "bool \<Rightarrow> ('w world, bool) act"
  im_uninstall :: "bool \<Rightarrow> ('w world, bool) act"
  im_start :: "('w world, bool) act"
  im_stop :: "('w world, bool) act"
  im_status :: "bool \<Rightarrow> ('w world, service_status) act"
  im_generate :: "bool \<Rightarrow> string"
  im_user :: "('w world, bool) act"

section \<open>The template\<close>

definition is_running_as_root :: "'w host \<Rightarrow> bool" where
  "is_running_as_root H = se_uid_root (ho_session H)"

definition can_install_system_service :: "'w host \<Rightarrow> bool" where
  "can_install_system_service H = is_running_as_root H"

definition get_recommended_install_mode :: "'w host \<Rightarrow> install_mode" where
  "get_recommended_install_mode H = (if can_install_system_service H then SYSTEM else USER)"

definition binary_path :: "'w host \<Rightarrow> bool \<Rightarrow> string" where
  "binary_path H system_wide = get_binary_install_path (ho_session H) system_wide"

definition get_current_binary_path :: "'w host \<Rightarrow> string" where
  "get_current_binary_path H = (case ho_exe H of Some p \<Rightarrow> p | None \<Rightarrow> ''./thinr-agent'')"

definition get_username :: "'w host \<Rightarrow> string" where
  "get_username H = (case ho_user H of Some u \<Rightarrow> u | None \<Rightarrow> (case ho_pw_name H of Some n \<Rightarrow> n | None \<Rightarrow> ''unknown''))"

text \<open>
  The running binary is copied to the install path and gets the mode 0755. A failure is reported,
  but a torn copy, or a whole one without its mode, stays where it is.
\<close>

definition copy_binary_to_install_path :: "'w host \<Rightarrow> bool \<Rightarrow> ('w world, bool) act" where
  "copy_binary_to_install_path H system_wide =
     (let current = get_current_binary_path H; target = binary_path H system_wide in
      acatch
        (abind (copy_file H current target) (\<lambda>_.
         abind (set_permissions H target 493) (\<lambda>_. aret True)))
        (\<lambda>e. aret False))"

definition install_service :: "'w host \<Rightarrow> 'w init_impl \<Rightarrow> install_mode \<Rightarrow> ('w world, bool) act" where
  "install_service H I mode =
     (let actual = (if mode = AUTO then get_recommended_install_mode H else mode);
          go = (\<lambda>system_wide.
            abind (copy_binary_to_install_path H system_wide) (\<lambda>copied.
              if \<not> copied then aret False
              else acatch (im_install I system_wide) (\<lambda>e. aret False)))
      in if actual = SYSTEM then go True
         else abind (im_user I) (\<lambda>user_ok.
                if user_ok then go False
                else if \<not> can_install_system_service H then aret False
                else go True))"

definition uninstall_service :: "'w host \<Rightarrow> 'w init_impl \<Rightarrow> ('w world, bool) act" where
  "uninstall_service H I =
     (let is_root = se_euid_root (ho_session H); path = binary_path H is_root in
      abind (acatch
              (if is_root then im_uninstall I True
               else abind (im_user I) (\<lambda>user_ok. if user_ok then im_uninstall I False else aret False))
              (\<lambda>e. aret False)) (\<lambda>success.
      acatch
        (abind (file_there H path) (\<lambda>there.
           if there then abind (remove_file H path) (\<lambda>_. aret success) else aret success))
        (\<lambda>e. aret False)))"

definition get_service_status :: "'w host \<Rightarrow> 'w init_impl \<Rightarrow> ('w world, service_status) act" where
  "get_service_status H I =
     (let system_wide = can_install_system_service H in
      acatch
        (abind (im_status I system_wide) (\<lambda>st.
           if st = NOT_INSTALLED \<and> system_wide then
             abind (im_user I) (\<lambda>user_ok. if user_ok then im_status I False else aret st)
           else aret st))
        (\<lambda>e. aret STATUS_UNKNOWN))"

definition check_service_status :: "'w init_impl \<Rightarrow> bool \<Rightarrow> ('w world, service_status) act" where
  "check_service_status I system_wide = acatch (im_status I system_wide) (\<lambda>e. aret STATUS_UNKNOWN)"

definition start_service :: "'w init_impl \<Rightarrow> ('w world, bool) act" where
  "start_service I = acatch (im_start I) (\<lambda>e. aret False)"

definition stop_service :: "'w init_impl \<Rightarrow> ('w world, bool) act" where
  "stop_service I = acatch (im_stop I) (\<lambda>e. aret False)"

section \<open>The choice of an init system\<close>

definition detect_init_system :: "bool \<Rightarrow> 'w host \<Rightarrow> 'w world \<Rightarrow> string" where
  "detect_init_system darwin H w =
     (let there = (\<lambda>p. hexists H p w) in
      if darwin then ''launchd''
      else if there ''/run/systemd/system'' \<or> there ''/systemd'' then ''systemd''
      else if there ''/sbin/openrc'' \<or> (there ''/etc/init.d/'' \<and> there ''/sbin/rc-service'') then ''OpenRC''
      else if there ''/sbin/upstart'' \<or> (there ''/etc/init/'' \<and> there ''/sbin/initctl'') then ''Upstart''
      else if there ''/etc/inittab'' \<or> there ''/etc/rc.d/'' \<or> there ''/etc/init.d/'' then ''SysV init''
      else ''Unknown'')"

section \<open>What the template relies on\<close>

text \<open>The commands of the init system leave a file of the agent as it is.\<close>

definition leaves :: "'w host \<Rightarrow> string \<Rightarrow> bool" where
  "leaves H p \<longleftrightarrow> (\<forall>cmd w. wo_fs (snd (ho_system H cmd w)) p = wo_fs w p)"

definition keeps_file :: "string \<Rightarrow> ('w world, 'a) act \<Rightarrow> bool" where
  "keeps_file p m \<longleftrightarrow> (\<forall>w. wo_fs (snd (m w)) p = wo_fs w p)"

named_theorems keeps_file_intros \<open>actions that leave a file as it is\<close>

lemma keeps_file_basic [keeps_file_intros]: "keeps_file p (aret x)" "keeps_file p (athrow e)" "keeps_file p (alift r)"
  by (simp_all add: keeps_file_def aret_def athrow_def alift_def)

lemma keeps_file_abind [keeps_file_intros]: "keeps_file p m \<Longrightarrow> (\<And>x. keeps_file p (f x)) \<Longrightarrow> keeps_file p (abind m f)"
  unfolding keeps_file_def abind_def by (auto split: prod.splits sum.splits) (metis snd_conv)+

lemma keeps_file_acatch [keeps_file_intros]: "keeps_file p m \<Longrightarrow> (\<And>e. keeps_file p (f e)) \<Longrightarrow> keeps_file p (acatch m f)"
  unfolding keeps_file_def acatch_def by (auto split: prod.splits sum.splits) (metis snd_conv)+

lemma keeps_file_if [keeps_file_intros]: "keeps_file p m \<Longrightarrow> keeps_file p n \<Longrightarrow> keeps_file p (if b then m else n)"
  by simp

lemma keeps_file_there [keeps_file_intros]: "keeps_file p (file_there H q)"
  by (simp add: keeps_file_def file_there_def)

lemma keeps_file_command [keeps_file_intros]: "leaves H p \<Longrightarrow> keeps_file p (execute_system_command H cmd)"
  by (simp add: keeps_file_def execute_system_command_def leaves_def split: prod.splits) (metis snd_conv)

lemma keeps_file_write [keeps_file_intros]: "p \<noteq> q \<Longrightarrow> keeps_file p (write_text H q bytes)"
  by (simp add: keeps_file_def write_text_def put_bytes_def split: option.splits)

lemma keeps_file_remove [keeps_file_intros]: "p \<noteq> q \<Longrightarrow> keeps_file p (remove_file H q)"
  by (simp add: keeps_file_def remove_file_def fremove_def)

lemma keeps_file_copy [keeps_file_intros]: "p \<noteq> r \<Longrightarrow> keeps_file p (copy_file H q r)"
  by (simp add: keeps_file_def copy_file_def split: option.splits copy_out.splits)

lemma keeps_file_permissions [keeps_file_intros]: "p \<noteq> q \<Longrightarrow> keeps_file p (set_permissions H q mode)"
  by (simp add: keeps_file_def set_permissions_def split: option.splits)

lemma keeps_file_binary [keeps_file_intros]: "p \<noteq> binary_path H sw \<Longrightarrow> keeps_file p (copy_binary_to_install_path H sw)"
  unfolding copy_binary_to_install_path_def Let_def by (intro keeps_file_intros)

lemma keeps_file_afor [keeps_file_intros]: "(\<And>x. x \<in> set xs \<Longrightarrow> keeps_file p (f x)) \<Longrightarrow> keeps_file p (afor f xs)"
  by (induction xs) (auto intro!: keeps_file_abind keeps_file_basic)

lemma keeps_fileD: "keeps_file p m \<Longrightarrow> m w = (r, w') \<Longrightarrow> wo_fs w' p = wo_fs w p"
  unfolding keeps_file_def by (metis snd_conv)

text \<open>
  The contract of an init system with the template: a successful registration leaves the
  generated service file in place, a successful removal leaves none, the status is decided
  by that file, and only the files in \<open>owned\<close> are touched.
\<close>

locale init_system =
  fixes H :: "'w host"
    and I :: "'w init_impl"
    and owned :: "bool \<Rightarrow> string set"
  assumes path_owned: "im_path I sw \<in> owned sw"
    and install_writes: "leaves H (im_path I sw) \<Longrightarrow> im_install I sw w = (Inr True, w') \<Longrightarrow>
      data_of (wo_fs w') (im_path I sw) = Some (im_generate I sw)"
    and install_keeps: "leaves H p \<Longrightarrow> p \<notin> owned sw \<Longrightarrow> keeps_file p (im_install I sw)"
    and uninstall_clears: "leaves H (im_path I sw) \<Longrightarrow> im_uninstall I sw w = (Inr True, w') \<Longrightarrow>
      wo_fs w' (im_path I sw) = None"
    and uninstall_keeps: "leaves H p \<Longrightarrow> p \<notin> owned sw \<Longrightarrow> keeps_file p (im_uninstall I sw)"
    and user_keeps: "leaves H p \<Longrightarrow> keeps_file p (im_user I)"
    and status_absent: "fst (im_status I sw w) = Inr NOT_INSTALLED \<longleftrightarrow> \<not> hexists H (im_path I sw) w"
begin

lemma copied:
  assumes "copy_binary_to_install_path H sw w = (r, w')"
  shows "p \<noteq> binary_path H sw \<Longrightarrow> wo_fs w' p = wo_fs w p"
    and "r = Inr True \<Longrightarrow> \<exists>f. wo_fs w (get_current_binary_path H) = Some f \<and>
      wo_fs w' (binary_path H sw) = Some (f\<lparr>f_mode := 493\<rparr>)"
proof -
  show "p \<noteq> binary_path H sw \<Longrightarrow> wo_fs w' p = wo_fs w p" by (rule keeps_fileD [OF keeps_file_binary assms])
  show "r = Inr True \<Longrightarrow> \<exists>f. wo_fs w (get_current_binary_path H) = Some f \<and>
      wo_fs w' (binary_path H sw) = Some (f\<lparr>f_mode := 493\<rparr>)"
    using assms by (auto simp: copy_binary_to_install_path_def copy_file_def set_permissions_def acatch_def abind_def aret_def
        Let_def split: option.splits copy_out.splits if_splits)
qed

text \<open>The part of the installation after the mode is known.\<close>

lemma installed_as:
  assumes run: "abind (copy_binary_to_install_path H sw) (\<lambda>copied.
      if \<not> copied then aret False else acatch (im_install I sw) (\<lambda>e. aret False)) w = (Inr True, w')"
    and free: "leaves H (im_path I sw)" "leaves H (binary_path H sw)" "binary_path H sw \<notin> owned sw"
  shows "data_of (wo_fs w') (im_path I sw) = Some (im_generate I sw) \<and>
    (\<exists>f. wo_fs w (get_current_binary_path H) = Some f \<and> wo_fs w' (binary_path H sw) = Some (f\<lparr>f_mode := 493\<rparr>)) \<and>
    (\<forall>p. leaves H p \<longrightarrow> p \<notin> owned sw \<longrightarrow> p \<noteq> binary_path H sw \<longrightarrow> wo_fs w' p = wo_fs w p)"
  using run
proof (cases rule: abind_cases)
  case (thrown e)
  then show ?thesis by simp
next
  case (returned ok w1)
  then have ok: ok by (cases ok) (auto simp: aret_def)
  with returned(2) have "acatch (im_install I sw) (\<lambda>e. aret False) w1 = (Inr True, w')" by simp
  then have i: "im_install I sw w1 = (Inr True, w')" by (cases rule: acatch_cases) (auto simp: aret_def)
  from returned(1) ok have c: "copy_binary_to_install_path H sw w = (Inr True, w1)" by simp
  obtain f where f: "wo_fs w (get_current_binary_path H) = Some f" "wo_fs w1 (binary_path H sw) = Some (f\<lparr>f_mode := 493\<rparr>)"
    using copied(2) [OF c] by blast
  have keep: "leaves H p \<Longrightarrow> p \<notin> owned sw \<Longrightarrow> wo_fs w' p = wo_fs w1 p" for p
    using keeps_fileD [OF install_keeps i] .
  show ?thesis
    using install_writes [OF free(1) i] f keep [OF free(2,3)] keep copied(1) [OF c] by auto
qed

lemma installed:
  assumes run: "install_service H I mode w = (Inr True, w')"
    and free: "\<And>sw. leaves H (im_path I sw)" "\<And>sw. leaves H (binary_path H sw)" "\<And>sw. binary_path H sw \<notin> owned sw"
    and src: "leaves H (get_current_binary_path H)"
  shows "\<exists>sw. (sw \<longleftrightarrow> mode = SYSTEM \<or> mode = AUTO \<and> can_install_system_service H \<or> fst (im_user I w) = Inr False) \<and>
    (sw \<longrightarrow> mode = SYSTEM \<or> can_install_system_service H) \<and> data_of (wo_fs w') (im_path I sw) = Some (im_generate I sw) \<and>
    (\<exists>f. wo_fs w (get_current_binary_path H) = Some f \<and> wo_fs w' (binary_path H sw) = Some (f\<lparr>f_mode := 493\<rparr>)) \<and>
    (\<forall>p. leaves H p \<longrightarrow> p \<notin> owned sw \<longrightarrow> p \<noteq> binary_path H sw \<longrightarrow> wo_fs w' p = wo_fs w p)"
proof -
  define actual where "actual = (if mode = AUTO then get_recommended_install_mode H else mode)"
  define go where "go sw = abind (copy_binary_to_install_path H sw) (\<lambda>copied.
      if \<not> copied then aret False else acatch (im_install I sw) (\<lambda>e. aret False))" for sw
  have r: "(if actual = SYSTEM then go True
      else abind (im_user I) (\<lambda>u. if u then go False else if \<not> can_install_system_service H then aret False else go True)) w =
      (Inr True, w')"
    using run unfolding install_service_def Let_def actual_def go_def .
  let ?scope = "\<lambda>sw. (sw \<longleftrightarrow> mode = SYSTEM \<or> mode = AUTO \<and> can_install_system_service H \<or> fst (im_user I w) = Inr False)"
  have "\<exists>sw w0. ?scope sw \<and> (sw \<longrightarrow> mode = SYSTEM \<or> can_install_system_service H) \<and>
      go sw w0 = (Inr True, w') \<and> (\<forall>p. leaves H p \<longrightarrow> wo_fs w0 p = wo_fs w p)"
  proof (cases "actual = SYSTEM")
    case True
    then have "mode = SYSTEM \<or> mode = AUTO \<and> can_install_system_service H"
      by (auto simp: actual_def get_recommended_install_mode_def split: if_splits)
    with True r show ?thesis by (intro exI [of _ True] exI [of _ w]) auto
  next
    case False
    then have mode: "\<not> (mode = SYSTEM \<or> mode = AUTO \<and> can_install_system_service H)"
      by (auto simp: actual_def get_recommended_install_mode_def split: if_splits)
    from False r have "abind (im_user I) (\<lambda>u. if u then go False else if \<not> can_install_system_service H then aret False else go True) w = (Inr True, w')"
      by simp
    then show ?thesis
    proof (cases rule: abind_cases)
      case (thrown e)
      then show ?thesis by simp
    next
      case (returned u w1)
      have keep: "\<forall>p. leaves H p \<longrightarrow> wo_fs w1 p = wo_fs w p"
        using keeps_fileD [OF user_keeps returned(1)] by blast
      have "u \<and> go False w1 = (Inr True, w') \<or> \<not> u \<and> can_install_system_service H \<and> go True w1 = (Inr True, w')"
        using returned(2) by (cases u; cases "can_install_system_service H") (simp_all add: aret_def)
      then show ?thesis
      proof (elim disjE conjE)
        assume "u" "go False w1 = (Inr True, w')"
        with keep mode returned(1) show ?thesis by (intro exI [of _ False] exI [of _ w1]) simp
      next
        assume "\<not> u" "can_install_system_service H" "go True w1 = (Inr True, w')"
        with keep returned(1) show ?thesis by (intro exI [of _ True] exI [of _ w1]) simp
      qed
    qed
  qed
  then obtain sw w0 where sw: "?scope sw" "sw \<longrightarrow> mode = SYSTEM \<or> can_install_system_service H" and go: "go sw w0 = (Inr True, w')" and w0: "\<And>p. leaves H p \<Longrightarrow> wo_fs w0 p = wo_fs w p" by blast
  note inst = installed_as [OF go [unfolded go_def] free(1) free(2) free(3)]
  show ?thesis
  proof (intro exI [of _ sw] conjI)
    show "?scope sw" "sw \<longrightarrow> mode = SYSTEM \<or> can_install_system_service H" by (fact sw)+
    show "data_of (wo_fs w') (im_path I sw) = Some (im_generate I sw)" using inst by blast
    show "\<exists>f. wo_fs w (get_current_binary_path H) = Some f \<and> wo_fs w' (binary_path H sw) = Some (f\<lparr>f_mode := 493\<rparr>)"
      using inst w0 [OF src] by simp
    show "\<forall>p. leaves H p \<longrightarrow> p \<notin> owned sw \<longrightarrow> p \<noteq> binary_path H sw \<longrightarrow> wo_fs w' p = wo_fs w p"
      using inst w0 by simp
  qed
qed

lemma uninstalled:
  assumes run: "uninstall_service H I w = (Inr True, w')" and sw: "sw = se_euid_root (ho_session H)"
    and free: "leaves H (im_path I sw)" "binary_path H sw \<noteq> im_path I sw"
  shows "wo_fs w' (im_path I sw) = None \<and> wo_fs w' (binary_path H sw) = None"
proof -
  define first where "first = acatch (if sw then im_uninstall I True
      else abind (im_user I) (\<lambda>u. if u then im_uninstall I False else aret False)) (\<lambda>e. aret False)"
  define bin where "bin success = acatch
      (abind (file_there H (binary_path H sw)) (\<lambda>there.
         if there then abind (remove_file H (binary_path H sw)) (\<lambda>_. aret success) else aret success))
      (\<lambda>e. aret False)" for success
  have "abind first bin w = (Inr True, w')"
    using run unfolding uninstall_service_def Let_def sw first_def bin_def [abs_def] .
  then obtain ok w1 where 1: "first w = (Inr ok, w1)" and 2: "bin ok w1 = (Inr True, w')"
    by (cases rule: abind_cases) auto
  have ok: "ok \<and> wo_fs w' (binary_path H sw) = None \<and> (\<forall>p. p \<noteq> binary_path H sw \<longrightarrow> wo_fs w' p = wo_fs w1 p)"
    using 2 by (auto simp: bin_def acatch_def abind_def file_there_def remove_file_def aret_def fremove_def
        hexists_def fexists_def split: if_splits)
  then have "first w = (Inr True, w1)" using 1 by simp
  then have "wo_fs w1 (im_path I sw) = None"
    unfolding first_def
  proof (cases rule: acatch_cases)
    case (thrown e w2)
    then show ?thesis by (simp add: aret_def)
  next
    case (returned x)
    show ?thesis
    proof (cases sw)
      case True
      with returned uninstall_clears [of True] free(1) show ?thesis by simp
    next
      case False
      with returned have "abind (im_user I) (\<lambda>u. if u then im_uninstall I False else aret False) w = (Inr True, w1)" by simp
      then obtain u w2 where "(if u then im_uninstall I False else aret False) w2 = (Inr True, w1)"
        by (cases rule: abind_cases) auto
      with uninstall_clears [of False] free(1) False show ?thesis by (auto simp: aret_def split: if_splits)
    qed
  qed
  with ok free(2) show ?thesis by auto
qed

lemma uninstall_others:
  assumes "leaves H p" and "p \<notin> owned (se_euid_root (ho_session H))" and "p \<noteq> binary_path H (se_euid_root (ho_session H))"
  shows "keeps_file p (uninstall_service H I)"
proof -
  have "keeps_file p (if se_euid_root (ho_session H) then im_uninstall I True
      else abind (im_user I) (\<lambda>user_ok. if user_ok then im_uninstall I False else aret False))"
    using assms(1,2) uninstall_keeps by (auto intro!: keeps_file_abind user_keeps keeps_file_basic)
  then show ?thesis unfolding uninstall_service_def Let_def
    by (rule keeps_file_abind [OF keeps_file_acatch]) (assumption | intro keeps_file_intros assms(3))+
qed

text \<open>After that the status is \<open>NOT_INSTALLED\<close> for the same privilege.\<close>

lemma status_after_uninstall:
  assumes "wo_fs w (im_path I sw) = None" and "\<not> ho_dir H (im_path I sw)"
  shows "fst (check_service_status I sw w) = Inr NOT_INSTALLED"
proof -
  have "fst (im_status I sw w) = Inr NOT_INSTALLED"
    using assms status_absent by (simp add: hexists_def fexists_def)
  then show ?thesis by (auto simp: check_service_status_def acatch_def split: prod.splits sum.splits)
qed

end

text \<open>A running binary that is already at the target cannot be copied onto itself.\<close>

lemma install_over_itself:
  assumes "get_current_binary_path H = binary_path H True"
  shows "install_service H I SYSTEM w = (Inr False, w)"
  using assms by (auto simp: install_service_def copy_binary_to_install_path_def copy_file_def abind_def acatch_def aret_def Let_def
      split: option.splits)

end
