(* ===== verification/Scripts.thy ===== *)
theory Scripts
  imports Service_Installer Json_Values
begin

text \<open>
  The scripts extension (\<open>src/thinr/extensions/scripts.hpp\<close>, \<open>scripts.cpp\<close>): the executables
  of a directory become resources of the device. The client's resource table and the function
  that runs a process belong to the client library; the table is a parameter that obeys the
  laws of a string map, running a process is a function. The resource pool and the locks are
  not modelled: a reload is one call, as \<open>client.run\<close> makes it.
\<close>

section \<open>The directory\<close>

record dir_entry =
  de_path :: string
  de_regular :: bool
  de_perms :: nat

record script_info =
  sc_path :: string
  sc_name :: string
  sc_describe :: json

record exec_result =
  xr_code :: int
  xr_out :: string
  xr_err :: string
  xr_timeout :: bool

text \<open>
  \<open>ex_listing\<close>: the entries of the scripts directory in the order they come, \<open>None\<close> when it is no
  directory; the iteration itself may throw. \<open>ex_exec\<close> runs a path with arguments and an input
  for so many seconds.
\<close>

record script_env =
  ex_session :: session
  ex_listing :: "dir_entry list res option"
  ex_exec :: "string \<Rightarrow> string list \<Rightarrow> string \<Rightarrow> int \<Rightarrow> exec_result"
  ex_parse :: "string \<Rightarrow> json option"
  ex_dump :: "json \<Rightarrow> string"

definition EXEC_TIMEOUT_SECONDS :: int where "EXEC_TIMEOUT_SECONDS = 30"
definition DESCRIBE_TIMEOUT_SECONDS :: int where "DESCRIBE_TIMEOUT_SECONDS = 2"

definition scripts_directory :: "script_env \<Rightarrow> string" where
  "scripts_directory E = get_base_directory (ex_session E) @ ''/scripts''"

text \<open>\<open>path::stem\<close>: the last component without its extension; a leading dot starts none.\<close>

definition base_name :: "string \<Rightarrow> string" where
  "base_name p = (case find_last (\<lambda>c. c = CHR ''/'') p of None \<Rightarrow> p | Some i \<Rightarrow> drop (i + 1) p)"

definition stem :: "string \<Rightarrow> string" where
  "stem p =
     (let n = base_name p in
      if n = ''.'' \<or> n = ''..'' then n
      else case find_last (\<lambda>c. c = CHR ''.'') n of
             None \<Rightarrow> n
           | Some i \<Rightarrow> if i = 0 then n else take i n)"

definition run_describe :: "script_env \<Rightarrow> string \<Rightarrow> json" where
  "run_describe E path =
     (let r = ex_exec E path [''--describe''] [] DESCRIBE_TIMEOUT_SECONDS in
      if xr_code r \<noteq> 0 then JNull
      else case ex_parse E (xr_out r) of
             None \<Rightarrow> JNull
           | Some j \<Rightarrow> if is_object j \<and> (jcontains j ''input'' \<or> jcontains j ''output'') then j else JNull)"

text \<open>The three execute bits: 0100, 0010 and 0001.\<close>

definition is_executable :: "nat \<Rightarrow> bool" where
  "is_executable m \<longleftrightarrow> m div 64 mod 2 = 1 \<or> m div 8 mod 2 = 1 \<or> m mod 2 = 1"

fun scan_entries :: "script_env \<Rightarrow> dir_entry list \<Rightarrow> script_info list" where
  "scan_entries E [] = []"
| "scan_entries E (d # ds) =
     (if \<not> de_regular d then scan_entries E ds
      else if \<not> is_executable (de_perms d) then scan_entries E ds
      else \<lparr>sc_path = de_path d, sc_name = stem (de_path d), sc_describe = run_describe E (de_path d)\<rparr> # scan_entries E ds)"

definition scan_directory :: "script_env \<Rightarrow> script_info list res" where
  "scan_directory E =
     (case ex_listing E of
        None \<Rightarrow> Inr []
      | Some (Inl x) \<Rightarrow> Inl x
      | Some (Inr ds) \<Rightarrow> Inr (scan_entries E ds))"

section \<open>The resources\<close>

text \<open>What a resource runs; \<open>NativeResource\<close> are those of the agent's other parts.\<close>

datatype resource =
    NativeResource string
  | ScriptsInfo
  | ScriptsReload
  | OutputScript string
  | InOutScript string json

record 't table_ops =
  tb_put :: "string \<Rightarrow> resource \<Rightarrow> 't \<Rightarrow> 't"
  tb_get :: "'t \<Rightarrow> string \<Rightarrow> resource option"
  tb_del :: "string \<Rightarrow> 't \<Rightarrow> 't"

record 't scripts =
  ss_scripts :: "script_info list"
  ss_table :: 't

definition has_input :: "json \<Rightarrow> bool" where
  "has_input d =
     (d \<noteq> JNull \<and> is_object d \<and>
      (case jfind d ''input'' of Some i \<Rightarrow> is_object i \<and> \<not> jempty i | None \<Rightarrow> False))"

definition resource_of :: "script_info \<Rightarrow> resource" where
  "resource_of i = (if has_input (sc_describe i) then InOutScript (sc_path i) (sc_describe i) else OutputScript (sc_path i))"

definition register_resource :: "'t table_ops \<Rightarrow> script_info \<Rightarrow> 't \<Rightarrow> 't" where
  "register_resource T i t = tb_put T (sc_name i) (resource_of i) t"

definition register_management_resources :: "'t table_ops \<Rightarrow> 't \<Rightarrow> 't" where
  "register_management_resources T t = tb_put T ''$scripts/reload'' ScriptsReload (tb_put T ''$scripts/info'' ScriptsInfo t)"

definition new_scripts :: "'t table_ops \<Rightarrow> script_env \<Rightarrow> 't \<Rightarrow> 't scripts res" where
  "new_scripts T E t =
     (let t = register_management_resources T t in
      rbind (scan_directory E) (\<lambda>found.
        Inr \<lparr>ss_scripts = found, ss_table = fold (register_resource T) found t\<rparr>))"

definition reload :: "'t table_ops \<Rightarrow> script_env \<Rightarrow> 't scripts \<Rightarrow> 't scripts res" where
  "reload T E s =
     rbind (scan_directory E) (\<lambda>discovered.
       let t = fold (\<lambda>i. tb_del T (sc_name i)) (ss_scripts s) (ss_table s)
       in Inr \<lparr>ss_scripts = discovered, ss_table = fold (register_resource T) discovered t\<rparr>)"

definition info_entry :: "script_info \<Rightarrow> json" where
  "info_entry i =
     (let m = smap_put ''path'' (JStr (sc_path i)) (smap_put ''name'' (JStr (sc_name i)) [])
      in JObj (if sc_describe i \<noteq> JNull then smap_put ''describe'' (sc_describe i) m else m))"

definition info :: "script_env \<Rightarrow> 't scripts \<Rightarrow> json" where
  "info E s = JObj (smap_put ''scripts'' (JArr (map info_entry (ss_scripts s))) (smap_put ''path'' (JStr (scripts_directory E)) []))"

section \<open>A call of a resource\<close>

record call_output =
  op_error :: "(int \<times> string) option"
  op_data :: json

definition no_output :: call_output where
  "no_output = \<lparr>op_error = None, op_data = JNull\<rparr>"

text \<open>What reaches the library through a C string ends at its first null character.\<close>

definition c_str :: "string \<Rightarrow> string" where
  "c_str s = takeWhile (\<lambda>c. c \<noteq> CHR 0x00) s"

text \<open>\<open>out[key] = v\<close> on a payload that is null or an object.\<close>

definition put_field :: "string \<Rightarrow> json \<Rightarrow> json \<Rightarrow> json" where
  "put_field k v j = (case jset j (c_str k) v of Inr j' \<Rightarrow> j' | Inl _ \<Rightarrow> j)"

definition put_fields :: "json smap \<Rightarrow> json \<Rightarrow> json" where
  "put_fields m j = fold (\<lambda>(k, v). put_field k v) m j"

definition failed :: "int \<Rightarrow> string \<Rightarrow> exec_result \<Rightarrow> call_output \<Rightarrow> call_output" where
  "failed code msg r out =
     out\<lparr>op_error := Some (code, c_str msg),
         op_data := put_field ''stderr'' (JStr (xr_err r)) (put_field ''exit_code'' (JInt (xr_code r)) (op_data out))\<rparr>"

definition execute_script :: "script_env \<Rightarrow> string \<Rightarrow> string \<Rightarrow> call_output \<Rightarrow> call_output" where
  "execute_script E path input out =
     (let r = ex_exec E path [] input EXEC_TIMEOUT_SECONDS in
      if xr_timeout r then failed 408 ''script timed out'' r out
      else if xr_code r \<noteq> 0 then
        failed 500 (if xr_err r = [] then ''Script exited with code '' @ show_int (xr_code r) else xr_err r) r out
      else
        case ex_parse E (xr_out r) of
          Some (JObj m) \<Rightarrow> out\<lparr>op_data := put_fields m (op_data out)\<rparr>
        | Some j \<Rightarrow> out\<lparr>op_data := put_field ''output'' j (op_data out)\<rparr>
        | None \<Rightarrow> out\<lparr>op_data := put_field ''output'' (JStr (xr_out r)) (op_data out)\<rparr>)"

definition members :: "json \<Rightarrow> string \<Rightarrow> json smap" where
  "members d k = (case jfind d k of Some (JObj m) \<Rightarrow> m | _ \<Rightarrow> [])"

text \<open>
  A call with the payload it brings; a describe call fills the payload with the advertised
  input. The result is the input's payload and the output.
\<close>

definition call_script :: "script_env \<Rightarrow> resource \<Rightarrow> bool \<Rightarrow> json \<Rightarrow> json \<times> call_output" where
  "call_script E r describe payload =
     (case r of
        OutputScript path \<Rightarrow> (payload, execute_script E path [] no_output)
      | InOutScript path d \<Rightarrow>
          if describe then
            (put_fields (members d ''input'') payload,
             no_output\<lparr>op_data := put_fields (members d ''output'') JNull\<rparr>)
          else (payload, execute_script E path (ex_dump E payload) no_output)
      | _ \<Rightarrow> (payload, no_output))"

definition listing_output :: "json \<Rightarrow> call_output" where
  "listing_output j =
     (let get = (\<lambda>k. case jfind j k of Some v \<Rightarrow> v | None \<Rightarrow> JNull)
      in no_output\<lparr>op_data := put_field ''scripts'' (get ''scripts'') (put_field ''path'' (get ''path'') JNull)\<rparr>)"

definition call_info :: "script_env \<Rightarrow> 't scripts \<Rightarrow> call_output" where
  "call_info E s = listing_output (info E s)"

definition call_reload :: "'t table_ops \<Rightarrow> script_env \<Rightarrow> bool \<Rightarrow> 't scripts \<Rightarrow> ('t scripts \<times> call_output) res" where
  "call_reload T E describe s =
     (if describe then
        Inr (s, no_output\<lparr>op_data := put_field ''scripts'' (JArr []) (put_field ''path'' (JStr []) JNull)\<rparr>)
      else rbind (reload T E s) (\<lambda>s'. Inr (s', listing_output (info E s'))))"

section \<open>Names\<close>

lemma find_last_None: "find_last P s = None \<longleftrightarrow> (\<forall>c \<in> set s. \<not> P c)"
  by (induction s) (auto split: option.splits)

lemma find_last_Some_rest: "find_last P s = Some i \<Longrightarrow> \<forall>c \<in> set (drop (i + 1) s). \<not> P c"
  by (induction s arbitrary: i) (auto split: option.splits if_splits simp: find_last_None)

lemma base_name_slash: "CHR ''/'' \<notin> set (base_name p)"
  using find_last_Some_rest [of "\<lambda>c. c = CHR ''/''" p] find_last_None [of "\<lambda>c. c = CHR ''/''" p]
  by (auto simp: base_name_def split: option.splits)

lemma stem_slash: "CHR ''/'' \<notin> set (stem p)"
  using base_name_slash [of p] by (auto simp: stem_def Let_def dest!: in_set_takeD split: option.splits)

lemma scan_entries_names: "i \<in> set (scan_entries E ds) \<Longrightarrow> CHR ''/'' \<notin> set (sc_name i)"
  by (induction E ds rule: scan_entries.induct) (auto simp: stem_slash split: if_splits)

lemma scan_names: "scan_directory E = Inr found \<Longrightarrow> i \<in> set found \<Longrightarrow> CHR ''/'' \<notin> set (sc_name i)"
  by (auto simp: scan_directory_def scan_entries_names split: option.splits sum.splits)

lemma scan_files:
  "scan_directory E = Inr found \<Longrightarrow> i \<in> set found \<Longrightarrow>
     \<exists>ds d. ex_listing E = Some (Inr ds) \<and> d \<in> set ds \<and> de_regular d \<and> is_executable (de_perms d) \<and> sc_path i = de_path d"
proof -
  have "i \<in> set (scan_entries E ds) \<Longrightarrow>
      \<exists>d \<in> set ds. de_regular d \<and> is_executable (de_perms d) \<and> sc_path i = de_path d" for ds
    by (induction E ds rule: scan_entries.induct) (auto split: if_splits)
  then show "scan_directory E = Inr found \<Longrightarrow> i \<in> set found \<Longrightarrow> ?thesis"
    by (fastforce simp: scan_directory_def split: option.splits sum.splits)
qed

section \<open>The table after a reload\<close>

context string_map
begin

lemma get_dels: "get (fold (\<lambda>x. del (f x)) xs t) k = (if k \<in> f ` set xs then None else get t k)"
  by (induction xs arbitrary: t) (auto simp: get_del)

lemma get_registered:
  "get (fold (\<lambda>x. put (f x) (g x)) xs t) k =
     (case map_of (rev (map (\<lambda>x. (f x, g x)) xs)) k of Some v \<Rightarrow> Some v | None \<Rightarrow> get t k)"
proof -
  have "fold (\<lambda>x. put (f x) (g x)) xs t = puts (map (\<lambda>x. (f x, g x)) xs) t"
    by (simp add: puts_def fold_map comp_def)
  then show ?thesis by (simp add: get_puts)
qed

end

definition table_laws :: "'t table_ops \<Rightarrow> bool" where
  "table_laws T \<longleftrightarrow> (\<exists>e inv. string_map e (tb_put T) (tb_get T) (tb_del T) inv)"

text \<open>The resource the scripts put under a name: that of the last one of the name.\<close>

definition script_named :: "script_info list \<Rightarrow> string \<Rightarrow> resource option" where
  "script_named is k = map_of (rev (map (\<lambda>i. (sc_name i, resource_of i)) is)) k"

lemma script_named_None: "script_named is k = None \<longleftrightarrow> k \<notin> sc_name ` set is"
  by (auto simp: script_named_def map_of_eq_None_iff image_iff)

lemma script_named_Some: "script_named is k = Some r \<Longrightarrow> \<exists>i \<in> set is. sc_name i = k \<and> r = resource_of i"
  by (auto simp: script_named_def dest!: map_of_SomeD)

lemma registered:
  assumes "table_laws T"
  shows "tb_get T (fold (register_resource T) is t) k =
    (case script_named is k of Some r \<Rightarrow> Some r | None \<Rightarrow> tb_get T t k)"
proof -
  obtain e inv where "string_map e (tb_put T) (tb_get T) (tb_del T) inv" using assms by (auto simp: table_laws_def)
  then have "tb_get T (fold (\<lambda>i. tb_put T (sc_name i) (resource_of i)) is t) k =
    (case map_of (rev (map (\<lambda>i. (sc_name i, resource_of i)) is)) k of Some v \<Rightarrow> Some v | None \<Rightarrow> tb_get T t k)"
    by (rule string_map.get_registered)
  then show ?thesis by (simp add: register_resource_def [abs_def] script_named_def)
qed

lemma unregistered:
  assumes "table_laws T"
  shows "tb_get T (fold (\<lambda>i. tb_del T (sc_name i)) is t) k = (if k \<in> sc_name ` set is then None else tb_get T t k)"
proof -
  obtain e inv where "string_map e (tb_put T) (tb_get T) (tb_del T) inv" using assms by (auto simp: table_laws_def)
  then show ?thesis by (rule string_map.get_dels)
qed

lemma managed:
  assumes "table_laws T"
  shows "tb_get T (register_management_resources T t) k =
    (if k = ''$scripts/reload'' then Some ScriptsReload else if k = ''$scripts/info'' then Some ScriptsInfo else tb_get T t k)"
proof -
  obtain e inv where "string_map e (tb_put T) (tb_get T) (tb_del T) inv" using assms by (auto simp: table_laws_def)
  then have put: "tb_get T (tb_put T k v t) k' = (if k' = k then Some v else tb_get T t k')" for k v t k'
    by (rule string_map.get_put)
  show ?thesis by (simp add: register_management_resources_def put)
qed

lemma reload_table:
  assumes "table_laws T" and "reload T E s = Inr s'"
  shows "tb_get T (ss_table s') k =
    (case script_named (ss_scripts s') k of
       Some r \<Rightarrow> Some r
     | None \<Rightarrow> if k \<in> sc_name ` set (ss_scripts s) then None else tb_get T (ss_table s) k)"
proof -
  let ?t = "fold (\<lambda>i. tb_del T (sc_name i)) (ss_scripts s) (ss_table s)"
  have "ss_table s' = fold (register_resource T) (ss_scripts s') ?t"
    using assms(2) by (auto simp: reload_def Let_def rbind_eq_Inr)
  then show ?thesis by (simp only: registered [OF assms(1)] unregistered [OF assms(1)])
qed

section \<open>Any sequence of reloads\<close>

text \<open>
  The directory may be another one at every reload (any that satisfies \<open>Q\<close>), and a reload whose
  scan throws leaves everything as it was.
\<close>

inductive scripts_run :: "(script_env \<Rightarrow> bool) \<Rightarrow> 't table_ops \<Rightarrow> 't \<Rightarrow> 't scripts \<Rightarrow> bool" for Q T t0 where
  started: "Q E \<Longrightarrow> new_scripts T E t0 = Inr s \<Longrightarrow> scripts_run Q T t0 s"
| reloaded: "scripts_run Q T t0 s \<Longrightarrow> Q E \<Longrightarrow> call_reload T E describe s = Inr (s', out) \<Longrightarrow> scripts_run Q T t0 s'"

lemma call_reload_cases:
  assumes "call_reload T E describe s = Inr (s', out)"
  obtains "s' = s" | "reload T E s = Inr s'"
  using assms by (auto simp: call_reload_def rbind_eq_Inr split: if_splits)

lemma reload_scan: "reload T E s = Inr s' \<Longrightarrow> scan_directory E = Inr (ss_scripts s')"
  by (auto simp: reload_def Let_def rbind_eq_Inr)

definition MANAGEMENT :: "string set" where
  "MANAGEMENT = {''$scripts/info'', ''$scripts/reload''}"

lemma management_slash: "k \<in> MANAGEMENT \<Longrightarrow> CHR ''/'' \<in> set k"
  by (auto simp: MANAGEMENT_def)

text \<open>
  A name no directory ever had an executable for keeps what the agent registered under it.
\<close>

definition offers :: "script_env \<Rightarrow> string \<Rightarrow> bool" where
  "offers E k \<longleftrightarrow> (case ex_listing E of
     Some (Inr ds) \<Rightarrow> \<exists>d \<in> set ds. de_regular d \<and> is_executable (de_perms d) \<and> stem (de_path d) = k
   | _ \<Rightarrow> False)"

lemma offers_scan: "scan_directory E = Inr found \<Longrightarrow> offers E k \<longleftrightarrow> k \<in> sc_name ` set found"
proof -
  have "k \<in> sc_name ` set (scan_entries E ds) \<longleftrightarrow>
      (\<exists>d \<in> set ds. de_regular d \<and> is_executable (de_perms d) \<and> stem (de_path d) = k)" for ds
    by (induction E ds rule: scan_entries.induct) auto
  then show "scan_directory E = Inr found \<Longrightarrow> ?thesis"
    by (auto simp: offers_def scan_directory_def split: option.splits sum.splits)
qed

lemma native_survives:
  assumes "scripts_run Q T t0 s" and "table_laws T" and "k \<notin> MANAGEMENT" and "\<And>E. Q E \<Longrightarrow> \<not> offers E k"
  shows "k \<notin> sc_name ` set (ss_scripts s) \<and> tb_get T (ss_table s) k = tb_get T t0 k"
  using assms(1)
proof (induction rule: scripts_run.induct)
  case (started E s)
  from started(2) have f: "scan_directory E = Inr (ss_scripts s)"
    and t: "ss_table s = fold (register_resource T) (ss_scripts s) (register_management_resources T t0)"
    by (auto simp: new_scripts_def Let_def rbind_eq_Inr)
  have k: "k \<notin> sc_name ` set (ss_scripts s)" using offers_scan [OF f] assms(4) [OF started(1)] by blast
  then have "script_named (ss_scripts s) k = None" using script_named_None by blast
  with k assms(3) show ?case by (simp add: t registered [OF assms(2)] managed [OF assms(2)] MANAGEMENT_def)
next
  case (reloaded s E describe s' out)
  from reloaded(3) show ?case
  proof (cases rule: call_reload_cases)
    case 1
    with reloaded(4) show ?thesis by simp
  next
    case 2
    have k: "k \<notin> sc_name ` set (ss_scripts s')" using offers_scan [OF reload_scan [OF 2]] assms(4) [OF reloaded(2)] by blast
    then have "script_named (ss_scripts s') k = None" using script_named_None by blast
    with k reloaded(4) reload_table [OF assms(2) 2, of k] show ?thesis by simp
  qed
qed

text \<open>The name of a native resource that a script once took is free after the script is gone.\<close>

lemma taken_name_is_erased:
  assumes "table_laws T" and "reload T E s = Inr s'" and "i \<in> set (ss_scripts s)"
    and "sc_name i \<notin> sc_name ` set (ss_scripts s')"
  shows "tb_get T (ss_table s') (sc_name i) = None"
proof -
  have "script_named (ss_scripts s') (sc_name i) = None" using assms(4) script_named_None by blast
  with reload_table [OF assms(1,2), of "sc_name i"] assms(3) show ?thesis by simp
qed

section \<open>The whole table\<close>

text \<open>
  The same runs with the directories they scanned, the last one at the end: a describe call and
  a reload whose scan throws scan none.
\<close>

inductive scripts_after :: "'t table_ops \<Rightarrow> 't \<Rightarrow> script_env list \<Rightarrow> 't scripts \<Rightarrow> bool" for T t0 where
  first: "new_scripts T E t0 = Inr s \<Longrightarrow> scripts_after T t0 [E] s"
| again: "scripts_after T t0 Es s \<Longrightarrow> call_reload T E False s = Inr (s', out) \<Longrightarrow> scripts_after T t0 (Es @ [E]) s'"
| described: "scripts_after T t0 Es s \<Longrightarrow> call_reload T E True s = Inr (s', out) \<Longrightarrow> scripts_after T t0 Es s'"

text \<open>What a directory offers under a name: its last executable file whose stem it is.\<close>

definition last_offer :: "script_env \<Rightarrow> string \<Rightarrow> dir_entry option" where
  "last_offer E k = (case ex_listing E of
     Some (Inr ds) \<Rightarrow> find (\<lambda>d. de_regular d \<and> is_executable (de_perms d) \<and> stem (de_path d) = k) (rev ds)
   | _ \<Rightarrow> None)"

definition offered_resource :: "script_env \<Rightarrow> dir_entry \<Rightarrow> resource" where
  "offered_resource E d =
     (let j = run_describe E (de_path d)
      in if has_input j then InOutScript (de_path d) j else OutputScript (de_path d))"

lemma find_append: "find P (xs @ ys) = (case find P xs of Some x \<Rightarrow> Some x | None \<Rightarrow> find P ys)"
  by (induction xs) auto

lemma scanned_entries:
  "script_named (scan_entries E ds) k =
     map_option (offered_resource E) (find (\<lambda>d. de_regular d \<and> is_executable (de_perms d) \<and> stem (de_path d) = k) (rev ds))"
  by (induction E ds rule: scan_entries.induct)
    (auto simp: script_named_def find_append offered_resource_def resource_of_def Let_def map_add_def split: option.splits)

lemma scanned_offer: "scan_directory E = Inr found \<Longrightarrow> script_named found k = map_option (offered_resource E) (last_offer E k)"
  by (auto simp: scan_directory_def last_offer_def scanned_entries split: option.splits sum.splits) (simp add: script_named_def)

lemma last_offer_offers: "last_offer E k = None \<longleftrightarrow> \<not> offers E k"
  by (auto simp: last_offer_def offers_def find_None_iff split: option.splits sum.splits)

lemma management_not_offered: "k \<in> MANAGEMENT \<Longrightarrow> \<not> offers E k"
proof
  assume k: "k \<in> MANAGEMENT" and "offers E k"
  then have "\<exists>d :: dir_entry. stem (de_path d) = k" unfolding offers_def by (auto split: option.splits sum.splits)
  then obtain d :: dir_entry where "stem (de_path d) = k" ..
  with stem_slash [of "de_path d"] management_slash [OF k] show False by simp
qed

definition entry_after :: "'t table_ops \<Rightarrow> 't \<Rightarrow> script_env list \<Rightarrow> string \<Rightarrow> resource option" where
  "entry_after T t0 Es k = (case last_offer (last Es) k of
     Some d \<Rightarrow> Some (offered_resource (last Es) d)
   | None \<Rightarrow> if k = ''$scripts/info'' then Some ScriptsInfo
             else if k = ''$scripts/reload'' then Some ScriptsReload
             else if \<exists>E \<in> set Es. offers E k then None
             else tb_get T t0 k)"

lemma entry_after_reload:
  assumes "Es \<noteq> []"
  shows "entry_after T t0 (Es @ [E]) k = (case last_offer E k of
     Some d \<Rightarrow> Some (offered_resource E d)
   | None \<Rightarrow> if offers (last Es) k then None else entry_after T t0 Es k)"
proof (cases "last_offer E k")
  case None
  then have e: "\<not> offers E k" by (simp add: last_offer_offers)
  show ?thesis
  proof (cases "offers (last Es) k")
    case True
    then have "k \<notin> MANAGEMENT" "\<exists>E \<in> set Es. offers E k" using management_not_offered assms by auto
    with True None show ?thesis by (simp add: entry_after_def MANAGEMENT_def)
  next
    case False
    then have "last_offer (last Es) k = None" by (simp add: last_offer_offers)
    with False None e show ?thesis by (simp add: entry_after_def)
  qed
qed (simp add: entry_after_def)

lemma table_after:
  assumes "scripts_after T t0 Es s" and "table_laws T"
  shows "Es \<noteq> [] \<and> scan_directory (last Es) = Inr (ss_scripts s) \<and> (\<forall>k. tb_get T (ss_table s) k = entry_after T t0 Es k)"
  using assms(1)
proof (induction rule: scripts_after.induct)
  case (first E s)
  then have f: "scan_directory E = Inr (ss_scripts s)"
    and t: "ss_table s = fold (register_resource T) (ss_scripts s) (register_management_resources T t0)"
    by (auto simp: new_scripts_def Let_def rbind_eq_Inr)
  have "tb_get T (ss_table s) k = entry_after T t0 [E] k" for k
  proof (cases "last_offer E k")
    case None
    then have "\<not> offers E k" by (simp add: last_offer_offers)
    with None show ?thesis by (simp add: t registered [OF assms(2)] managed [OF assms(2)] scanned_offer [OF f] entry_after_def)
  next
    case (Some d)
    then show ?thesis by (simp add: t registered [OF assms(2)] scanned_offer [OF f] entry_after_def)
  qed
  with f show ?case by simp
next
  case (again Es s E s' out)
  then have r: "reload T E s = Inr s'" by (auto simp: call_reload_def rbind_eq_Inr)
  note f = reload_scan [OF r]
  have "tb_get T (ss_table s') k = entry_after T t0 (Es @ [E]) k" for k
  proof (cases "last_offer E k")
    case None
    have ne: "Es \<noteq> []" using again.IH by blast
    have "offers (last Es) k \<longleftrightarrow> k \<in> sc_name ` set (ss_scripts s)" using again.IH offers_scan by blast
    with again.IH None show ?thesis
      by (simp only: reload_table [OF assms(2) r] scanned_offer [OF f] entry_after_reload [OF ne] option.simps option.map)
  next
    case (Some d)
    with again.IH show ?thesis by (simp add: reload_table [OF assms(2) r] scanned_offer [OF f] entry_after_reload)
  qed
  with f show ?case by simp
next
  case (described Es s E s' out)
  then have "s' = s" by (simp add: call_reload_def)
  with described.IH show ?case by simp
qed

section \<open>Claims\<close>

text \<open>
  C25. Whatever the scripts directory holds at the start and at every later reload, the whole
  resource table is known from the directories scanned: a name the last directory offers leads
  to its last executable file of that name, called with an input exactly if the description of
  that file advertises one; the two management resources never change, because no name of a
  file has a slash; a name only earlier directories offered is gone; and every other entry, of
  the agent's own resources too, is as it was registered before.
\<close>

theorem scripts_table_invariant:
  assumes "table_laws T" and "scripts_after T t0 Es s"
  shows "tb_get T (ss_table s) k = (case last_offer (last Es) k of
     Some d \<Rightarrow> Some (if has_input (run_describe (last Es) (de_path d))
       then InOutScript (de_path d) (run_describe (last Es) (de_path d)) else OutputScript (de_path d))
   | None \<Rightarrow> if k = ''$scripts/info'' then Some ScriptsInfo
             else if k = ''$scripts/reload'' then Some ScriptsReload
             else if \<exists>E \<in> set Es. offers E k then None
             else tb_get T t0 k)"
  using table_after [OF assms(2,1)] unfolding entry_after_def offered_resource_def Let_def by blast

definition smap_table :: "resource smap table_ops" where
  "smap_table = \<lparr>tb_put = smap_put, tb_get = smap_get, tb_del = smap_del\<rparr>"

lemma smap_table_laws: "table_laws smap_table"
  using sm.string_map_axioms by (auto simp: table_laws_def smap_table_def)

definition demo_scripts :: "dir_entry list \<Rightarrow> script_env" where
  "demo_scripts ds = \<lparr>ex_session = \<lparr>se_euid_root = True, se_uid_root = True, se_home = None, se_pw_dir = None, se_path = None\<rparr>,
     ex_listing = Some (Inr ds), ex_exec = (\<lambda>p args inp t. \<lparr>xr_code = 0, xr_out = [], xr_err = [], xr_timeout = False\<rparr>),
     ex_parse = (\<lambda>_. None), ex_dump = (\<lambda>_. [])\<rparr>"

definition native_table :: "resource smap" where
  "native_table = [(''network'', NativeResource ''network''), (''system'', NativeResource ''system'')]"

text \<open>A script named like a native resource comes and goes: the native resource is gone too.\<close>

lemma scripts_table_invariant_witness:
  "\<exists>E s. scripts_after smap_table native_table [E, demo_scripts []] s \<and>
     tb_get smap_table (ss_table s) ''$scripts/reload'' = Some ScriptsReload \<and>
     tb_get smap_table (ss_table s) ''network'' = Some (NativeResource ''network'') \<and>
     tb_get smap_table (ss_table s) ''system'' = None"
proof -
  let ?E = "demo_scripts [\<lparr>de_path = ''/etc/thinr-agent/scripts/system.sh'', de_regular = True, de_perms = 493\<rparr>]"
  let ?i = "\<lparr>sc_path = ''/etc/thinr-agent/scripts/system.sh'', sc_name = ''system'', sc_describe = JNull\<rparr>"
  have scan: "scan_directory ?E = Inr [?i]" "scan_directory (demo_scripts []) = Inr []"
    by (simp_all add: scan_directory_def demo_scripts_def is_executable_def run_describe_def stem_def base_name_def Let_def)
  then obtain s where s: "new_scripts smap_table ?E native_table = Inr s" by (auto simp: new_scripts_def Let_def)
  from scan obtain s' where "reload smap_table (demo_scripts []) s = Inr s'" by (auto simp: reload_def Let_def)
  then have run: "scripts_after smap_table native_table [?E, demo_scripts []] s'"
    using scripts_after.again [OF scripts_after.first [OF s], of "demo_scripts []" s'] by (auto simp: call_reload_def)
  have off: "offers ?E k \<longleftrightarrow> k = ''system''" "\<not> offers (demo_scripts []) k" "last_offer (demo_scripts []) k = None" for k
    by (auto simp: offers_def last_offer_def demo_scripts_def is_executable_def stem_def base_name_def Let_def)
  note at = scripts_table_invariant [OF smap_table_laws run]
  show ?thesis
    using at [of "''$scripts/reload''"] at [of "''network''"] at [of "''system''"] run
    by (intro exI [of _ ?E] exI [of _ s']) (simp add: off, simp add: smap_table_def native_table_def smap_get_def)
qed

lemma failed_fields:
  "op_error (failed code msg r no_output) = Some (code, c_str msg)"
  "jfind (op_data (failed code msg r no_output)) ''exit_code'' = Some (JInt (xr_code r))"
  "jfind (op_data (failed code msg r no_output)) ''stderr'' = Some (JStr (xr_err r))"
  by (simp_all add: failed_def no_output_def put_field_def c_str_def smap_get_def)

lemma put_output: "jfind (put_field ''output'' v JNull) ''output'' = Some v"
  by (simp add: put_field_def c_str_def)

text \<open>
  A call of a script's resource fails exactly when the script ran out of time, with 408, or
  ended with another exit code than 0, with 500 and what it wrote on its error stream; else
  there is no error, and text that is no JSON arrives as it is under \<open>output\<close>.
\<close>

theorem script_failures_reported:
  assumes "r = ex_exec E path [] inp EXEC_TIMEOUT_SECONDS" and "out = execute_script E path inp no_output"
  shows "case op_error out of
      None \<Rightarrow> \<not> xr_timeout r \<and> xr_code r = 0 \<and>
        (ex_parse E (xr_out r) = None \<longrightarrow> jfind (op_data out) ''output'' = Some (JStr (xr_out r)))
    | Some (code, msg) \<Rightarrow> (xr_timeout r \<and> code = 408 \<or> \<not> xr_timeout r \<and> xr_code r \<noteq> 0 \<and> code = 500) \<and>
        (code = 500 \<longrightarrow> xr_err r \<noteq> [] \<longrightarrow> msg = c_str (xr_err r)) \<and>
        jfind (op_data out) ''exit_code'' = Some (JInt (xr_code r)) \<and>
        jfind (op_data out) ''stderr'' = Some (JStr (xr_err r))"
proof -
  consider "xr_timeout r" | "\<not> xr_timeout r" "xr_code r \<noteq> 0" | "\<not> xr_timeout r" "xr_code r = 0" by blast
  then show ?thesis
  proof cases
    case 1
    then have "out = failed 408 ''script timed out'' r no_output" using assms by (simp add: execute_script_def Let_def)
    with 1 show ?thesis by (simp add: failed_fields)
  next
    case 2
    then have "out = failed 500 (if xr_err r = [] then ''Script exited with code '' @ show_int (xr_code r) else xr_err r) r no_output"
      using assms by (simp add: execute_script_def Let_def)
    with 2 show ?thesis by (simp add: failed_fields)
  next
    case 3
    then have "op_error out = None" "ex_parse E (xr_out r) = None \<Longrightarrow> jfind (op_data out) ''output'' = Some (JStr (xr_out r))"
      using assms by (simp_all add: execute_script_def no_output_def put_output Let_def split: option.splits json.splits)
    with 3 show ?thesis by simp
  qed
qed

lemma script_failures_reported_witness:
  "jfind (op_data (execute_script (demo_scripts []) ''/bin/x'' [] no_output)) ''output'' = Some (JStr [])"
proof -
  have e: "ex_exec (demo_scripts []) p a i t = \<lparr>xr_code = 0, xr_out = [], xr_err = [], xr_timeout = False\<rparr>"
    "ex_parse (demo_scripts []) x = None" for p a i t x
    by (simp_all add: demo_scripts_def)
  from script_failures_reported [of _ "demo_scripts []" "''/bin/x''" "[]", OF refl refl, unfolded e]
  show ?thesis by (simp split: option.splits prod.splits)
qed

end
