(* ===== verification/Init_Systems.thy ===== *)
theory Init_Systems
  imports Service_Installer
begin

text \<open>
  The init systems behind the installer template, except SysV (which has a theory of its
  own): systemd and launchd (\<open>src/thinr/installer/init_systems/systemd_service_installer.cpp\<close>,
  \<open>launchd_service_installer.cpp\<close>), the stubs for OpenRC and Upstart, and Android, where the
  app owns the life cycle. Messages on the terminal are left out.
\<close>

definition lines_text :: "string list \<Rightarrow> string" where
  "lines_text ls = concat (map (\<lambda>l. l @ [CHR 0x0A]) ls)"

section \<open>systemd\<close>

definition systemctl_command :: "bool \<Rightarrow> string" where
  "systemctl_command system_wide = (if system_wide then ''systemctl'' else ''systemctl --user'')"

definition systemctl_for_current_context :: "'w host \<Rightarrow> string" where
  "systemctl_for_current_context H = systemctl_command (can_install_system_service H)"

definition systemd_service_name :: string where
  "systemd_service_name = get_service_identifier @ ''.service''"

definition systemd_path :: "'w host \<Rightarrow> bool \<Rightarrow> string" where
  "systemd_path H system_wide = get_systemd_service_path (ho_session H) system_wide"

definition systemd_generate :: "'w host \<Rightarrow> bool \<Rightarrow> string" where
  "systemd_generate H system_wide =
     (let b = binary_path H system_wide; c = get_config_path_for (ho_session H) system_wide in
      lines_text
        [''[Unit]'',
         ''Description='' @ SERVICE_DESCRIPTION,
         ''After=network.target'',
         ''Wants=network.target'',
         ''StartLimitIntervalSec=0'',
         [],
         ''[Service]'',
         ''Type=simple'',
         ''ExecStart='' @ b @ '' --config '' @ c,
         ''Restart=always'',
         ''RestartSec=5'',
         ''KillMode=process'',
         ''TimeoutStopSec=30'',
         [],
         ''[Install]'',
         ''WantedBy='' @ (if system_wide then ''multi-user.target'' else ''default.target'')])"

definition systemd_install :: "'w host \<Rightarrow> bool \<Rightarrow> ('w world, bool) act" where
  "systemd_install H system_wide =
     (let ctl = systemctl_command system_wide in
      abind (write_text H (systemd_path H system_wide) (systemd_generate H system_wide)) (\<lambda>written.
      if \<not> written then aret False else
      abind (execute_system_command H (ctl @ '' daemon-reload'')) (\<lambda>reloaded.
      abind (execute_system_command H (ctl @ '' enable '' @ systemd_service_name @ '' >/dev/null 2>&1'')) (\<lambda>enabled.
      if \<not> enabled then aret False
      else if system_wide then aret True
      else abind (execute_system_command H (''loginctl enable-linger '' @ get_username H @ '' >/dev/null 2>&1'')) (\<lambda>linger.
        aret True)))))"

definition check_lingering_enabled :: "'w host \<Rightarrow> string \<Rightarrow> ('w world, bool) act" where
  "check_lingering_enabled H username =
     execute_system_command H (''loginctl show-user '' @ username @
       '' --property=Linger 2>/dev/null | grep -q '' @ [CHR 0x27] @ ''Linger=yes'' @ [CHR 0x27])"

definition systemd_uninstall :: "'w host \<Rightarrow> bool \<Rightarrow> ('w world, bool) act" where
  "systemd_uninstall H system_wide =
     (let ctl = systemctl_command system_wide; path = systemd_path H system_wide in
      abind (file_there H path) (\<lambda>there.
      if \<not> there then aret True else
      abind (execute_system_command H (ctl @ '' stop '' @ systemd_service_name @ '' >/dev/null 2>&1'')) (\<lambda>stopped.
      abind (execute_system_command H (ctl @ '' disable '' @ systemd_service_name @ '' >/dev/null 2>&1'')) (\<lambda>disabled.
      abind (remove_file H path) (\<lambda>_.
      abind (execute_system_command H (ctl @ '' daemon-reload 2>/dev/null'')) (\<lambda>reloaded.
      if system_wide then aret True
      else abind (check_lingering_enabled H (get_username H)) (\<lambda>linger. aret True)))))))"

definition systemd_start :: "'w host \<Rightarrow> ('w world, bool) act" where
  "systemd_start H = execute_system_command H (systemctl_for_current_context H @ '' start '' @ systemd_service_name)"

definition systemd_stop :: "'w host \<Rightarrow> ('w world, bool) act" where
  "systemd_stop H = execute_system_command H (systemctl_for_current_context H @ '' stop '' @ systemd_service_name)"

definition systemd_status :: "'w host \<Rightarrow> bool \<Rightarrow> ('w world, service_status) act" where
  "systemd_status H system_wide =
     abind (file_there H (systemd_path H system_wide)) (\<lambda>there.
     if \<not> there then aret NOT_INSTALLED else
     abind (if system_wide then aret True else check_lingering_enabled H (get_username H)) (\<lambda>linger.
     abind (execute_system_command H
              (systemctl_command system_wide @ '' is-active '' @ systemd_service_name @ '' >/dev/null 2>&1'')) (\<lambda>active.
       aret (if active then INSTALLED_RUNNING else INSTALLED_STOPPED))))"

definition systemd_user :: "'w host \<Rightarrow> ('w world, bool) act" where
  "systemd_user H = execute_system_command H ''systemctl --user status >/dev/null 2>&1''"

definition systemd_impl :: "'w host \<Rightarrow> 'w init_impl" where
  "systemd_impl H = \<lparr>im_name = ''systemd'', im_path = systemd_path H, im_install = systemd_install H,
     im_uninstall = systemd_uninstall H, im_start = systemd_start H, im_stop = systemd_stop H,
     im_status = systemd_status H, im_generate = systemd_generate H, im_user = systemd_user H\<rparr>"

section \<open>launchd\<close>

definition launchd_path :: "'w host \<Rightarrow> bool \<Rightarrow> string" where
  "launchd_path H system_wide = get_launchd_plist_path (ho_session H) system_wide"

definition launchd_generate :: "'w host \<Rightarrow> bool \<Rightarrow> string" where
  "launchd_generate H system_wide =
     (let b = binary_path H system_wide; c = get_config_path_for (ho_session H) system_wide;
          username = get_username H; logs = get_log_directory (ho_session H) system_wide;
          group = ho_group H username
      in lines_text
        ([''<?xml version=\"1.0\" encoding=\"UTF-8\"?>'',
          ''<!DOCTYPE plist PUBLIC \"-//Apple//DTD PLIST 1.0//EN\" \"http://www.apple.com/DTDs/PropertyList-1.0.dtd\">'',
          ''<plist version=\"1.0\">'',
          ''<dict>'',
          ''    <key>Label</key>'',
          ''    <string>'' @ get_launchd_identifier @ ''</string>'',
          ''    <key>ProgramArguments</key>'',
          ''    <array>'',
          ''        <string>'' @ b @ ''</string>'',
          ''        <string>--config</string>'',
          ''        <string>'' @ c @ ''</string>'',
          ''    </array>'',
          ''    <key>RunAtLoad</key>'',
          ''    <true/>'',
          ''    <key>KeepAlive</key>'',
          ''    <true/>'',
          ''    <key>ProcessType</key>'',
          ''    <string>Adaptive</string>''] @
         (if system_wide \<and> username \<noteq> [] \<and> username \<noteq> ''root'' then
            [''    <key>UserName</key>'', ''    <string>'' @ username @ ''</string>''] @
            (if group \<noteq> [] then [''    <key>GroupName</key>'', ''    <string>'' @ group @ ''</string>''] else [])
          else []) @
         [''    <key>StandardOutPath</key>'',
          ''    <string>'' @ logs @ ''/stdout.log</string>'',
          ''    <key>StandardErrorPath</key>'',
          ''    <string>'' @ logs @ ''/stderr.log</string>'',
          ''    <key>EnvironmentVariables</key>'',
          ''    <dict>'',
          ''        <key>PATH</key>'',
          ''        <string>/usr/local/bin:/usr/bin:/bin</string>'',
          ''    </dict>'',
          ''    <key>ThrottleInterval</key>'',
          ''    <integer>10</integer>'',
          ''    <key>LaunchOnlyOnce</key>'',
          ''    <false/>'',
          ''</dict>'',
          ''</plist>'']))"

definition launchctl :: "'w host \<Rightarrow> string \<Rightarrow> string \<Rightarrow> ('w world, bool) act" where
  "launchctl H verb arg = execute_system_command H (''launchctl '' @ verb @ '' '' @ arg @ '' >/dev/null 2>&1'')"

definition launchd_install :: "'w host \<Rightarrow> bool \<Rightarrow> ('w world, bool) act" where
  "launchd_install H system_wide =
     abind (write_text H (launchd_path H system_wide) (launchd_generate H system_wide)) (\<lambda>written.
     if \<not> written then aret False else launchctl H ''load'' (launchd_path H system_wide))"

definition launchd_uninstall :: "'w host \<Rightarrow> bool \<Rightarrow> ('w world, bool) act" where
  "launchd_uninstall H system_wide =
     (let path = launchd_path H system_wide in
      abind (file_there H path) (\<lambda>there.
      if \<not> there then aret True else
      abind (launchctl H ''unload'' path) (\<lambda>unloaded.
      abind (launchctl H ''remove'' get_launchd_identifier) (\<lambda>removed.
      abind (remove_file H path) (\<lambda>_. aret True)))))"

definition launchd_start :: "'w host \<Rightarrow> ('w world, bool) act" where
  "launchd_start H =
     abind (launchctl H ''start'' get_launchd_identifier) (\<lambda>started.
     if started then aret True
     else
       let path = launchd_path H (can_install_system_service H)
       in abind (file_there H path) (\<lambda>there. if there then launchctl H ''load'' path else aret False))"

definition launchd_stop :: "'w host \<Rightarrow> ('w world, bool) act" where
  "launchd_stop H = launchctl H ''stop'' get_launchd_identifier"

definition launchd_status :: "'w host \<Rightarrow> bool \<Rightarrow> ('w world, service_status) act" where
  "launchd_status H system_wide =
     abind (file_there H (launchd_path H system_wide)) (\<lambda>there.
     if \<not> there then aret NOT_INSTALLED else
     abind (launchctl H ''list'' get_launchd_identifier) (\<lambda>listed.
     if \<not> listed then aret INSTALLED_STOPPED else
     abind (execute_system_command H (''launchctl print '' @ (if system_wide then ''system/'' else ''gui/$(id -u)/'') @
              get_launchd_identifier @ '' 2>/dev/null | grep -q '' @ [CHR 0x27] @ ''state = running'' @ [CHR 0x27]))
       (\<lambda>running. aret (if running then INSTALLED_RUNNING else INSTALLED_STOPPED))))"

definition launchd_impl :: "'w host \<Rightarrow> 'w init_impl" where
  "launchd_impl H = \<lparr>im_name = ''launchd'', im_path = launchd_path H, im_install = launchd_install H,
     im_uninstall = launchd_uninstall H, im_start = launchd_start H, im_stop = launchd_stop H,
     im_status = launchd_status H, im_generate = launchd_generate H, im_user = aret True\<rparr>"

section \<open>Stubs and Android\<close>

definition openrc_impl :: "'w init_impl" where
  "openrc_impl = \<lparr>im_name = ''OpenRC'', im_path = (\<lambda>_. ''/etc/init.d/'' @ get_service_identifier),
     im_install = (\<lambda>_. aret False), im_uninstall = (\<lambda>_. aret True), im_start = aret True, im_stop = aret True,
     im_status = (\<lambda>_. aret NOT_INSTALLED), im_generate = (\<lambda>_. []), im_user = aret False\<rparr>"

definition upstart_impl :: "'w init_impl" where
  "upstart_impl = \<lparr>im_name = ''Upstart'', im_path = (\<lambda>_. ''/etc/init/'' @ get_service_identifier @ ''.conf''),
     im_install = (\<lambda>_. aret False), im_uninstall = (\<lambda>_. aret True), im_start = aret True, im_stop = aret True,
     im_status = (\<lambda>_. aret NOT_INSTALLED), im_generate = (\<lambda>_. []), im_user = aret False\<rparr>"

definition android_impl :: "'w init_impl" where
  "android_impl = \<lparr>im_name = ''android'', im_path = (\<lambda>_. []),
     im_install = (\<lambda>_. aret True), im_uninstall = (\<lambda>_. aret True), im_start = aret True, im_stop = aret True,
     im_status = (\<lambda>_. aret NOT_INSTALLED), im_generate = (\<lambda>_. []), im_user = aret False\<rparr>"

section \<open>The contract, discharged\<close>

lemma write_text_written:
  assumes "write_text H p b w = (Inr True, w')"
  shows "data_of (wo_fs w') p = Some b"
  using assms by (auto simp: write_text_def put_bytes_def data_of_def split: option.splits if_splits)

lemma remove_file_removed:
  assumes "remove_file H p w = (Inr u, w')"
  shows "wo_fs w' p = None"
  using assms by (auto simp: remove_file_def fremove_def split: if_splits)

lemma keeps_file_launchctl [keeps_file_intros]: "leaves H p \<Longrightarrow> keeps_file p (launchctl H verb arg)"
  unfolding launchctl_def by (intro keeps_file_intros)

text \<open>Actions after the write or the removal that leave the file alone keep what was done.\<close>

lemma written_then:
  assumes run: "abind (write_text H p b) (\<lambda>written. if \<not> written then aret False else rest) w = (Inr True, w')"
    and rest: "keeps_file p rest"
  shows "data_of (wo_fs w') p = Some b"
  using run
proof (cases rule: abind_cases)
  case (thrown e)
  then show ?thesis by simp
next
  case (returned ok w1)
  from returned(2) have ok: ok by (cases ok) (auto simp: aret_def)
  with returned have "data_of (wo_fs w1) p = Some b" "rest w1 = (Inr True, w')" by (auto dest: write_text_written)
  with keeps_fileD [OF rest] show ?thesis by (simp add: data_of_def)
qed

lemma removed_then:
  assumes run: "abind (remove_file H p) (\<lambda>_. rest) w = (Inr x, w')" and rest: "keeps_file p rest"
  shows "wo_fs w' p = None"
  using run
proof (cases rule: abind_cases)
  case (thrown e)
  then show ?thesis by simp
next
  case (returned u w1)
  with remove_file_removed keeps_fileD [OF rest] show ?thesis by metis
qed

lemma abind_ignored:
  assumes "abind m (\<lambda>_. n) w = (Inr x, w')" and "\<And>w1. n w1 = (Inr x, w') \<Longrightarrow> P"
  shows P
  using assms(1) by (cases rule: abind_cases) (auto intro: assms(2))

lemma absent_or:
  assumes run: "abind (file_there H p) (\<lambda>there. if \<not> there then aret True else rest) w = (Inr True, w')"
    and rest: "rest w = (Inr True, w') \<Longrightarrow> wo_fs w' p = None"
  shows "wo_fs w' p = None"
  using assms by (auto simp: abind_def file_there_def hexists_def fexists_def aret_def split: if_splits)

lemma systemd_install_writes:
  assumes "leaves H (systemd_path H sw)" and "systemd_install H sw w = (Inr True, w')"
  shows "data_of (wo_fs w') (systemd_path H sw) = Some (systemd_generate H sw)"
  by (rule written_then [OF assms(2) [unfolded systemd_install_def Let_def]])
    (intro keeps_file_intros assms(1))

lemma systemd_uninstall_clears:
  assumes "leaves H (systemd_path H sw)" and "systemd_uninstall H sw w = (Inr True, w')"
  shows "wo_fs w' (systemd_path H sw) = None"
proof (rule absent_or [OF assms(2) [unfolded systemd_uninstall_def Let_def]])
  assume "abind (execute_system_command H (systemctl_command sw @ '' stop '' @ systemd_service_name @ '' >/dev/null 2>&1'')) (\<lambda>stopped.
      abind (execute_system_command H (systemctl_command sw @ '' disable '' @ systemd_service_name @ '' >/dev/null 2>&1'')) (\<lambda>disabled.
      abind (remove_file H (systemd_path H sw)) (\<lambda>_.
      abind (execute_system_command H (systemctl_command sw @ '' daemon-reload 2>/dev/null'')) (\<lambda>reloaded.
      if sw then aret True
      else abind (check_lingering_enabled H (get_username H)) (\<lambda>linger. aret True))))) w = (Inr True, w')"
    (is "abind _ (\<lambda>stopped. abind _ (\<lambda>disabled. abind _ (\<lambda>_. ?rest))) w = _")
  then obtain w1 where "abind (remove_file H (systemd_path H sw)) (\<lambda>_. ?rest) w1 = (Inr True, w')"
    by (rule abind_ignored) (erule abind_ignored, erule that)
  then show "wo_fs w' (systemd_path H sw) = None"
    by (rule removed_then) (unfold check_lingering_enabled_def, intro keeps_file_intros assms(1))
qed

lemma launchd_uninstall_clears:
  assumes "leaves H (launchd_path H sw)" and "launchd_uninstall H sw w = (Inr True, w')"
  shows "wo_fs w' (launchd_path H sw) = None"
proof (rule absent_or [OF assms(2) [unfolded launchd_uninstall_def Let_def]])
  assume "abind (launchctl H ''unload'' (launchd_path H sw)) (\<lambda>unloaded.
      abind (launchctl H ''remove'' get_launchd_identifier) (\<lambda>removed.
      abind (remove_file H (launchd_path H sw)) (\<lambda>_. aret True))) w = (Inr True, w')"
  then obtain w1 where "abind (remove_file H (launchd_path H sw)) (\<lambda>_. aret True) w1 = (Inr True, w')"
    by (rule abind_ignored) (erule abind_ignored, erule that)
  then show "wo_fs w' (launchd_path H sw) = None"
    by (rule removed_then) (intro keeps_file_intros)
qed

interpretation sd: init_system H "systemd_impl H" "\<lambda>sw. {systemd_path H sw}" for H
proof
  fix p sw
  assume p: "leaves H p" "p \<notin> {systemd_path H sw}"
  then show "keeps_file p (im_install (systemd_impl H) sw)"
    by (auto simp: systemd_impl_def systemd_install_def Let_def intro!: keeps_file_intros)
  show "keeps_file p (im_uninstall (systemd_impl H) sw)"
    using p by (auto simp: systemd_impl_def systemd_uninstall_def check_lingering_enabled_def Let_def intro!: keeps_file_intros)
next
  fix sw w
  show "fst (im_status (systemd_impl H) sw w) = Inr NOT_INSTALLED \<longleftrightarrow> \<not> hexists H (im_path (systemd_impl H) sw) w"
    by (auto simp: systemd_impl_def systemd_status_def check_lingering_enabled_def execute_system_command_def
        abind_def file_there_def aret_def split: prod.splits if_splits)
qed (auto simp: systemd_impl_def systemd_user_def systemd_install_writes systemd_uninstall_clears intro: keeps_file_intros)

interpretation ld: init_system H "launchd_impl H" "\<lambda>sw. {launchd_path H sw}" for H
proof
  fix sw w w'
  assume "leaves H (im_path (launchd_impl H) sw)" and "im_install (launchd_impl H) sw w = (Inr True, w')"
  then show "data_of (wo_fs w') (im_path (launchd_impl H) sw) = Some (im_generate (launchd_impl H) sw)"
    by (auto simp: launchd_impl_def launchd_install_def intro: written_then intro!: keeps_file_intros)
next
  fix p sw
  assume p: "leaves H p" "p \<notin> {launchd_path H sw}"
  then show "keeps_file p (im_install (launchd_impl H) sw)"
    by (auto simp: launchd_impl_def launchd_install_def intro!: keeps_file_intros)
  show "keeps_file p (im_uninstall (launchd_impl H) sw)"
    using p by (auto simp: launchd_impl_def launchd_uninstall_def Let_def intro!: keeps_file_intros)
next
  fix sw w
  show "fst (im_status (launchd_impl H) sw w) = Inr NOT_INSTALLED \<longleftrightarrow> \<not> hexists H (im_path (launchd_impl H) sw) w"
    by (auto simp: launchd_impl_def launchd_status_def launchctl_def execute_system_command_def
        abind_def file_there_def aret_def split: prod.splits if_splits)
qed (auto simp: launchd_impl_def launchd_uninstall_clears intro: keeps_file_intros)

section \<open>Properties\<close>

lemma binary_is_not_the_unit: "binary_path H sw \<noteq> systemd_path H sw'"
  by (auto simp: binary_path_def systemd_path_def get_binary_install_path_def get_systemd_service_path_def
      BINARY_NAME_def SERVICE_NAME_def split: option.splits dest!: arg_cong [where f = rev])

text \<open>A machine with a shell that always succeeds and a downloaded binary.\<close>

definition demo_host :: "unit host" where
  "demo_host = \<lparr>ho_session = \<lparr>se_euid_root = True, se_uid_root = True, se_home = Some ''/root'', se_pw_dir = None,
      se_path = Some ''/usr/local/bin:/usr/bin''\<rparr>, ho_user = Some ''root'', ho_pw_name = None, ho_group = (\<lambda>_. []),
     ho_exe = Some ''/tmp/thinr'', ho_dir = (\<lambda>p. p = ''/run/systemd/system''), ho_system = (\<lambda>_ w. (0, w)),
     ho_open = (\<lambda>_. True), ho_short = (\<lambda>_. None), ho_remove = (\<lambda>_. True), ho_copy = (\<lambda>_. CopyWhole), ho_chmod = (\<lambda>_. True), ho_list = (\<lambda>_ _. Some [])\<rparr>"

definition demo_world :: "unit world" where
  "demo_world = \<lparr>wo_fs = [''/tmp/thinr'' \<mapsto> \<lparr>f_data = ''ELF'', f_mode = 420\<rparr>], wo_rest = ()\<rparr>"

lemma demo_host_simps:
  "se_euid_root (ho_session demo_host)" "ho_copy demo_host p = CopyWhole" "ho_chmod demo_host p" "ho_open demo_host p" "ho_short demo_host p = None"
  "ho_remove demo_host p" "ho_system demo_host cmd w = (0, w)" "ho_dir demo_host p \<longleftrightarrow> p = ''/run/systemd/system''"
  "ho_list demo_host d w = Some []"
  by (simp_all add: demo_host_def)

lemma demo_leaves: "leaves demo_host p"
  by (simp add: leaves_def demo_host_def)

lemma demo_paths: "binary_path demo_host True = ''/usr/local/bin/thinr-agent''"
  "systemd_path demo_host True = ''/etc/systemd/system/thinr-agent.service''"
  "get_current_binary_path demo_host = ''/tmp/thinr''"
  by (simp_all add: demo_host_def binary_path_def get_binary_install_path_def systemd_path_def contains_sub_def
      get_systemd_service_path_def get_current_binary_path_def BINARY_NAME_def SERVICE_NAME_def starts_with_def)

lemma demo_install:
  "install_service demo_host (systemd_impl demo_host) SYSTEM demo_world =
     (Inr True, demo_world\<lparr>wo_fs := put_bytes ''/etc/systemd/system/thinr-agent.service'' (systemd_generate demo_host True)
        ((wo_fs demo_world)(''/usr/local/bin/thinr-agent'' \<mapsto> \<lparr>f_data = ''ELF'', f_mode = 493\<rparr>))\<rparr>)"
  by (simp add: install_service_def copy_binary_to_install_path_def copy_file_def set_permissions_def demo_paths abind_def acatch_def aret_def
      systemd_impl_def systemd_install_def write_text_def execute_system_command_def Let_def demo_host_simps demo_world_def)

text \<open>
  C14. A successful \<open>thinr-agent install\<close> on a systemd machine leaves the whole installation in
  place. Its scope is the system's if that was asked for, if nothing was asked for and the
  process is root, or if there is no user service bus (then only as root), and the user's
  otherwise. In that scope the binary is the running one with mode 0755, and the unit is, line by
  line, the one that starts this binary with the configuration of the same scope, restarts it
  always and without a limit (the update watchdog counts on both), and is wanted by the target of
  the scope. No other file that the service manager leaves alone has changed.
\<close>
theorem service_install_complete:
  assumes "install_service H (systemd_impl H) mode w = (Inr True, w')"
    and "\<And>sw. leaves H (systemd_path H sw)" "\<And>sw. leaves H (binary_path H sw)" "leaves H (get_current_binary_path H)"
  shows "\<exists>sw. (sw \<longleftrightarrow> mode = SYSTEM \<or> mode = AUTO \<and> can_install_system_service H \<or> fst (systemd_user H w) = Inr False) \<and>
    (sw \<longrightarrow> mode = SYSTEM \<or> can_install_system_service H) \<and>
    (\<exists>f. wo_fs w (get_current_binary_path H) = Some f \<and> wo_fs w' (binary_path H sw) = Some (f\<lparr>f_mode := 493\<rparr>)) \<and>
    data_of (wo_fs w') (systemd_path H sw) = Some (lines_text
      [''[Unit]'', ''Description=ThinRemote Agent'', ''After=network.target'', ''Wants=network.target'',
       ''StartLimitIntervalSec=0'', [],
       ''[Service]'', ''Type=simple'',
       ''ExecStart='' @ binary_path H sw @ '' --config '' @ get_config_path_for (ho_session H) sw,
       ''Restart=always'', ''RestartSec=5'', ''KillMode=process'', ''TimeoutStopSec=30'', [],
       ''[Install]'', if sw then ''WantedBy=multi-user.target'' else ''WantedBy=default.target'']) \<and>
    (\<forall>p. leaves H p \<longrightarrow> p \<noteq> systemd_path H sw \<longrightarrow> p \<noteq> binary_path H sw \<longrightarrow> wo_fs w' p = wo_fs w p)"
proof -
  have sel: "im_path (systemd_impl H) = systemd_path H" "im_generate (systemd_impl H) = systemd_generate H"
    "im_user (systemd_impl H) = systemd_user H"
    by (simp_all add: systemd_impl_def)
  have new: "binary_path H sw \<notin> {systemd_path H sw}" for sw by (simp add: binary_is_not_the_unit)
  from sd.installed [OF assms(1) assms(2) [folded sel] assms(3) new assms(4)]
  obtain sw where "sw \<longleftrightarrow> mode = SYSTEM \<or> mode = AUTO \<and> can_install_system_service H \<or> fst (systemd_user H w) = Inr False"
    "sw \<longrightarrow> mode = SYSTEM \<or> can_install_system_service H"
    "data_of (wo_fs w') (systemd_path H sw) = Some (systemd_generate H sw)"
    "\<exists>f. wo_fs w (get_current_binary_path H) = Some f \<and> wo_fs w' (binary_path H sw) = Some (f\<lparr>f_mode := 493\<rparr>)"
    "\<forall>p. leaves H p \<longrightarrow> p \<notin> {systemd_path H sw} \<longrightarrow> p \<noteq> binary_path H sw \<longrightarrow> wo_fs w' p = wo_fs w p"
    unfolding sel by blast
  then show ?thesis
    by (intro exI [of _ sw]) (auto simp: systemd_generate_def Let_def SERVICE_DESCRIPTION_def)
qed

theorem service_install_complete_witness:
  "\<exists>sw f. wo_fs (snd (install_service demo_host (systemd_impl demo_host) SYSTEM demo_world)) (binary_path demo_host sw) = Some f \<and>
     f_mode f = 493"
  using service_install_complete [OF demo_install demo_leaves demo_leaves demo_leaves] demo_install by fastforce

text \<open>
  C15. Uninstalling undoes an installation on systemd. Of an installation that succeeded, in the
  scope that belongs to the user of the process (asked for by root, by a user for himself, or
  left to the installer), binary and unit are at the places of that scope; after \<open>uninstall\<close> by
  the same user has reported success both are gone, the status query of the scope answers
  \<open>NOT_INSTALLED\<close>, and every other file, those of the other scope included, is as it was before
  the installation. (Root may also install in the user scope; uninstalling does not look there.)
\<close>
theorem uninstall_undoes_install:
  assumes "install_service H (systemd_impl H) mode w = (Inr True, w1)"
    and "uninstall_service H (systemd_impl H) w1 = (Inr True, w2)"
    and "\<And>sw. leaves H (systemd_path H sw)" "\<And>sw. leaves H (binary_path H sw)" "leaves H (get_current_binary_path H)"
    and "\<not> ho_dir H (systemd_path H sw)"
    and "sw = se_euid_root (ho_session H)" and "se_uid_root (ho_session H) = se_euid_root (ho_session H)"
    and "mode = AUTO \<or> mode = (if sw then SYSTEM else USER)"
  shows "data_of (wo_fs w1) (systemd_path H sw) = Some (systemd_generate H sw) \<and>
    (\<exists>f. wo_fs w (get_current_binary_path H) = Some f \<and> wo_fs w1 (binary_path H sw) = Some (f\<lparr>f_mode := 493\<rparr>)) \<and>
    wo_fs w2 (systemd_path H sw) = None \<and> wo_fs w2 (binary_path H sw) = None \<and>
    fst (check_service_status (systemd_impl H) sw w2) = Inr NOT_INSTALLED \<and>
    (\<forall>p. leaves H p \<longrightarrow> p \<noteq> systemd_path H sw \<longrightarrow> p \<noteq> binary_path H sw \<longrightarrow> wo_fs w2 p = wo_fs w p)"
proof -
  have sel: "im_path (systemd_impl H) = systemd_path H" "im_generate (systemd_impl H) = systemd_generate H"
    by (simp_all add: systemd_impl_def)
  have new: "binary_path H s \<notin> {systemd_path H s}" for s by (simp add: binary_is_not_the_unit)
  have root: "can_install_system_service H = sw"
    using assms(7,8) by (simp add: can_install_system_service_def is_running_as_root_def)
  from sd.installed [OF assms(1) assms(3) [folded sel] assms(4) new assms(5)] obtain s where
    s: "s \<longleftrightarrow> mode = SYSTEM \<or> mode = AUTO \<and> sw \<or> fst (im_user (systemd_impl H) w) = Inr False"
      "s \<longrightarrow> mode = SYSTEM \<or> sw" and
    in1: "data_of (wo_fs w1) (systemd_path H s) = Some (systemd_generate H s)"
      "\<exists>f. wo_fs w (get_current_binary_path H) = Some f \<and> wo_fs w1 (binary_path H s) = Some (f\<lparr>f_mode := 493\<rparr>)"
      "\<forall>p. leaves H p \<longrightarrow> p \<notin> {systemd_path H s} \<longrightarrow> p \<noteq> binary_path H s \<longrightarrow> wo_fs w1 p = wo_fs w p"
    unfolding sel root by blast
  have "s = sw" using s assms(9) by (auto split: if_splits)
  note in1 = in1 [unfolded this]
  have gone: "wo_fs w2 (systemd_path H sw) = None \<and> wo_fs w2 (binary_path H sw) = None"
    using sd.uninstalled [OF assms(2,7)] assms(3) by (simp add: sel binary_is_not_the_unit)
  have "wo_fs w2 p = wo_fs w p" if p: "leaves H p" "p \<noteq> systemd_path H sw" "p \<noteq> binary_path H sw" for p
  proof -
    have "wo_fs w2 p = wo_fs w1 p"
      using p assms(7) by (intro keeps_fileD [OF sd.uninstall_others assms(2)]) auto
    with in1(3) p show ?thesis by simp
  qed
  moreover have "fst (check_service_status (systemd_impl H) sw w2) = Inr NOT_INSTALLED"
    using sd.status_after_uninstall [of w2 H sw] gone assms(6) by (simp add: sel)
  ultimately show ?thesis using gone in1(1,2) by blast
qed

theorem uninstall_undoes_install_witness:
  "\<exists>w1 w2. uninstall_service demo_host (systemd_impl demo_host) w1 = (Inr True, w2) \<and>
     fst (check_service_status (systemd_impl demo_host) True w2) = Inr NOT_INSTALLED"
proof -
  define w1 where "w1 = snd (install_service demo_host (systemd_impl demo_host) SYSTEM demo_world)"
  have fs1: "wo_fs w1 = put_bytes ''/etc/systemd/system/thinr-agent.service'' (systemd_generate demo_host True)
        ((wo_fs demo_world)(''/usr/local/bin/thinr-agent'' \<mapsto> \<lparr>f_data = ''ELF'', f_mode = 493\<rparr>))"
    by (simp add: w1_def demo_install)
  have un: "uninstall_service demo_host (systemd_impl demo_host) w1 =
      (Inr True, w1\<lparr>wo_fs := fremove ''/usr/local/bin/thinr-agent'' (fremove ''/etc/systemd/system/thinr-agent.service'' (wo_fs w1))\<rparr>)"
    by (simp add: fs1 uninstall_service_def acatch_def abind_def aret_def systemd_impl_def systemd_uninstall_def
        file_there_def hexists_def fexists_def remove_file_def execute_system_command_def demo_paths put_bytes_def Let_def fremove_def demo_host_simps)
  have root: "True = se_euid_root (ho_session demo_host)" "se_uid_root (ho_session demo_host) = se_euid_root (ho_session demo_host)"
    by (simp_all add: demo_host_def)
  have nodir: "\<not> ho_dir demo_host (systemd_path demo_host True)" by (simp add: demo_host_simps demo_paths)
  from demo_install have i: "install_service demo_host (systemd_impl demo_host) SYSTEM demo_world = (Inr True, w1)" by (simp add: w1_def)
  have "SYSTEM = AUTO \<or> SYSTEM = (if True then SYSTEM else USER)" by simp
  from uninstall_undoes_install [OF i un demo_leaves demo_leaves demo_leaves nodir root this] un show ?thesis by blast
qed

end
