(* ===== verification/Sysv.thy ===== *)
theory Sysv
  imports Init_Systems
begin

text \<open>
  SysV init, procd (OpenWrt) and the rc.conf variant
  (\<open>src/thinr/installer/init_systems/sysv_service_installer.cpp\<close>). A symbolic link is a file
  whose data is its target and whose mode is that of a link; \<open>exists\<close> follows it.
\<close>

section \<open>Files and links\<close>

definition link_mode :: nat where "link_mode = 41471"

definition lexists :: "'w host \<Rightarrow> string \<Rightarrow> ('w world, bool) act" where
  "lexists H p = (\<lambda>w. (Inr (case wo_fs w p of
       Some f \<Rightarrow> if f_mode f = link_mode then hexists H (f_data f) w else True
     | None \<Rightarrow> ho_dir H p), w))"

definition create_symlink :: "'w host \<Rightarrow> string \<Rightarrow> string \<Rightarrow> ('w world, unit) act" where
  "create_symlink H target link = (\<lambda>w.
     if hexists H link w \<or> \<not> ho_open H link then (Inl (FilesystemError link), w)
     else (Inr (), w\<lparr>wo_fs := (wo_fs w)(link \<mapsto> \<lparr>f_data = target, f_mode = link_mode\<rparr>)\<rparr>))"

definition make_executable :: "string \<Rightarrow> ('w world, unit) act" where
  "make_executable p = (\<lambda>w. case wo_fs w p of
     None \<Rightarrow> (Inl (FilesystemError p), w)
   | Some f \<Rightarrow> (Inr (), w\<lparr>wo_fs := (wo_fs w)(p \<mapsto> f\<lparr>f_mode := 493\<rparr>)\<rparr>))"

text \<open>The lines an input stream on a file delivers; none when it does not open.\<close>

definition read_lines :: "string \<Rightarrow> ('w world, string list) act" where
  "read_lines p = (\<lambda>w. (Inr (case data_of (wo_fs w) p of None \<Rightarrow> [] | Some s \<Rightarrow> getlines s), w))"

section \<open>Where the script lives\<close>

definition is_procd :: "'w host \<Rightarrow> bool" where
  "is_procd H \<longleftrightarrow> ho_dir H ''/sbin/procd'' \<and> ho_dir H ''/etc/rc.common''"

definition sysv_path :: "'w host \<Rightarrow> bool \<Rightarrow> string" where
  "sysv_path H system_wide =
     (if is_procd H then ''/etc/init.d/'' @ get_service_identifier
      else if ho_dir H ''/etc/init.d/'' then ''/etc/init.d/'' @ get_service_identifier
      else if ho_dir H ''/etc/rc.d/init.d/'' then ''/etc/rc.d/init.d/'' @ get_service_identifier
      else ''/etc/init.d/'' @ get_service_identifier)"

section \<open>rc.conf\<close>

text \<open>One service name added at the end of the list, or its first occurrence cut out with the spaces around.\<close>

definition edit_services :: "string \<Rightarrow> bool \<Rightarrow> string \<Rightarrow> string option" where
  "edit_services service enable services =
     (case find_sub service services of
        None \<Rightarrow> if enable then Some (services @ '' '' @ service) else None
      | Some service_pos \<Rightarrow>
          if enable then None
          else let start = (if 0 < service_pos \<and> services ! (service_pos - 1) = CHR '' '' then service_pos - 1 else service_pos);
                   e = service_pos + length service;
                   stop = (if e < length services \<and> services ! e = CHR '' '' then e + 1 else e)
               in Some (take start services @ drop stop services))"

definition edit_line :: "string \<Rightarrow> bool \<Rightarrow> string \<Rightarrow> string \<times> bool" where
  "edit_line service enable line =
     (if starts_with ''cfg_services='' line then
        case (find_first (\<lambda>c. c = CHR 0x22) line, find_last (\<lambda>c. c = CHR 0x22) line) of
          (Some quote_start, Some quote_end) \<Rightarrow>
            if quote_start < quote_end then
              case edit_services service enable (substr line (quote_start + 1) (quote_end - quote_start - 1)) of
                Some services \<Rightarrow> (''cfg_services=\"'' @ services @ ''\"'', True)
              | None \<Rightarrow> (line, False)
            else (line, False)
        | _ \<Rightarrow> (line, False)
      else (line, False))"

definition rc_conf :: string where "rc_conf = ''/etc/rc.d/rc.conf''"
definition rc_conf_bak :: string where "rc_conf_bak = ''/etc/rc.d/rc.conf.bak''"

text \<open>The result of writing the new file is not looked at.\<close>

definition modify_rc_conf :: "'w host \<Rightarrow> string \<Rightarrow> bool \<Rightarrow> ('w world, bool) act" where
  "modify_rc_conf H service enable =
     acatch
       (abind (read_lines rc_conf) (\<lambda>ls.
        let edited = map (edit_line service enable) ls in
        if list_ex snd edited then
          abind (copy_file H rc_conf rc_conf_bak) (\<lambda>_.
          abind (write_text H rc_conf (lines_text (map fst edited))) (\<lambda>_. aret True))
        else aret False))
       (\<lambda>e. aret False)"

section \<open>Runlevels\<close>

definition start_link :: "string \<Rightarrow> string \<Rightarrow> string" where "start_link dir service = dir @ ''S90'' @ service"
definition stop_link :: "string \<Rightarrow> string \<Rightarrow> string" where "stop_link dir service = dir @ ''K10'' @ service"
definition rc_dir :: "string \<Rightarrow> string" where "rc_dir runlevel = ''/etc/rc'' @ runlevel @ ''.d/''"

definition single_rc_dir :: "'w host \<Rightarrow> bool" where
  "single_rc_dir H \<longleftrightarrow> ho_dir H ''/etc/rc.d/'' \<and> \<not> ho_dir H ''/etc/rc2.d/''"

definition remove_if_there :: "'w host \<Rightarrow> string \<Rightarrow> ('w world, unit) act" where
  "remove_if_there H p = abind (lexists H p) (\<lambda>there. if there then remove_file H p else aret ())"

definition enable_single :: "'w host \<Rightarrow> string \<Rightarrow> ('w world, bool) act" where
  "enable_single H service =
     acatch
       (abind (remove_if_there H (start_link ''/etc/rc.d/'' service)) (\<lambda>_.
        abind (remove_if_there H (stop_link ''/etc/rc.d/'' service)) (\<lambda>_.
        abind (create_symlink H (sysv_path H True) (start_link ''/etc/rc.d/'' service)) (\<lambda>_.
        abind (create_symlink H (sysv_path H True) (stop_link ''/etc/rc.d/'' service)) (\<lambda>_.
          aret True)))))
       (\<lambda>e. aret False)"

definition enable_manually :: "'w host \<Rightarrow> string \<Rightarrow> ('w world, bool) act" where
  "enable_manually H service =
     (if \<not> list_ex (\<lambda>l. ho_dir H (rc_dir l)) [''2'', ''3'', ''4'', ''5''] then aret True
      else
        abind (afor (\<lambda>l. if ho_dir H (rc_dir l) then create_symlink H (sysv_path H True) (start_link (rc_dir l) service) else aret ())
                 [''2'', ''3'', ''4'', ''5'']) (\<lambda>_.
        abind (afor (\<lambda>l. if ho_dir H (rc_dir l) then create_symlink H (sysv_path H True) (stop_link (rc_dir l) service) else aret ())
                 [''0'', ''1'', ''6'']) (\<lambda>_. aret True)))"

definition enable_by_hand :: "'w host \<Rightarrow> string \<Rightarrow> ('w world, bool) act" where
  "enable_by_hand H service =
     (if is_procd H then execute_system_command H (''/etc/init.d/'' @ service @ '' enable'')
      else if single_rc_dir H then enable_single H service
      else enable_manually H service)"

definition enable_service_runlevels :: "'w host \<Rightarrow> string \<Rightarrow> ('w world, bool) act" where
  "enable_service_runlevels H service =
     abind (if ho_dir H ''/usr/sbin/update-rc.d''
            then execute_system_command H (''update-rc.d '' @ service @ '' defaults >/dev/null 2>&1'') else aret False) (\<lambda>enabled.
     if enabled then aret True else
     abind (if ho_dir H ''/sbin/chkconfig''
            then execute_system_command H (''chkconfig --add '' @ service @ '' && chkconfig '' @ service @ '' on'') else aret False) (\<lambda>enabled.
     if enabled then aret True else
     abind (file_there H rc_conf) (\<lambda>there.
     abind (if there then modify_rc_conf H service True else aret False) (\<lambda>enabled.
     if enabled then aret True else enable_by_hand H service))))"

definition remove_runlevel_symlinks :: "'w host \<Rightarrow> string \<Rightarrow> ('w world, unit) act" where
  "remove_runlevel_symlinks H service = (\<lambda>w.
     case ho_list H ''/etc'' w of
       None \<Rightarrow> (Inl (FilesystemError ''/etc''), w)
     | Some entries \<Rightarrow>
         afor (\<lambda>d.
           if ho_dir H (''/etc/'' @ d) \<and> starts_with ''rc'' d \<and> contains_sub ''.d'' d then
             (\<lambda>w. case ho_list H (''/etc/'' @ d) w of
                None \<Rightarrow> (Inl (FilesystemError d), w)
              | Some names \<Rightarrow>
                  afor (\<lambda>n. \<lambda>w. case wo_fs w (''/etc/'' @ d @ ''/'' @ n) of
                      Some f \<Rightarrow>
                        if f_mode f = link_mode \<and> contains_sub service n
                        then acatch (remove_file H (''/etc/'' @ d @ ''/'' @ n)) (\<lambda>e. aret ()) w else (Inr (), w)
                    | None \<Rightarrow> (Inr (), w)) names w)
           else aret ()) entries w)"

definition disable_step :: "'w host \<Rightarrow> string \<Rightarrow> bool \<Rightarrow> ('w world, unit) act" where
  "disable_step H service rc =
     (if rc then abind (modify_rc_conf H service False) (\<lambda>_. aret ())
      else if is_procd H then abind (execute_system_command H (''/etc/init.d/'' @ service @ '' disable'')) (\<lambda>_. aret ())
      else if single_rc_dir H then
        abind (lexists H (start_link ''/etc/rc.d/'' service)) (\<lambda>there.
        abind (if there then acatch (remove_file H (start_link ''/etc/rc.d/'' service)) (\<lambda>e. aret ()) else aret ()) (\<lambda>_.
        abind (lexists H (stop_link ''/etc/rc.d/'' service)) (\<lambda>there.
          if there then acatch (remove_file H (stop_link ''/etc/rc.d/'' service)) (\<lambda>e. aret ()) else aret ())))
      else if ho_dir H ''/usr/sbin/update-rc.d'' then
        abind (execute_system_command H (''update-rc.d -f '' @ service @ '' remove >/dev/null 2>&1'')) (\<lambda>_. aret ())
      else if ho_dir H ''/sbin/chkconfig'' then
        abind (execute_system_command H (''chkconfig --del '' @ service @ '' >/dev/null 2>&1'')) (\<lambda>_. aret ())
      else remove_runlevel_symlinks H service)"

definition disable_service_runlevels :: "'w host \<Rightarrow> string \<Rightarrow> ('w world, bool) act" where
  "disable_service_runlevels H service =
     abind (file_there H rc_conf) (\<lambda>rc.
     abind (disable_step H service rc) (\<lambda>_.
     if ho_dir H ''/usr/sbin/update-rc.d'' then
       abind (execute_system_command H (''update-rc.d '' @ service @ '' disable >/dev/null 2>&1'')) (\<lambda>_. aret True)
     else if ho_dir H ''/sbin/chkconfig'' then
       abind (execute_system_command H (''chkconfig '' @ service @ '' off'')) (\<lambda>_. aret True)
     else aret True))"

definition kill_process_from_pid_file :: "'w host \<Rightarrow> string \<Rightarrow> ('w world, bool) act" where
  "kill_process_from_pid_file H pid_file =
     acatch
       (abind (read_lines pid_file) (\<lambda>ls.
        abind (case ls of
                 [] \<Rightarrow> aret ()
               | pid # _ \<Rightarrow>
                   abind (execute_system_command H (''kill -0 '' @ pid @ '' 2>/dev/null'')) (\<lambda>alive.
                   if alive then abind (execute_system_command H (''kill -9 '' @ pid @ '' 2>/dev/null'')) (\<lambda>_. aret ())
                   else aret ())) (\<lambda>_.
        abind (remove_file H pid_file) (\<lambda>_. aret True))))
       (\<lambda>e. aret False)"

section \<open>The operations of the installer\<close>

definition procd_script :: "'w host \<Rightarrow> bool \<Rightarrow> string" where
  "procd_script H system_wide =
     lines_text [
      ''#!/bin/sh /etc/rc.common'',
      ''# ThinRemote Agent service'',
      [],
      ''START=90'',
      ''STOP=10'',
      [],
      ''USE_PROCD=1'',
      ''PROG='' @ binary_path H system_wide,
      [],
      ''start_service() {'',
      ''    procd_open_instance'',
      ''    procd_set_param command $PROG'',
      ''    procd_set_param respawn'',
      ''    procd_set_param stdout 1'',
      ''    procd_set_param stderr 1'',
      ''    procd_set_param pidfile /var/run/'' @ get_service_identifier @ ''.pid'',
      ''    procd_close_instance'',
      ''}'',
      [],
      ''stop_service() {'',
      ''    # Don't use killall as it would kill the uninstaller too'',
      ''    local pid_file=\"/var/run/'' @ get_service_identifier @ ''.pid\"'',
      ''    if [ -f \"$pid_file\" ]; then'',
      ''        local pid=$(cat \"$pid_file\")'',
      ''        if [ -n \"$pid\" ] && kill -0 \"$pid\" 2>/dev/null; then'',
      ''            kill \"$pid\"'',
      ''        fi'',
      ''        rm -f \"$pid_file\"'',
      ''    fi'',
      ''}'',
      [],
      ''restart() {'',
      ''    stop'',
      ''    start'',
      ''}'',
      [],
      ''stop() {'',
      ''    # Check if we're being called from our own uninstaller'',
      ''    local caller_pid=$PPID'',
      ''    local caller_name=$(cat /proc/$caller_pid/comm 2>/dev/null || ps -o comm= -p $caller_pid 2>/dev/null)'',
      ''    '',
      ''    if [ \"$caller_name\" = \"thinr-agent\" ]; then'',
      ''        # Called from thinr-agent, use PID-based stop'',
      ''        stop_service'',
      ''        return $?'',
      ''    else'',
      ''        # Normal stop using procd'',
      ''        rc_procd stop_service \"$@\"'',
      ''        return $?'',
      ''    fi'',
      ''}'']"

definition standard_script :: "'w host \<Rightarrow> bool \<Rightarrow> string" where
  "standard_script H system_wide =
     lines_text [
      ''#!/bin/sh'',
      [],
      ''DAEMON='' @ binary_path H system_wide,
      ''NAME=thinr-agent'',
      ''PIDFILE=/var/run/$NAME.pid'',
      ''LOGFILE=/var/log/$NAME.log'',
      [],
      ''if [ ! -x \"$DAEMON\" ]; then'',
      ''    echo \"$DAEMON not found\"'',
      ''    exit 0'',
      ''fi'',
      [],
      ''mkdir -p /var/log'',
      ''mkdir -p /var/run'',
      [],
      ''start() {'',
      ''    echo -n \"Starting $NAME: \"'',
      ''    # Check if already running'',
      ''    if [ -f $PIDFILE ]; then'',
      ''        PID=$(cat $PIDFILE)'',
      ''        if kill -0 $PID 2>/dev/null; then'',
      ''            echo \"already running (PID $PID)\"'',
      ''            return 1'',
      ''        else'',
      ''            # Stale PID file'',
      ''            rm -f $PIDFILE'',
      ''        fi'',
      ''    fi'',
      ''    # Start daemon in background'',
      ''    $DAEMON >> $LOGFILE 2>&1 &'',
      ''    PID=$!'',
      ''    if [ -n \"$PID\" ]; then'',
      ''        echo $PID > $PIDFILE'',
      ''        echo \"OK\"'',
      ''        return 0'',
      ''    else'',
      ''        echo \"FAILED\"'',
      ''        return 1'',
      ''    fi'',
      ''}'',
      [],
      ''stop() {'',
      ''    echo -n \"Stopping $NAME: \"'',
      ''    if [ -f $PIDFILE ]; then'',
      ''        PID=$(cat $PIDFILE)'',
      ''        # First try graceful termination (SIGTERM)'',
      ''        if kill $PID 2>/dev/null; then'',
      ''            # Wait up to 10 seconds for process to terminate'',
      ''            TIMEOUT=10'',
      ''            while [ $TIMEOUT -gt 0 ]; do'',
      ''                if ! kill -0 $PID 2>/dev/null; then'',
      ''                    # Process terminated'',
      ''                    rm -f $PIDFILE'',
      ''                    echo \"OK\"'',
      ''                    return 0'',
      ''                fi'',
      ''                sleep 1'',
      ''                TIMEOUT=$((TIMEOUT - 1))'',
      ''            done'',
      ''            # Process still running, force kill (SIGKILL)'',
      ''            echo -n \"(force) \"'',
      ''            kill -9 $PID 2>/dev/null'',
      ''            sleep 1'',
      ''            rm -f $PIDFILE'',
      ''            echo \"OK\"'',
      ''        else'',
      ''            echo \"not running\"'',
      ''            rm -f $PIDFILE'',
      ''        fi'',
      ''    else'',
      ''        echo \"not running\"'',
      ''    fi'',
      ''    return 0'',
      ''}'',
      [],
      ''status() {'',
      ''    if [ -f $PIDFILE ]; then'',
      ''        PID=$(cat $PIDFILE)'',
      ''        if kill -0 $PID 2>/dev/null; then'',
      ''            echo \"$NAME is running (PID $PID)\"'',
      ''            return 0'',
      ''        else'',
      ''            echo \"$NAME is not running (stale PID file)\"'',
      ''            rm -f $PIDFILE'',
      ''            return 1'',
      ''        fi'',
      ''    else'',
      ''        echo \"$NAME is not running\"'',
      ''        return 3'',
      ''    fi'',
      ''}'',
      [],
      ''case \"$1\" in'',
      ''    start)'',
      ''        start'',
      ''        exit $?'',
      ''        ;;'',
      ''    stop)'',
      ''        stop'',
      ''        exit $?'',
      ''        ;;'',
      ''    restart)'',
      ''        stop'',
      ''        sleep 1'',
      ''        start'',
      ''        exit $?'',
      ''        ;;'',
      ''    status)'',
      ''        status'',
      ''        exit $?'',
      ''        ;;'',
      ''    *)'',
      ''        echo \"Usage: $0 {start|stop|restart|status}\"'',
      ''        exit 1'',
      ''        ;;'',
      ''esac'']"

definition sysv_generate :: "'w host \<Rightarrow> bool \<Rightarrow> string" where
  "sysv_generate H system_wide = (if is_procd H then procd_script H system_wide else standard_script H system_wide)"

definition pid_file :: string where "pid_file = ''/var/run/'' @ get_service_identifier @ ''.pid''"
definition log_file :: string where "log_file = ''/var/log/'' @ get_service_identifier @ ''.log''"

definition sysv_install :: "'w host \<Rightarrow> bool \<Rightarrow> ('w world, bool) act" where
  "sysv_install H system_wide =
     acatch
       (if \<not> system_wide \<or> \<not> is_running_as_root H then aret False else
        abind (write_text H (sysv_path H system_wide) (sysv_generate H system_wide)) (\<lambda>written.
        if \<not> written then aret False else
        abind (make_executable (sysv_path H system_wide)) (\<lambda>_.
          enable_service_runlevels H get_service_identifier)))
       (\<lambda>e. aret False)"

text \<open>Leftovers are removed when they are there; failing to is only logged.\<close>

definition clean_up :: "'w host \<Rightarrow> string \<Rightarrow> ('w world, unit) act" where
  "clean_up H p = abind (file_there H p) (\<lambda>there.
     if there then acatch (remove_file H p) (\<lambda>e. aret ()) else aret ())"

definition sysv_uninstall :: "'w host \<Rightarrow> bool \<Rightarrow> ('w world, bool) act" where
  "sysv_uninstall H system_wide =
     (if \<not> system_wide then aret False else
      abind (disable_service_runlevels H get_service_identifier) (\<lambda>_.
      abind (file_there H (sysv_path H system_wide)) (\<lambda>there.
      abind (if there then acatch (abind (remove_file H (sysv_path H system_wide)) (\<lambda>_. aret True)) (\<lambda>e. aret False)
             else aret True) (\<lambda>removed.
      if \<not> removed then aret False else
      abind (clean_up H pid_file) (\<lambda>_.
      abind (clean_up H log_file) (\<lambda>_. aret True))))))"

definition sysv_command :: "'w host \<Rightarrow> string \<Rightarrow> ('w world, bool) act" where
  "sysv_command H verb =
     abind (file_there H (sysv_path H True)) (\<lambda>there.
     if \<not> there then aret False else
     abind (execute_system_command H (sysv_path H True @ '' '' @ verb)) (\<lambda>ok.
     if ok then aret True
     else if ho_dir H ''/usr/sbin/service''
     then execute_system_command H (''service '' @ get_service_identifier @ '' '' @ verb)
     else aret False))"

definition sysv_start :: "'w host \<Rightarrow> ('w world, bool) act" where
  "sysv_start H = sysv_command H ''start''"

definition sysv_stop :: "'w host \<Rightarrow> ('w world, bool) act" where
  "sysv_stop H = sysv_command H ''stop''"

definition pid_alive :: "'w host \<Rightarrow> ('w world, bool) act" where
  "pid_alive H =
     abind (read_lines pid_file) (\<lambda>ls. case ls of
       [] \<Rightarrow> aret False
     | pid # _ \<Rightarrow> if pid = [] then aret False else execute_system_command H (''kill -0 '' @ pid @ '' 2>/dev/null''))"

definition sysv_status :: "'w host \<Rightarrow> bool \<Rightarrow> ('w world, service_status) act" where
  "sysv_status H system_wide =
     abind (file_there H (sysv_path H system_wide)) (\<lambda>there.
     if \<not> there then aret NOT_INSTALLED else
     abind (file_there H pid_file) (\<lambda>has_pid.
     abind (if has_pid then pid_alive H else aret False) (\<lambda>alive.
     if alive then aret INSTALLED_RUNNING else
     abind (execute_system_command H (''pgrep -f '' @ get_service_identifier @ '' >/dev/null 2>&1'')) (\<lambda>found.
       aret (if found then INSTALLED_RUNNING else INSTALLED_STOPPED)))))"

definition sysv_impl :: "'w host \<Rightarrow> 'w init_impl" where
  "sysv_impl H = \<lparr>im_name = ''SysV init'', im_path = sysv_path H, im_install = sysv_install H,
     im_uninstall = sysv_uninstall H, im_start = sysv_start H, im_stop = sysv_stop H,
     im_status = sysv_status H, im_generate = sysv_generate H, im_user = aret False\<rparr>"

section \<open>The contract, discharged\<close>

text \<open>
  The files the installer owns: the script, the pid and log file, rc.conf with its backup,
  and every name below \<open>/etc/rc\<close> that contains the service name.
\<close>

definition sysv_owned :: "'w host \<Rightarrow> string set" where
  "sysv_owned H = {sysv_path H True, pid_file, log_file, rc_conf, rc_conf_bak} \<union>
     {p. starts_with ''/etc/rc'' p \<and> contains_sub get_service_identifier p}"

lemma sysv_path_scope: "sysv_path H sw = sysv_path H True"
  by (simp add: sysv_path_def)

lemma sysv_path_owned: "sysv_path H sw \<in> sysv_owned H"
  unfolding sysv_path_scope [of H sw] by (simp add: sysv_owned_def)

lemma keeps_file_lexists [keeps_file_intros]: "keeps_file p (lexists H q)"
  by (simp add: keeps_file_def lexists_def)

lemma keeps_file_read [keeps_file_intros]: "keeps_file p (read_lines q)"
  by (simp add: keeps_file_def read_lines_def)

lemma keeps_file_symlink [keeps_file_intros]: "p \<noteq> l \<Longrightarrow> keeps_file p (create_symlink H q l)"
  by (simp add: keeps_file_def create_symlink_def)

lemma keeps_file_executable [keeps_file_intros]: "p \<noteq> q \<Longrightarrow> keeps_file p (make_executable q)"
  by (simp add: keeps_file_def make_executable_def split: option.splits)

lemma keeps_file_list [keeps_file_intros]:
  "keeps_file p m \<Longrightarrow> (\<And>x xs. keeps_file p (f x xs)) \<Longrightarrow> keeps_file p (case l of [] \<Rightarrow> m | x # xs \<Rightarrow> f x xs)"
  by (cases l) simp_all

lemma keeps_file_clean [keeps_file_intros]: "p \<noteq> q \<Longrightarrow> keeps_file p (clean_up H q)"
  unfolding clean_up_def by (intro keeps_file_intros)

lemma keeps_file_remove_there [keeps_file_intros]: "p \<noteq> q \<Longrightarrow> keeps_file p (remove_if_there H q)"
  unfolding remove_if_there_def by (intro keeps_file_intros)

lemma keeps_file_rc_conf [keeps_file_intros]:
  "p \<noteq> rc_conf \<Longrightarrow> p \<noteq> rc_conf_bak \<Longrightarrow> keeps_file p (modify_rc_conf H service enable)"
  unfolding modify_rc_conf_def Let_def by (intro keeps_file_intros)

lemma link_names:
  assumes "\<not> (starts_with ''/etc/rc'' p \<and> contains_sub service p)"
  shows "p \<noteq> start_link ''/etc/rc.d/'' service" "p \<noteq> stop_link ''/etc/rc.d/'' service"
    "p \<noteq> start_link (rc_dir l) service" "p \<noteq> stop_link (rc_dir l) service"
    "starts_with ''rc'' d \<Longrightarrow> contains_sub service n \<Longrightarrow> p \<noteq> ''/etc/'' @ d @ ''/'' @ n"
proof -
  have c: "contains_sub service (u @ service)" for u unfolding contains_sub_iff by (metis append_Nil2)
  have "contains_sub service (''/etc/rc.d/'' @ ''S90'' @ service)" "contains_sub service (''/etc/rc.d/'' @ ''K10'' @ service)"
    "contains_sub service ((''/etc/rc'' @ l @ ''.d/'') @ ''S90'' @ service)" "contains_sub service ((''/etc/rc'' @ l @ ''.d/'') @ ''K10'' @ service)"
    using c by (metis append_assoc)+
  with assms show "p \<noteq> start_link ''/etc/rc.d/'' service" "p \<noteq> stop_link ''/etc/rc.d/'' service"
    "p \<noteq> start_link (rc_dir l) service" "p \<noteq> stop_link (rc_dir l) service"
    by (auto simp: start_link_def stop_link_def rc_dir_def starts_with_def)
next
  assume "starts_with ''rc'' d" "contains_sub service n"
  then have "starts_with ''/etc/rc'' (''/etc/'' @ d @ ''/'' @ n)" "contains_sub service (''/etc/'' @ d @ ''/'' @ n)"
    unfolding starts_with_iff contains_sub_iff by (auto) (metis append_assoc append_Cons)
  with assms show "p \<noteq> ''/etc/'' @ d @ ''/'' @ n" by blast
qed

lemma keeps_file_enable_at:
  assumes "leaves H p" "p \<noteq> rc_conf" "p \<noteq> rc_conf_bak"
    and "p \<noteq> start_link ''/etc/rc.d/'' service" "p \<noteq> stop_link ''/etc/rc.d/'' service"
    and "\<And>l. p \<noteq> start_link (rc_dir l) service" "\<And>l. p \<noteq> stop_link (rc_dir l) service"
  shows "keeps_file p (enable_service_runlevels H service)"
  unfolding enable_service_runlevels_def enable_by_hand_def enable_single_def enable_manually_def
  by (intro keeps_file_intros assms)

lemma keeps_file_enable [keeps_file_intros]:
  assumes "leaves H p" "p \<noteq> rc_conf" "p \<noteq> rc_conf_bak" "\<not> (starts_with ''/etc/rc'' p \<and> contains_sub service p)"
  shows "keeps_file p (enable_service_runlevels H service)"
  by (intro keeps_file_enable_at link_names assms)

lemma keeps_file_links [keeps_file_intros]:
  assumes "\<not> (starts_with ''/etc/rc'' p \<and> contains_sub service p)"
  shows "keeps_file p (remove_runlevel_symlinks H service)"
proof -
  have one: "keeps_file p (\<lambda>w. case wo_fs w (''/etc/'' @ d @ ''/'' @ n) of
      Some f \<Rightarrow> if f_mode f = link_mode \<and> contains_sub service n
        then acatch (remove_file H (''/etc/'' @ d @ ''/'' @ n)) (\<lambda>e. aret ()) w else (Inr (), w)
    | None \<Rightarrow> (Inr (), w))" (is "keeps_file p ?m") if "starts_with ''rc'' d" for d n
  proof -
    have "keeps_file p (acatch (remove_file H (''/etc/'' @ d @ ''/'' @ n)) (\<lambda>e. aret ()))" if "contains_sub service n"
      using link_names(5) [OF assms \<open>starts_with ''rc'' d\<close> that] by (intro keeps_file_intros)
    then show ?thesis unfolding keeps_file_def by (auto split: option.splits)
  qed
  have dir: "keeps_file p (\<lambda>w. case L w of None \<Rightarrow> (Inl e, w) | Some names \<Rightarrow> f names w)"
    if "\<And>names. keeps_file p (f names)" for L e and f :: "'b \<Rightarrow> ('a world, unit) act"
    using that unfolding keeps_file_def by (auto split: option.splits)
  show ?thesis
    unfolding remove_runlevel_symlinks_def
    by (intro dir keeps_file_afor) (auto intro!: dir keeps_file_afor one keeps_file_intros)
qed

lemma keeps_file_disable [keeps_file_intros]:
  assumes "leaves H p" "p \<noteq> rc_conf" "p \<noteq> rc_conf_bak" "\<not> (starts_with ''/etc/rc'' p \<and> contains_sub service p)"
  shows "keeps_file p (disable_service_runlevels H service)"
  unfolding disable_service_runlevels_def disable_step_def
  by (intro keeps_file_intros link_names assms)

lemma script_path_new:
  "sysv_path H sw \<noteq> rc_conf" "sysv_path H sw \<noteq> rc_conf_bak" "sysv_path H sw \<noteq> pid_file" "sysv_path H sw \<noteq> log_file"
  "sysv_path H sw \<noteq> start_link ''/etc/rc.d/'' get_service_identifier"
  "sysv_path H sw \<noteq> stop_link ''/etc/rc.d/'' get_service_identifier"
  "sysv_path H sw \<noteq> start_link (rc_dir l) get_service_identifier"
  "sysv_path H sw \<noteq> stop_link (rc_dir l) get_service_identifier"
  by (auto simp: sysv_path_def rc_conf_def rc_conf_bak_def pid_file_def log_file_def start_link_def stop_link_def
      rc_dir_def get_service_identifier_def SERVICE_NAME_def dest!: arg_cong [where f = rev])

lemma sysv_install_writes:
  assumes l: "leaves H (sysv_path H sw)" and run: "sysv_install H sw w = (Inr True, w')"
  shows "data_of (wo_fs w') (sysv_path H sw) = Some (sysv_generate H sw)"
proof -
  define rest where "rest = (abind (make_executable (sysv_path H sw)) (\<lambda>_. enable_service_runlevels H get_service_identifier)
     :: ('a world, bool) act)"
  have "abind (write_text H (sysv_path H sw) (sysv_generate H sw)) (\<lambda>written. if \<not> written then aret False else rest) w = (Inr True, w')"
    using run unfolding sysv_install_def rest_def
    by (auto simp: acatch_def aret_def split: sum.splits prod.splits if_splits)
  then obtain ok w1 where wr: "write_text H (sysv_path H sw) (sysv_generate H sw) w = (Inr ok, w1)"
    and "(if \<not> ok then aret False else rest) w1 = (Inr True, w')"
    by (cases rule: abind_cases) auto
  then have ok: ok and r: "rest w1 = (Inr True, w')" by (auto simp: aret_def split: if_splits)
  from wr ok have d: "data_of (wo_fs w1) (sysv_path H sw) = Some (sysv_generate H sw)" by (auto dest: write_text_written)
  from r obtain u w2 where x: "make_executable (sysv_path H sw) w1 = (Inr u, w2)"
    and e: "enable_service_runlevels H get_service_identifier w2 = (Inr True, w')"
    unfolding rest_def by (cases rule: abind_cases) auto
  have "keeps_file (sysv_path H sw) (enable_service_runlevels H get_service_identifier)"
    by (intro keeps_file_enable_at l script_path_new)
  with e have "wo_fs w' (sysv_path H sw) = wo_fs w2 (sysv_path H sw)" by (rule keeps_fileD [rotated])
  with d x show ?thesis by (auto simp: make_executable_def data_of_def split: option.splits)
qed

lemma sysv_uninstall_clears:
  assumes l: "leaves H (sysv_path H sw)" and run: "sysv_uninstall H sw w = (Inr True, w')"
  shows "wo_fs w' (sysv_path H sw) = None"
proof -
  let ?p = "sysv_path H sw"
  from run have "abind (disable_service_runlevels H get_service_identifier) (\<lambda>_.
      abind (file_there H ?p) (\<lambda>there.
      abind (if there then acatch (abind (remove_file H ?p) (\<lambda>_. aret True)) (\<lambda>e. aret False) else aret True) (\<lambda>removed.
      if \<not> removed then aret False else
      abind (clean_up H pid_file) (\<lambda>_. abind (clean_up H log_file) (\<lambda>_. aret True))))) w = (Inr True, w')"
    unfolding sysv_uninstall_def by (auto simp: aret_def split: if_splits)
  then obtain w1 there w2 where 1: "abind (if hexists H ?p w1 then acatch (abind (remove_file H ?p) (\<lambda>_. aret True)) (\<lambda>e. aret False) else aret True) (\<lambda>removed.
      if \<not> removed then aret False else abind (clean_up H pid_file) (\<lambda>_. abind (clean_up H log_file) (\<lambda>_. aret True))) w1 = (Inr True, w')"
    by (rule abind_ignored) (auto simp: abind_def file_there_def)
  then obtain removed w3 where 2: "(if hexists H ?p w1 then acatch (abind (remove_file H ?p) (\<lambda>_. aret True)) (\<lambda>e. aret False) else aret True) w1 = (Inr removed, w3)"
    and 3: "(if \<not> removed then aret False else abind (clean_up H pid_file) (\<lambda>_. abind (clean_up H log_file) (\<lambda>_. aret True))) w3 = (Inr True, w')"
    by (cases rule: abind_cases) auto
  from 3 have rem: removed by (auto simp: aret_def split: if_splits)
  with 2 have gone: "wo_fs w3 ?p = None"
    by (auto simp: acatch_def abind_def aret_def remove_file_def fremove_def hexists_def fexists_def split: if_splits)
  from 3 rem have "abind (clean_up H pid_file) (\<lambda>_. abind (clean_up H log_file) (\<lambda>_. aret True)) w3 = (Inr True, w')" by simp
  then have "wo_fs w' ?p = wo_fs w3 ?p"
    by (rule keeps_fileD [rotated]) (intro keeps_file_intros script_path_new)
  with gone show ?thesis by simp
qed

interpretation sv: init_system H "sysv_impl H" "\<lambda>sw. sysv_owned H" for H
proof
  fix p sw
  assume p: "leaves H p" "p \<notin> sysv_owned H"
  then have new: "p \<noteq> sysv_path H sw" "p \<noteq> pid_file" "p \<noteq> log_file" "p \<noteq> rc_conf" "p \<noteq> rc_conf_bak"
    "\<not> (starts_with ''/etc/rc'' p \<and> contains_sub get_service_identifier p)"
    by (auto simp: sysv_owned_def sysv_path_scope [of H sw])
  show "keeps_file p (im_install (sysv_impl H) sw)"
    unfolding sysv_impl_def sysv_install_def init_impl.simps by (intro keeps_file_intros p new)
  show "keeps_file p (im_uninstall (sysv_impl H) sw)"
    unfolding sysv_impl_def sysv_uninstall_def init_impl.simps by (intro keeps_file_intros p new)
next
  fix sw w
  have "fst (sysv_status H sw w) \<noteq> Inr NOT_INSTALLED" if "hexists H (sysv_path H sw) w"
  proof
    assume "fst (sysv_status H sw w) = Inr NOT_INSTALLED"
    then obtain w' where "sysv_status H sw w = (Inr NOT_INSTALLED, w')" by (cases "sysv_status H sw w") simp
    with that show False
      unfolding sysv_status_def by (auto simp: file_there_def aret_def execute_system_command_def elim!: abind_cases split: if_splits prod.splits)
  qed
  then show "fst (im_status (sysv_impl H) sw w) = Inr NOT_INSTALLED \<longleftrightarrow> \<not> hexists H (im_path (sysv_impl H) sw) w"
    by (auto simp: sysv_impl_def sysv_status_def abind_def file_there_def aret_def)
qed (auto simp: sysv_impl_def sysv_path_owned sysv_install_writes sysv_uninstall_clears intro: keeps_file_intros)

section \<open>Properties of the rc.conf edits\<close>

lemma find_sub_after_space:
  assumes "p \<noteq> []" and "CHR '' '' \<notin> set p" and "\<not> contains_sub p S"
  shows "find_sub p (S @ CHR '' '' # p) = Some (Suc (length S))"
  using assms(3)
proof (induction S)
  case Nil
  have "\<not> starts_with p (CHR '' '' # p)"
    using assms(1,2) unfolding starts_with_iff by (cases p) auto
  moreover have "find_sub p p = Some 0"
    using assms(1) by (cases p) (simp_all add: starts_with_def)
  ultimately show ?case by simp
next
  case (Cons c S)
  have "\<not> starts_with p (c # S @ CHR '' '' # p)"
  proof
    assume "starts_with p (c # S @ CHR '' '' # p)"
    then obtain t where t: "(c # S) @ CHR '' '' # p = p @ t" unfolding starts_with_iff by auto
    show False
    proof (cases "length p \<le> length (c # S)")
      case True
      have "take (length (c # S)) (p @ t) = c # S" unfolding t [symmetric] by simp
      then have "c # S = p @ take (length (c # S) - length p) t" using True by (simp only: take_append take_all)
      with Cons.prems show False unfolding contains_sub_iff by (metis append_Nil)
    next
      case False
      have "(p @ t) ! length (c # S) = CHR '' ''" unfolding t [symmetric] by (rule nth_append_length)
      with False have "p ! length (c # S) = CHR '' ''" by (simp only: nth_append not_le if_True)
      with False assms(2) show False by (metis linorder_not_less nth_mem)
    qed
  qed
  moreover have "\<not> contains_sub p S"
    using Cons.prems unfolding contains_sub_iff by (metis append_Cons)
  ultimately show ?case using Cons.IH by simp
qed

lemma edit_services_roundtrip:
  assumes "p \<noteq> []" and "CHR '' '' \<notin> set p" and "\<not> contains_sub p S"
  shows "edit_services p True S = Some (S @ '' '' @ p)" and "edit_services p False (S @ '' '' @ p) = Some S"
  using assms find_sub_after_space [OF assms]
  by (simp_all add: edit_services_def contains_sub_def Let_def nth_append)

lemma find_quotes:
  "find_first (\<lambda>c. c = CHR 0x22) (''cfg_services=\"'' @ S @ ''\"'') = Some 13"
  "find_last (\<lambda>c. c = CHR 0x22) (''cfg_services=\"'' @ S @ ''\"'') = Some (14 + length S)"
proof -
  have "find_last (\<lambda>c. c = CHR 0x22) (x @ ''\"'') = Some (length x)" for x by (induction x) auto
  from this [of "''cfg_services=\"'' @ S"] show "find_last (\<lambda>c. c = CHR 0x22) (''cfg_services=\"'' @ S @ ''\"'') = Some (14 + length S)"
    by simp
qed simp

lemma edit_line_services:
  "edit_line service enable (''cfg_services=\"'' @ S @ ''\"'') =
     (case edit_services service enable S of
        Some S' \<Rightarrow> (''cfg_services=\"'' @ S' @ ''\"'', True) | None \<Rightarrow> (''cfg_services=\"'' @ S @ ''\"'', False))"
  unfolding edit_line_def find_quotes by (simp add: substr_def starts_with_def split: option.splits)

lemma edit_line_other: "\<not> starts_with ''cfg_services='' l \<Longrightarrow> edit_line service enable l = (l, False)"
  by (simp add: edit_line_def)

lemma getlines_lines_text:
  assumes "\<forall>l\<in>set ls. CHR 0x0A \<notin> set l"
  shows "getlines (lines_text ls) = ls"
proof -
  have one: "split_on c (l @ c # r) = l # split_on c r" if "c \<notin> set l" for c l r
    using that by (induction l) auto
  have "split_on (CHR 0x0A) (lines_text ls) = ls @ [[]]"
    using assms by (induction ls) (simp_all add: lines_text_def one)
  then show ?thesis by (simp add: getlines_def)
qed

text \<open>One edit of a file that can be written.\<close>

lemma modify_rc_conf_run:
  assumes "wo_fs w rc_conf = Some f" and "f_data f = lines_text ls" and "\<forall>l\<in>set ls. CHR 0x0A \<notin> set l"
    and "list_ex (\<lambda>l. snd (edit_line service enable l)) ls"
    and "ho_copy H rc_conf_bak = CopyWhole" "ho_open H rc_conf" "ho_short H rc_conf = None"
  shows "modify_rc_conf H service enable w = (Inr True,
      w\<lparr>wo_fs := (wo_fs w)(rc_conf_bak \<mapsto> f, rc_conf \<mapsto> f\<lparr>f_data := lines_text (map (fst \<circ> edit_line service enable) ls)\<rparr>)\<rparr>)"
proof -
  have r: "read_lines rc_conf w = (Inr ls, w)"
    using assms by (simp add: read_lines_def data_of_def getlines_lines_text)
  have ne: "rc_conf \<noteq> rc_conf_bak" by (simp add: rc_conf_def rc_conf_bak_def)
  show ?thesis
    using assms ne
    by (cases f) (simp add: modify_rc_conf_def r acatch_def abind_def aret_def Let_def copy_file_def write_text_def put_bytes_def
        list_ex_iff o_def)
qed

text \<open>Cutting a name out from between two others joins them.\<close>

lemma removal_fuses_neighbours:
  "edit_services ''thinr-agent'' False ''sshd thinr-agent crond'' = Some ''sshdcrond''"
  by code_simp

text \<open>A longer name that contains the agent's counts as the agent; a comment after the list is lost.\<close>

lemma longer_name_blocks: "edit_services ''thinr-agent'' True ''old-thinr-agent2'' = None"
  by code_simp

lemma trailing_comment_lost:
  "fst (edit_line ''thinr-agent'' True ''cfg_services=\"sshd\" # keep'') = ''cfg_services=\"sshd thinr-agent\"''"
  by code_simp

text \<open>Links of an earlier installation make the manual enabling throw, so a second installation fails.\<close>

lemma links_in_place_throw:
  assumes "ho_dir H (rc_dir ''2'')" and "wo_fs w (start_link (rc_dir ''2'') service) \<noteq> None"
  shows "\<exists>e w'. enable_manually H service w = (Inl e, w')"
  using assms by (simp add: enable_manually_def abind_def create_symlink_def hexists_def fexists_def)

lemma services_line_edited:
  assumes "CHR 0x0A \<notin> set l"
    and "starts_with ''cfg_services='' l \<Longrightarrow>
      \<exists>S. l = ''cfg_services=\"'' @ S @ ''\"'' \<and> \<not> contains_sub get_service_identifier S"
  shows "fst (edit_line get_service_identifier True l) =
      (if starts_with ''cfg_services='' l then butlast l @ '' '' @ get_service_identifier @ ''\"'' else l) \<and>
    snd (edit_line get_service_identifier True l) = starts_with ''cfg_services='' l \<and>
    edit_line get_service_identifier False (fst (edit_line get_service_identifier True l)) = (l, starts_with ''cfg_services='' l) \<and>
    CHR 0x0A \<notin> set (fst (edit_line get_service_identifier True l))"
proof (cases "starts_with ''cfg_services='' l")
  case True
  have id: "get_service_identifier \<noteq> []" "CHR '' '' \<notin> set get_service_identifier" "CHR 0x0A \<notin> set get_service_identifier"
    by (simp_all add: get_service_identifier_def SERVICE_NAME_def)
  obtain S where S: "l = ''cfg_services=\"'' @ S @ ''\"''" "\<not> contains_sub get_service_identifier S" using assms(2) [OF True] by blast
  have 1: "edit_line get_service_identifier True l = (''cfg_services=\"'' @ (S @ '' '' @ get_service_identifier) @ ''\"'', True)"
    unfolding S(1) edit_line_services edit_services_roundtrip(1) [OF id(1,2) S(2)] by simp
  moreover have "edit_line get_service_identifier False (''cfg_services=\"'' @ (S @ '' '' @ get_service_identifier) @ ''\"'') = (l, True)"
    unfolding edit_line_services edit_services_roundtrip(2) [OF id(1,2) S(2)] S(1) by simp
  moreover have "CHR 0x0A \<notin> set S" using assms(1) S(1) by auto
  ultimately show ?thesis using True id(3) by (simp add: S(1) butlast_append)
next
  case False
  with assms(1) show ?thesis by (simp add: edit_line_other)
qed

text \<open>
  C36. On a machine configured through rc.conf, enabling the service and disabling it again
  restores the file: when every \<open>cfg_services\<close> line is a quoted list without the agent's name,
  both edits succeed, the first appends the name to each such list, keeps every other line
  and leaves the old file as the backup, and the second gives back the original text.
\<close>
theorem rc_conf_roundtrip:
  assumes "data_of (wo_fs w) rc_conf = Some (lines_text ls)"
    and "\<forall>l\<in>set ls. CHR 0x0A \<notin> set l"
    and "\<forall>l\<in>set ls. starts_with ''cfg_services='' l \<longrightarrow>
      (\<exists>S. l = ''cfg_services=\"'' @ S @ ''\"'' \<and> \<not> contains_sub get_service_identifier S)"
    and "\<exists>l\<in>set ls. starts_with ''cfg_services='' l"
    and "ho_copy H rc_conf_bak = CopyWhole" "ho_open H rc_conf" "ho_short H rc_conf = None"
  shows "\<exists>w1 w2. modify_rc_conf H get_service_identifier True w = (Inr True, w1) \<and>
    modify_rc_conf H get_service_identifier False w1 = (Inr True, w2) \<and>
    data_of (wo_fs w1) rc_conf = Some (lines_text (map (\<lambda>l. if starts_with ''cfg_services='' l
      then butlast l @ '' '' @ get_service_identifier @ ''\"'' else l) ls)) \<and>
    data_of (wo_fs w1) rc_conf_bak = Some (lines_text ls) \<and>
    data_of (wo_fs w2) rc_conf = Some (lines_text ls)"
proof -
  define on where "on = (\<lambda>l. fst (edit_line get_service_identifier True l))"
  have each: "on l = (if starts_with ''cfg_services='' l then butlast l @ '' '' @ get_service_identifier @ ''\"'' else l) \<and>
      snd (edit_line get_service_identifier True l) = starts_with ''cfg_services='' l \<and>
      edit_line get_service_identifier False (on l) = (l, starts_with ''cfg_services='' l) \<and> CHR 0x0A \<notin> set (on l)"
    if "l \<in> set ls" for l
    unfolding on_def by (rule services_line_edited) (use assms(2,3) that in blast)+
  obtain f where f: "wo_fs w rc_conf = Some f" "f_data f = lines_text ls" using assms(1) by (auto simp: data_of_def)
  define w1 where "w1 = w\<lparr>wo_fs := (wo_fs w)(rc_conf_bak \<mapsto> f,
      rc_conf \<mapsto> f\<lparr>f_data := lines_text (map (fst \<circ> edit_line get_service_identifier True) ls)\<rparr>)\<rparr>"
  have on_o: "fst \<circ> edit_line get_service_identifier True = on" by (auto simp: on_def)
  have "list_ex (\<lambda>l. snd (edit_line get_service_identifier True l)) ls" using assms(4) each by (auto simp: list_ex_iff)
  then have m1: "modify_rc_conf H get_service_identifier True w = (Inr True, w1)"
    unfolding w1_def using modify_rc_conf_run [OF f assms(2) _ assms(5,6,7)] by blast
  have f1: "wo_fs w1 rc_conf = Some (f\<lparr>f_data := lines_text (map on ls)\<rparr>)" by (simp add: w1_def on_o)
  have "\<forall>l\<in>set (map on ls). CHR 0x0A \<notin> set l" using each by (simp only: set_map ball_simps) blast
  moreover have "list_ex (\<lambda>l. snd (edit_line get_service_identifier False l)) (map on ls)"
  proof -
    from assms(4) obtain l where l: "l \<in> set ls" "starts_with ''cfg_services='' l" by blast
    have "edit_line get_service_identifier False (on l) = (l, starts_with ''cfg_services='' l)"
      using each [OF l(1)] by blast
    with l(2) have "snd (edit_line get_service_identifier False (on l))" by (simp only: snd_conv)
    with l(1) show ?thesis unfolding list_ex_iff set_map by blast
  qed
  moreover have "map (fst \<circ> edit_line get_service_identifier False) (map on ls) = ls"
    unfolding map_map o_def by (rule map_idI) (metis each fst_conv)
  ultimately obtain w2 where m2: "modify_rc_conf H get_service_identifier False w1 = (Inr True, w2)"
    and d2: "data_of (wo_fs w2) rc_conf = Some (lines_text ls)"
    using modify_rc_conf_run [OF f1, of "map on ls" get_service_identifier False H] assms(5,6,7) by (simp add: data_of_def)
  have on_ls: "map on ls = map (\<lambda>l. if starts_with ''cfg_services='' l then butlast l @ '' '' @ get_service_identifier @ ''\"'' else l) ls"
    by (rule map_cong [OF refl]) (rule conjunct1 [OF each])
  have "data_of (wo_fs w1) rc_conf_bak = Some (lines_text ls)"
    using f by (simp add: data_of_def w1_def rc_conf_def rc_conf_bak_def)
  moreover have "data_of (wo_fs w1) rc_conf = Some (lines_text (map on ls))" using f1 by (simp add: data_of_def)
  ultimately show ?thesis using m1 m2 d2 unfolding on_ls by blast
qed

definition rc_world :: "unit world" where
  "rc_world = \<lparr>wo_fs = [rc_conf \<mapsto> \<lparr>f_data = lines_text [''# services'', ''cfg_services=\"sshd\"''], f_mode = 420\<rparr>], wo_rest = ()\<rparr>"

theorem rc_conf_roundtrip_witness:
  "\<exists>w1 w2. modify_rc_conf demo_host get_service_identifier True rc_world = (Inr True, w1) \<and>
    modify_rc_conf demo_host get_service_identifier False w1 = (Inr True, w2) \<and>
    data_of (wo_fs w1) rc_conf = Some (lines_text [''# services'', ''cfg_services=\"sshd thinr-agent\"'']) \<and>
    data_of (wo_fs w2) rc_conf = Some (lines_text [''# services'', ''cfg_services=\"sshd\"''])"
proof -
  let ?ls = "[''# services'', ''cfg_services=\"'' @ ''sshd'' @ ''\"'']"
  have no: "\<not> contains_sub get_service_identifier ''sshd''" by code_simp
  have st: "starts_with ''cfg_services='' (''cfg_services=\"'' @ ''sshd'' @ ''\"'')" "\<not> starts_with ''cfg_services='' ''# services''"
    by (simp_all add: starts_with_def)
  have 1: "data_of (wo_fs rc_world) rc_conf = Some (lines_text ?ls)" by (simp add: rc_world_def data_of_def)
  have 2: "\<forall>l\<in>set ?ls. CHR 0x0A \<notin> set l" by simp
  have 3: "\<forall>l\<in>set ?ls. starts_with ''cfg_services='' l \<longrightarrow>
      (\<exists>S. l = ''cfg_services=\"'' @ S @ ''\"'' \<and> \<not> contains_sub get_service_identifier S)"
    using st no by (metis empty_iff insert_iff list.set)
  have 4: "\<exists>l\<in>set ?ls. starts_with ''cfg_services='' l" using st by simp
  from rc_conf_roundtrip [OF 1 2 3 4, of demo_host] st show ?thesis
    by (simp add: demo_host_simps get_service_identifier_def SERVICE_NAME_def starts_with_def) blast
qed

section \<open>The factory\<close>

definition create_installer :: "bool \<Rightarrow> bool \<Rightarrow> 'w host \<Rightarrow> 'w world \<Rightarrow> 'w init_impl res" where
  "create_installer on_android darwin H w =
     (if on_android then Inr android_impl else
      let init_system = detect_init_system darwin H w in
      if init_system = ''systemd'' then Inr (systemd_impl H)
      else if init_system = ''launchd'' then Inr (launchd_impl H)
      else if init_system = ''OpenRC'' then Inr openrc_impl
      else if init_system = ''SysV init'' then Inr (sysv_impl H)
      else if init_system = ''Upstart'' then Inr upstart_impl
      else Inl (RuntimeError (''Unsupported init system: '' @ init_system)))"

section \<open>All init systems\<close>

lemma binary_is_no_service_file: "binary_path H sw \<noteq> launchd_path H sw'" "binary_path H sw \<noteq> sysv_path H sw'"
  by (auto simp: binary_path_def launchd_path_def sysv_path_def get_binary_install_path_def get_launchd_plist_path_def
      BINARY_NAME_def get_service_identifier_def SERVICE_NAME_def split: option.splits if_splits dest!: arg_cong [where f = rev])

lemma uninstalled_any:
  assumes "I \<in> {systemd_impl H, launchd_impl H, sysv_impl H}" and "uninstall_service H I w = (Inr True, w')"
    and "sw = se_euid_root (ho_session H)" and "leaves H (im_path I sw)"
  shows "wo_fs w' (im_path I sw) = None \<and> wo_fs w' (binary_path H sw) = None"
proof -
  have sel: "im_path (systemd_impl H) = systemd_path H" "im_path (launchd_impl H) = launchd_path H" "im_path (sysv_impl H) = sysv_path H"
    by (simp_all add: systemd_impl_def launchd_impl_def sysv_impl_def)
  have new: "binary_path H sw \<noteq> im_path I sw"
    using assms(1) by (auto simp: sel binary_is_not_the_unit binary_is_no_service_file)
  show ?thesis
    using assms(1) sd.uninstalled [OF _ assms(3)] ld.uninstalled [OF _ assms(3)] sv.uninstalled [OF _ assms(3)] assms(2,4) new
    by auto
qed

text \<open>
  Whatever the init system (systemd, launchd or SysV with its variants), an uninstallation
  that reports success has removed the service file and the binary of its scope, and the status
  query that follows answers \<open>NOT_INSTALLED\<close>, as long as the system's own commands do not write
  the service file back.
\<close>
theorem uninstall_leaves_nothing:
  assumes "I \<in> {systemd_impl H, launchd_impl H, sysv_impl H}"
    and "uninstall_service H I w = (Inr True, w')"
    and "sw = se_euid_root (ho_session H)" and "leaves H (im_path I sw)" and "\<not> ho_dir H (im_path I sw)"
  shows "wo_fs w' (im_path I sw) = None \<and> wo_fs w' (binary_path H sw) = None \<and>
    fst (check_service_status I sw w') = Inr NOT_INSTALLED"
proof -
  from uninstalled_any [OF assms(1-4)] have "wo_fs w' (im_path I sw) = None \<and> wo_fs w' (binary_path H sw) = None" .
  moreover from this have "fst (check_service_status I sw w') = Inr NOT_INSTALLED"
    using assms(1) sd.status_after_uninstall [of w' H sw] ld.status_after_uninstall [of w' H sw]
      sv.status_after_uninstall [of w' H sw] assms(5) by auto
  ultimately show ?thesis by blast
qed

lemma demo_sysv: "sysv_path demo_host True = ''/etc/init.d/thinr-agent''"
  by (simp add: sysv_path_def is_procd_def demo_host_simps get_service_identifier_def SERVICE_NAME_def)

theorem uninstall_leaves_nothing_witness:
  "fst (check_service_status (sysv_impl demo_host) True (snd (uninstall_service demo_host (sysv_impl demo_host)
     \<lparr>wo_fs = [''/etc/init.d/thinr-agent'' \<mapsto> \<lparr>f_data = ''script'', f_mode = 493\<rparr>], wo_rest = ()\<rparr>))) = Inr NOT_INSTALLED"
proof -
  let ?w = "\<lparr>wo_fs = [''/etc/init.d/thinr-agent'' \<mapsto> \<lparr>f_data = ''script'', f_mode = 493\<rparr>], wo_rest = ()\<rparr> :: unit world"
  have dis: "disable_service_runlevels demo_host get_service_identifier ?w = (Inr True, ?w)"
    by (simp add: disable_service_runlevels_def disable_step_def remove_runlevel_symlinks_def is_procd_def single_rc_dir_def
        file_there_def hexists_def fexists_def demo_host_simps abind_def aret_def rc_conf_def)
  have paths: "pid_file = ''/var/run/thinr-agent.pid''" "log_file = ''/var/log/thinr-agent.log''"
    by (simp_all add: pid_file_def log_file_def get_service_identifier_def SERVICE_NAME_def)
  have clean: "clean_up demo_host p v = (Inr (), v)" if "wo_fs v p = None" "p \<noteq> ''/run/systemd/system''" for p v
    using that by (simp add: clean_up_def abind_def file_there_def hexists_def fexists_def aret_def demo_host_simps)
  let ?v = "?w\<lparr>wo_fs := fremove ''/etc/init.d/thinr-agent'' (wo_fs ?w)\<rparr>"
  have "sysv_uninstall demo_host True ?w = (Inr True, ?v)"
    unfolding sysv_uninstall_def
    by (simp add: abind_Inr dis file_there_def remove_file_def acatch_def demo_sysv demo_host_simps hexists_def fexists_def
        act_simps clean paths fremove_def)
  then have "uninstall_service demo_host (sysv_impl demo_host) ?w = (Inr True, ?v)"
    unfolding uninstall_service_def Let_def
    by (simp add: sysv_impl_def demo_host_simps demo_paths acatch_def abind_def file_there_def hexists_def fexists_def aret_def fremove_def)
  then obtain w' where un: "uninstall_service demo_host (sysv_impl demo_host) ?w = (Inr True, w')" by blast
  have "True = se_euid_root (ho_session demo_host)" "\<not> ho_dir demo_host (im_path (sysv_impl demo_host) True)"
    by (simp_all add: demo_host_simps sysv_impl_def demo_sysv)
  from uninstall_leaves_nothing [OF _ un this(1) demo_leaves this(2)] show ?thesis by (simp add: un)
qed

end
