(* ===== verification/System_Info.thy ===== *)
theory System_Info
  imports Sysv
begin

text \<open>
  How the agent describes the machine it runs on: \<open>src/thinr/utils/system_info.cpp\<close>, and the
  two functions of \<open>src/thinr/installer/interactive_setup.cpp\<close> that describe it to the user,
  \<open>detect_distribution\<close> and \<open>detect_init_system\<close>. The answers of \<open>uname\<close> and the text of
  the files that can be opened are a record.
\<close>

record os_view =
  ov_uname :: "(string \<times> string \<times> string) option"  \<comment> \<open>\<open>sysname\<close>, \<open>machine\<close>, \<open>release\<close>\<close>
  ov_text :: "string \<Rightarrow> string option"

definition OS_RELEASE :: string where "OS_RELEASE = ''/etc/os-release''"
definition VERSION_PLIST :: string where "VERSION_PLIST = ''/System/Library/CoreServices/SystemVersion.plist''"

section \<open>The pretty name of a distribution\<close>

text \<open>
  A single quotation mark is both first and last: \<open>substr(1, length - 2)\<close> then takes a count
  that has wrapped around, of an empty rest.
\<close>

definition unquote :: "string \<Rightarrow> string" where
  "unquote s = (if s \<noteq> [] \<and> hd s = CHR 0x22 \<and> last s = CHR 0x22 then substr s 1 (length s - 2) else s)"

fun pretty_name :: "string list \<Rightarrow> string option" where
  "pretty_name [] = None"
| "pretty_name (line # ls) =
     (if starts_with ''PRETTY_NAME='' line \<and> unquote (drop 12 line) \<noteq> [] then Some (unquote (drop 12 line))
      else pretty_name ls)"

definition os_release_name :: "os_view \<Rightarrow> string option" where
  "os_release_name E = (case ov_text E OS_RELEASE of None \<Rightarrow> None | Some t \<Rightarrow> pretty_name (getlines t))"

definition get_linux_description :: "os_view \<Rightarrow> string" where
  "get_linux_description E =
     (case os_release_name E of
        Some d \<Rightarrow> d
      | None \<Rightarrow> (case ov_uname E of Some (sysname, machine, release) \<Rightarrow> release | None \<Rightarrow> []))"

section \<open>The version of macOS\<close>

text \<open>
  The text between \<open><string>\<close> and \<open></string>\<close>; when the closing tag comes first, the count
  \<open>end - start\<close> wraps around and the rest of the line is taken.
\<close>

definition tag_text :: "string \<Rightarrow> string option" where
  "tag_text line =
     (case find_sub ''<string>'' line of
        None \<Rightarrow> None
      | Some i \<Rightarrow>
          let start = i + 8 in
          case find_sub ''</string>'' line of
            None \<Rightarrow> None
          | Some stop \<Rightarrow> Some (if start \<le> stop then substr line start (stop - start) else drop start line))"

text \<open>\<open>get_macos_description\<close> reads the whole file, keeping version and build.\<close>

record plist_scan =
  ps_version :: string
  ps_build :: string
  ps_found_version :: bool
  ps_found_build :: bool

definition scan_line :: "string \<Rightarrow> plist_scan \<Rightarrow> plist_scan" where
  "scan_line line p =
     (if contains_sub ''ProductUserVisibleVersion'' line then p\<lparr>ps_found_version := True\<rparr>
      else if contains_sub ''ProductBuildVersion'' line then p\<lparr>ps_found_build := True\<rparr>
      else
        let p = (if ps_found_version p then
                   (case tag_text line of Some v \<Rightarrow> p\<lparr>ps_version := v, ps_found_version := False\<rparr> | None \<Rightarrow> p)
                 else p)
        in if ps_found_build p then
             (case tag_text line of Some v \<Rightarrow> p\<lparr>ps_build := v, ps_found_build := False\<rparr> | None \<Rightarrow> p)
           else p)"

definition scan_plist :: "string list \<Rightarrow> plist_scan \<Rightarrow> plist_scan" where
  "scan_plist = fold scan_line"

definition no_scan :: plist_scan where
  "no_scan = \<lparr>ps_version = [], ps_build = [], ps_found_version = False, ps_found_build = False\<rparr>"

text \<open>\<open>std::stoi\<close> in base ten.\<close>

definition stoi10 :: "string \<Rightarrow> int res" where
  "stoi10 s =
     (case take_number s of
        None \<Rightarrow> Inl (InvalidArgument ''stoi'')
      | Some (sg, n, rest) \<Rightarrow> if in_int32 (sg * n) then Inr (sg * n) else Inl OutOfRange)"

definition MACOS_MINOR :: "(int \<times> string) list" where
  "MACOS_MINOR = [(15, ''Catalina''), (14, ''Mojave''), (13, ''High Sierra''), (12, ''Sierra''), (11, ''El Capitan''),
     (10, ''Yosemite''), (9, ''Mavericks'')]"

definition MACOS_MAJOR :: "(int \<times> string) list" where
  "MACOS_MAJOR = [(15, ''Sequoia''), (14, ''Sonoma''), (13, ''Ventura''), (12, ''Monterey''), (11, ''Big Sur'')]"

definition name_or_nothing :: "(int \<times> string) list \<Rightarrow> int \<Rightarrow> string" where
  "name_or_nothing t n = (case map_of t n of Some s \<Rightarrow> s | None \<Rightarrow> [])"

definition get_macos_version_name :: "string \<Rightarrow> string" where
  "get_macos_version_name version =
     (case find_first (\<lambda>c. c = CHR ''.'') version of
        None \<Rightarrow> []
      | Some dot \<Rightarrow>
          (case stoi10 (substr version 0 dot) of
             Inl _ \<Rightarrow> []
           | Inr major \<Rightarrow>
               if major = 10 then
                 (case find_first (\<lambda>c. c = CHR ''.'') (drop (dot + 1) version) of
                    None \<Rightarrow> []
                  | Some i \<Rightarrow>
                      (case stoi10 (substr version (dot + 1) i) of
                         Inl _ \<Rightarrow> []
                       | Inr minor \<Rightarrow> name_or_nothing MACOS_MINOR minor))
               else name_or_nothing MACOS_MAJOR major))"

definition get_macos_description :: "os_view \<Rightarrow> string" where
  "get_macos_description E =
     (let version = (case ov_text E VERSION_PLIST of
                       None \<Rightarrow> []
                     | Some t \<Rightarrow> ps_version (scan_plist (getlines t) no_scan));
          name = get_macos_version_name version
      in if version \<noteq> [] then ''macOS '' @ version @ (if name \<noteq> [] then '' '' @ name else [])
         else ''macOS'')"

section \<open>The description reported by the agent\<close>

definition get_os_description :: "os_view \<Rightarrow> string" where
  "get_os_description E =
     (case ov_uname E of
        None \<Rightarrow> ''Unknown OS''
      | Some (sysname, arch, release) \<Rightarrow>
          let distro = (if sysname = ''Darwin'' then get_macos_description E
                        else if sysname = ''Linux'' then get_linux_description E
                        else sysname)
          in if distro = [] then sysname @ '' ('' @ arch @ '')''
             else if is_digit (hd distro) then sysname @ '' '' @ distro @ '' ('' @ arch @ '')''
             else if starts_with sysname distro then distro @ '' ('' @ arch @ '')''
             else sysname @ '' '' @ distro @ '' ('' @ arch @ '')'')"

section \<open>What the setup shows\<close>

text \<open>Its own loop over the version file, which stops at the first version.\<close>

fun first_version :: "bool \<Rightarrow> string list \<Rightarrow> string" where
  "first_version found [] = []"
| "first_version found (line # ls) =
     (if contains_sub ''ProductUserVisibleVersion'' line then first_version True ls
      else if found then (case tag_text line of Some v \<Rightarrow> v | None \<Rightarrow> first_version found ls)
      else first_version found ls)"

definition RELEASE_FILES :: "(string \<times> string) list" where
  "RELEASE_FILES =
     [(''/etc/redhat-release'', ''Red Hat''), (''/etc/debian_version'', ''Debian''),
      (''/etc/alpine-release'', ''Alpine Linux''), (''/etc/arch-release'', ''Arch Linux''),
      (''/etc/gentoo-release'', ''Gentoo'')]"

definition first_line :: "string \<Rightarrow> string" where
  "first_line t = takeWhile (\<lambda>c. c \<noteq> CHR 0x0A) t"

fun release_name :: "os_view \<Rightarrow> (string \<times> string) list \<Rightarrow> string" where
  "release_name E [] = ''Unknown''"
| "release_name E ((p, name) # ps) =
     (case ov_text E p of
        None \<Rightarrow> release_name E ps
      | Some t \<Rightarrow> if first_line t \<noteq> [] then name @ '' '' @ first_line t else name)"

definition on_darwin :: "os_view \<Rightarrow> bool" where
  "on_darwin E \<longleftrightarrow> (case ov_uname E of Some (sysname, arch, release) \<Rightarrow> sysname = ''Darwin'' | None \<Rightarrow> False)"

definition detect_distribution :: "os_view \<Rightarrow> string" where
  "detect_distribution E =
     (case os_release_name E of
        Some d \<Rightarrow> d
      | None \<Rightarrow>
          if on_darwin E then
            let version = (case ov_text E VERSION_PLIST of None \<Rightarrow> [] | Some t \<Rightarrow> first_version False (getlines t))
            in if version \<noteq> [] then ''macOS '' @ version else ''macOS''
          else release_name E RELEASE_FILES)"

definition setup_init_system :: "bool \<Rightarrow> 'w host \<Rightarrow> 'w world \<Rightarrow> string" where
  "setup_init_system darwin H w =
     (let there = (\<lambda>p. hexists H p w) in
      if darwin then
        (if there ''/sbin/launchd'' \<or> there ''/System/Library/LaunchDaemons'' then ''launchd'' else ''launchd (assumed)'')
      else if there ''/run/systemd/system'' \<or> there ''/systemd'' then ''systemd''
      else if there ''/sbin/openrc'' \<or> (there ''/etc/init.d/'' \<and> there ''/sbin/rc-service'') then ''OpenRC''
      else if there ''/sbin/upstart'' \<or> (there ''/etc/init/'' \<and> there ''/sbin/initctl'') then ''Upstart''
      else if there ''/etc/inittab'' \<or> there ''/etc/rc.d/'' \<or> there ''/etc/init.d/'' then ''SysV init''
      else if there ''/etc/runit'' \<or> there ''/usr/bin/sv'' then ''runit''
      else if there ''/etc/s6'' \<or> there ''/usr/bin/s6-svc'' then ''s6''
      else if there ''/sbin/init'' then ''init (unknown type)''
      else ''Unknown'')"

section \<open>The two readers of the version file\<close>

text \<open>
  A well-formed version file names the user-visible version once, and has the build's key on a
  line of its own.
\<close>

definition one_version :: "string list \<Rightarrow> bool" where
  "one_version ls \<longleftrightarrow> length (filter (contains_sub ''ProductUserVisibleVersion'') ls) \<le> 1 \<and>
     list_all (\<lambda>l. contains_sub ''ProductBuildVersion'' l \<longrightarrow> tag_text l = None) ls"

lemma one_version_Cons:
  "one_version (l # ls) \<Longrightarrow> one_version ls"
  "one_version (l # ls) \<Longrightarrow> contains_sub ''ProductUserVisibleVersion'' l \<Longrightarrow>
     \<forall>x \<in> set ls. \<not> contains_sub ''ProductUserVisibleVersion'' x"
  "one_version (l # ls) \<Longrightarrow> contains_sub ''ProductBuildVersion'' l \<Longrightarrow> tag_text l = None"
  by (auto simp: one_version_def filter_empty_conv split: if_splits)

lemma scan_plist_simps [simp]:
  "scan_plist [] p = p" "scan_plist (l # ls) p = scan_plist ls (scan_line l p)"
  by (simp_all add: scan_plist_def)

lemma scan_line_version:
  "\<not> contains_sub ''ProductUserVisibleVersion'' l \<Longrightarrow> contains_sub ''ProductBuildVersion'' l \<longrightarrow> tag_text l = None \<Longrightarrow>
     ps_version (scan_line l p) = (case tag_text l of Some v \<Rightarrow> if ps_found_version p then v else ps_version p | None \<Rightarrow> ps_version p) \<and>
     ps_found_version (scan_line l p) = (ps_found_version p \<and> tag_text l = None)"
  by (auto simp: scan_line_def Let_def split: option.splits)

lemma scan_line_key:
  "contains_sub ''ProductUserVisibleVersion'' l \<Longrightarrow>
     ps_version (scan_line l p) = ps_version p \<and> ps_found_version (scan_line l p)"
  by (simp add: scan_line_def)

text \<open>Without a key nothing is found any more; after the key the first tag counts.\<close>

lemma scan_settled:
  assumes "\<forall>l \<in> set ls. \<not> contains_sub ''ProductUserVisibleVersion'' l"
    and "one_version ls" and "\<not> ps_found_version p"
  shows "ps_version (scan_plist ls p) = ps_version p"
  using assms
proof (induction ls arbitrary: p)
  case (Cons l ls)
  have l: "ps_version (scan_line l p) = ps_version p" "\<not> ps_found_version (scan_line l p)"
    using scan_line_version [of l p] Cons.prems one_version_Cons(3) [OF Cons.prems(2)] by (auto split: option.splits)
  with Cons one_version_Cons(1) [OF Cons.prems(2)] show ?case by simp
qed simp

lemma scan_found:
  assumes "\<forall>l \<in> set ls. \<not> contains_sub ''ProductUserVisibleVersion'' l"
    and "one_version ls" and "ps_found_version p" and "ps_version p = []"
  shows "ps_version (scan_plist ls p) = first_version True ls"
  using assms
proof (induction ls arbitrary: p)
  case (Cons l ls)
  have l: "\<not> contains_sub ''ProductUserVisibleVersion'' l" "one_version ls"
    using Cons.prems one_version_Cons(1) by auto
  note v = scan_line_version [OF l(1), of p]
  show ?case
  proof (cases "tag_text l")
    case None
    with v Cons.prems have "ps_version (scan_line l p) = []" "ps_found_version (scan_line l p)" by auto
    with Cons.IH [of "scan_line l p"] Cons.prems l None show ?thesis by simp
  next
    case (Some x)
    with v Cons.prems one_version_Cons(3) [OF Cons.prems(2)]
    have "ps_version (scan_line l p) = x" "\<not> ps_found_version (scan_line l p)" by auto
    with scan_settled [of ls "scan_line l p"] Cons.prems l Some show ?thesis by simp
  qed
qed simp

lemma scan_is_first:
  assumes "one_version ls" and "ps_version p = []" and "\<not> ps_found_version p"
  shows "ps_version (scan_plist ls p) = first_version False ls"
  using assms
proof (induction ls arbitrary: p)
  case (Cons l ls)
  note ok = one_version_Cons(1) [OF Cons.prems(1)]
  show ?case
  proof (cases "contains_sub ''ProductUserVisibleVersion'' l")
    case True
    with scan_found [of ls "scan_line l p"] scan_line_key [OF True, of p] Cons.prems ok one_version_Cons(2) [OF Cons.prems(1) True]
    show ?thesis by simp
  next
    case False
    with scan_line_version [OF False, of p] one_version_Cons(3) [OF Cons.prems(1)] Cons.prems
    have "ps_version (scan_line l p) = []" "\<not> ps_found_version (scan_line l p)" by (auto split: option.splits)
    with Cons.IH [of "scan_line l p"] ok False show ?thesis by simp
  qed
qed simp

section \<open>Claims\<close>

definition version_suffix :: "string \<Rightarrow> string" where
  "version_suffix v = (if get_macos_version_name v \<noteq> [] then '' '' @ get_macos_version_name v else [])"

text \<open>
  The description the agent reports and the one its setup shows come from two different
  loops and agree: on Linux they are the same text whenever the system names itself, and on
  macOS the agent's is the setup's followed by the name of that version, for every version
  file that names the version once and its build apart.
\<close>

theorem descriptions_agree:
  assumes "\<And>t. ov_text E VERSION_PLIST = Some t \<Longrightarrow> one_version (getlines t)"
    and "on_darwin E \<longleftrightarrow> os_release_name E = None"
  shows "(if on_darwin E then get_macos_description E = detect_distribution E @ version_suffix (drop 6 (detect_distribution E))
     else get_linux_description E = detect_distribution E)"
proof (cases "on_darwin E")
  case True
  have none: "get_macos_version_name [] = []" by (simp add: get_macos_version_name_def)
  have "ps_version (scan_plist (getlines t) no_scan) = first_version False (getlines t)"
    if "ov_text E VERSION_PLIST = Some t" for t
    by (rule scan_is_first) (use assms(1) [OF that] in \<open>simp_all add: no_scan_def\<close>)
  with True assms(2) none show ?thesis
    by (auto simp: get_macos_description_def detect_distribution_def version_suffix_def Let_def split: option.splits)
next
  case False
  with assms(2) show ?thesis by (auto simp: get_linux_description_def detect_distribution_def)
qed

definition mac_view :: os_view where
  "mac_view = \<lparr>ov_uname = Some (''Darwin'', ''arm64'', ''24.1.0''),
     ov_text = [VERSION_PLIST \<mapsto> ''<key>ProductBuildVersion</key>'' @ [CHR 0x0A] @ ''<string>24B83</string>'' @ [CHR 0x0A] @
       ''<key>ProductUserVisibleVersion</key>'' @ [CHR 0x0A] @ ''<string>15.1</string>'']\<rparr>"

definition linux_view :: os_view where
  "linux_view = \<lparr>ov_uname = Some (''Linux'', ''x86_64'', ''6.1.0''),
     ov_text = [OS_RELEASE \<mapsto> ''NAME=Debian'' @ [CHR 0x0A] @ ''PRETTY_NAME='' @ [CHR 0x22] @ ''Debian 12'' @ [CHR 0x22]]\<rparr>"

lemma descriptions_agree_witness:
  "get_macos_description mac_view = ''macOS 15.1 Sequoia'' \<and> detect_distribution mac_view = ''macOS 15.1'' \<and>
   get_linux_description linux_view = ''Debian 12'' \<and> detect_distribution linux_view = ''Debian 12''"
proof -
  have m: "on_darwin mac_view" "os_release_name mac_view = None" "detect_distribution mac_view = ''macOS 15.1''"
    "version_suffix ''15.1'' = '' Sequoia''" "(\<lambda>t. one_version (getlines t)) (the (ov_text mac_view VERSION_PLIST))"
    by code_simp+
  have l: "\<not> on_darwin linux_view" "os_release_name linux_view = Some ''Debian 12''" "detect_distribution linux_view = ''Debian 12''"
    "ov_text linux_view VERSION_PLIST = None" by code_simp+
  have "one_version (getlines t)" if "ov_text mac_view VERSION_PLIST = Some t" for t using m(5) that by simp
  from descriptions_agree [OF this] m have "get_macos_description mac_view = ''macOS 15.1 Sequoia''" by simp
  with descriptions_agree [of linux_view] m l show ?thesis by simp
qed

text \<open>
  The init system the setup shows is the one whose installer the factory builds: the names
  agree (up to \<open>(assumed)\<close> on a Mac without launchd's files), and the setup shows something
  else exactly when the factory has no installer for the machine.
\<close>

theorem shown_init_system_is_built:
  assumes "\<not> on_android"
  shows "case create_installer on_android darwin H w of
      Inr I \<Rightarrow> setup_init_system darwin H w \<in> {im_name I, im_name I @ '' (assumed)''}
    | Inl x \<Rightarrow> x = RuntimeError ''Unsupported init system: Unknown'' \<and>
        setup_init_system darwin H w \<in> {''runit'', ''s6'', ''init (unknown type)'', ''Unknown''}"
  using assms
  by (simp add: create_installer_def detect_init_system_def setup_init_system_def Let_def systemd_impl_def launchd_impl_def
      openrc_impl_def sysv_impl_def upstart_impl_def)

lemma shown_init_system_is_built_witness:
  "create_installer False False demo_host \<lparr>wo_fs = Map.empty, wo_rest = ()\<rparr> = Inr (systemd_impl demo_host) \<and>
   setup_init_system False demo_host \<lparr>wo_fs = Map.empty, wo_rest = ()\<rparr> \<in> {''systemd'', ''systemd (assumed)''}"
proof -
  have "create_installer False False demo_host \<lparr>wo_fs = Map.empty, wo_rest = ()\<rparr> = Inr (systemd_impl demo_host)"
    by (simp add: create_installer_def detect_init_system_def hexists_def demo_host_simps)
  with shown_init_system_is_built [of False False demo_host "\<lparr>wo_fs = Map.empty, wo_rest = ()\<rparr>"] show ?thesis
    by (simp add: systemd_impl_def)
qed

text \<open>The description starts with what the kernel calls itself and ends with its architecture.\<close>

lemma description_names_system:
  assumes "ov_uname E = Some (sysname, arch, release)"
  shows "\<exists>d. get_os_description E = sysname @ d @ '' ('' @ arch @ '')''"
  using assms by (auto simp: get_os_description_def Let_def starts_with_iff)

text \<open>A release of macOS 10 without a third number has no name.\<close>

lemma two_numbers_unnamed: "get_macos_version_name ''10.15'' = [] \<and> get_macos_version_name ''10.15.7'' = ''Catalina''"
  by code_simp

end
