(* ===== verification/Agent_Resources.thy ===== *)
theory Agent_Resources
  imports Agent Scripts System_Info
begin

text \<open>
  The part of the agent's construction that faces the cloud (\<open>src/thinr/agent/agent.cpp\<close>):
  the resources \<open>agent\<close>, \<open>system\<close>, \<open>monitoring\<close> and \<open>update\<close> are registered, and the scripts
  after them. What each resource of the agent
  answers is here too. The resources of the client library (shell, cmd, proxy, file system)
  are registered after these and are not modelled.
\<close>

definition native :: "'t table_ops \<Rightarrow> string \<Rightarrow> 't \<Rightarrow> 't" where
  "native T n t = tb_put T n (NativeResource n) t"

definition init_agent_info :: "'t table_ops \<Rightarrow> 't \<Rightarrow> 't" where
  "init_agent_info T t = native T ''system'' (native T ''agent'' t)"

definition init_monitoring :: "'t table_ops \<Rightarrow> 't \<Rightarrow> 't" where
  "init_monitoring T t = native T ''monitoring'' t"

definition init_updater :: "'t table_ops \<Rightarrow> build \<Rightarrow> 't \<Rightarrow> 't" where
  "init_updater T b t = (if android b then t else native T ''update'' t)"

definition init_natives :: "'t table_ops \<Rightarrow> build \<Rightarrow> 't \<Rightarrow> 't" where
  "init_natives T b t = init_updater T b (init_monitoring T (init_agent_info T t))"

definition init_scripts :: "'t table_ops \<Rightarrow> script_env \<Rightarrow> 't \<Rightarrow> 't scripts res" where
  "init_scripts T E t = new_scripts T E t"

text \<open>The answers of the two resources that describe the machine.\<close>

definition agent_output :: "build \<Rightarrow> call_output" where
  "agent_output b = no_output\<lparr>op_data := put_field ''version'' (JStr (agent_version b)) JNull\<rparr>"

definition system_output :: "os_view \<Rightarrow> string \<Rightarrow> call_output" where
  "system_output E nodename =
     (let d = (case ov_uname E of
                 None \<Rightarrow> JNull
               | Some (sysname, machine, release) \<Rightarrow>
                   put_field ''kernel'' (JStr release)
                     (put_field ''hostname'' (JStr nodename)
                       (put_field ''architecture'' (JStr machine) (put_field ''system'' (JStr sysname) JNull))))
      in no_output\<lparr>op_data := put_field ''os'' (JStr (get_os_description E)) d\<rparr>)"

section \<open>Lemmas\<close>

definition NATIVES :: "build \<Rightarrow> string set" where
  "NATIVES b = {''agent'', ''system'', ''monitoring''} \<union> (if android b then {} else {''update''})"

lemma natives_apart: "k \<in> NATIVES b \<Longrightarrow> k \<notin> MANAGEMENT"
  by (auto simp: NATIVES_def MANAGEMENT_def split: if_splits)

lemma natives_registered:
  assumes "table_laws T" and "k \<in> NATIVES b"
  shows "tb_get T (init_natives T b t) k = Some (NativeResource k)"
proof -
  obtain e inv where "string_map e (tb_put T) (tb_get T) (tb_del T) inv" using assms by (auto simp: table_laws_def)
  then have put: "tb_get T (tb_put T k v t) k' = (if k' = k then Some v else tb_get T t k')" for k v t k'
    by (rule string_map.get_put)
  show ?thesis
    using assms(2) by (auto simp: init_natives_def init_updater_def init_monitoring_def init_agent_info_def native_def put
        NATIVES_def split: if_splits)
qed

lemma system_output_fields:
  assumes "ov_uname E = Some (sysname, machine, release)"
  shows "jfind (op_data (system_output E node)) ''system'' = Some (JStr sysname) \<and>
    jfind (op_data (system_output E node)) ''os'' = Some (JStr (get_os_description E))"
  using assms by (simp add: system_output_def put_field_def c_str_def smap_get_def)

section \<open>Claims\<close>

text \<open>
  The agent's own resources (\<open>agent\<close>, \<open>system\<close>, \<open>monitoring\<close>, and \<open>update\<close> where
  self-update exists) answer for it through any number of script reloads as long as no
  scripts directory seen on the way holds an executable of that name.
\<close>

theorem native_resources_survive:
  assumes "table_laws T" and "scripts_run Q T (init_natives T b t) s" and "k \<in> NATIVES b"
    and "\<And>E. Q E \<Longrightarrow> \<not> offers E k"
  shows "tb_get T (ss_table s) k = Some (NativeResource k)"
  using native_survives [OF assms(2,1) natives_apart [OF assms(3)] assms(4)] natives_registered [OF assms(1,3)] by simp

definition demo_agent_build :: build where
  "demo_agent_build = \<lparr>agent_version = ''v1.8.0'', binary_suffix = ''x86_64'', android = False\<rparr>"

lemma native_resources_survive_witness:
  "\<exists>s. scripts_run (\<lambda>E. E = demo_scripts [\<lparr>de_path = ''/x/backup.sh'', de_regular = True, de_perms = 493\<rparr>]) smap_table
      (init_natives smap_table demo_agent_build []) s \<and>
     sc_name ` set (ss_scripts s) = {''backup''} \<and> tb_get smap_table (ss_table s) ''update'' = Some (NativeResource ''update'')"
proof -
  let ?E = "demo_scripts [\<lparr>de_path = ''/x/backup.sh'', de_regular = True, de_perms = 493\<rparr>]"
  have scan: "scan_directory ?E = Inr [\<lparr>sc_path = ''/x/backup.sh'', sc_name = ''backup'', sc_describe = JNull\<rparr>]"
    by (simp add: scan_directory_def demo_scripts_def is_executable_def run_describe_def stem_def base_name_def Let_def)
  then obtain s where s: "new_scripts smap_table ?E (init_natives smap_table demo_agent_build []) = Inr s"
      "sc_name ` set (ss_scripts s) = {''backup''}"
    by (auto simp: new_scripts_def Let_def)
  have run: "scripts_run (\<lambda>E. E = ?E) smap_table (init_natives smap_table demo_agent_build []) s"
    by (rule scripts_run.started [OF refl s(1)])
  have off: "\<not> offers E ''update''" if "E = ?E" for E
    using offers_scan [OF scan, of "''update''"] that by simp
  have "''update'' \<in> NATIVES demo_agent_build" by (simp add: NATIVES_def demo_agent_build_def)
  from native_resources_survive [OF smap_table_laws run this off] run s(2) show ?thesis by blast
qed

end
