(* ===== verification/Arg_Parser.thy ===== *)
theory Arg_Parser
  imports Prelude "HOL-Library.Sublist"
begin

text \<open>
  The command line (\<open>src/thinr/cli/argument_parser.hpp\<close>, \<open>argument_parser.cpp\<close>): the
  splitting at the subcommand, the verbosity count, and one table of options per parser.
  The parsing of one table is \<open>boost::program_options\<close>, which is not part of the
  repository: it is the parameter \<open>po\<close>, from a table and the arguments to an error text or
  the values by long name. \<open>po_defaults\<close> states what the code relies on.
\<close>

section \<open>Results\<close>

record install_options =
  io_token :: string
  io_device_id :: string
  io_name :: string
  io_product :: string
  io_host :: string
  io_update_policy :: string
  io_overwrite :: bool
  io_no_start :: bool
  io_no_verify_ssl :: bool

definition default_install :: install_options where
  "default_install = \<lparr>io_token = [], io_device_id = [], io_name = [], io_product = [],
     io_host = ''backend.thinger.io'', io_update_policy = [], io_overwrite = False, io_no_start = False,
     io_no_verify_ssl = False\<rparr>"

record update_options =
  uo_channel :: string
  uo_policy :: string
  uo_apply :: bool
  uo_now :: bool

definition default_update :: update_options where
  "default_update = \<lparr>uo_channel = ''latest'', uo_policy = [], uo_apply = False, uo_now = False\<rparr>"

record bootstrap_options =
  bo_token :: string
  bo_force :: bool
  bo_no_verify_ssl :: bool

definition default_bootstrap :: bootstrap_options where
  "default_bootstrap = \<lparr>bo_token = [], bo_force = False, bo_no_verify_ssl = False\<rparr>"

datatype command = NoCommand | INSTALL | UNINSTALL | CMD_STATUS | TEST | RECONFIGURE | UPDATE | BOOTSTRAP
  | HELP | VERSION | UNKNOWN

record parse_result =
  pa_command :: command
  pa_command_str :: string
  pa_config_path :: string
  pa_verbosity :: int
  pa_install :: install_options
  pa_update :: update_options
  pa_bootstrap :: bootstrap_options
  pa_success :: bool
  pa_error :: string

definition empty_result :: parse_result where
  "empty_result = \<lparr>pa_command = NoCommand, pa_command_str = [], pa_config_path = [], pa_verbosity = 3,
     pa_install = default_install, pa_update = default_update, pa_bootstrap = default_bootstrap,
     pa_success = True, pa_error = []\<rparr>"

section \<open>The tables\<close>

text \<open>A plain flag, a boolean switch, a value, a value with a default.\<close>

datatype opt_kind = Flag | Switch | Value | Defaulted string

type_synonym opt_table = "(string \<times> opt_kind) list"

text \<open>The values by long name; a flag or switch that was given has the empty value.\<close>

type_synonym opt_values = "string \<Rightarrow> string option"
type_synonym options_parser = "opt_table \<Rightarrow> string list \<Rightarrow> string + opt_values"

definition global_table :: opt_table where
  "global_table = [(''help,h'', Flag), (''version'', Flag), (''config,c'', Value)]"

definition install_table :: opt_table where
  "install_table = [(''help,h'', Flag), (''token'', Value), (''device'', Value), (''name'', Value),
     (''product'', Value), (''host'', Defaulted ''backend.thinger.io''), (''update-policy'', Value),
     (''overwrite'', Switch), (''no-start'', Switch), (''no-verify-ssl'', Switch)]"

definition bootstrap_table :: opt_table where
  "bootstrap_table = [(''help,h'', Flag), (''token'', Value), (''force'', Switch), (''no-verify-ssl'', Switch)]"

definition update_table :: opt_table where
  "update_table = [(''help,h'', Flag), (''channel'', Defaulted ''latest''), (''policy'', Value),
     (''apply'', Switch), (''now'', Switch)]"

definition given :: "opt_values \<Rightarrow> string \<Rightarrow> bool" where
  "given vm n \<longleftrightarrow> vm n \<noteq> None"

text \<open>The variable an option is bound to keeps its old value when the option has none.\<close>

definition bound :: "opt_values \<Rightarrow> string \<Rightarrow> string \<Rightarrow> string" where
  "bound vm n old = (case vm n of Some v \<Rightarrow> v | None \<Rightarrow> old)"

section \<open>Splitting\<close>

definition is_global_value_option :: "string \<Rightarrow> bool" where
  "is_global_value_option a \<longleftrightarrow> a = ''--config'' \<or> a = ''-c''"

definition is_verbose :: "string \<Rightarrow> bool" where
  "is_verbose a \<longleftrightarrow> length a \<ge> 2 \<and> a ! 0 = CHR ''-'' \<and> a ! 1 \<noteq> CHR ''-'' \<and> (\<forall>c \<in> set (drop 1 a). c = CHR ''v'')"

record split_line =
  sp_global :: "string list"
  sp_command :: "string option"
  sp_sub :: "string list"
  sp_verbose :: nat

definition empty_split :: split_line where
  "empty_split = \<lparr>sp_global = [], sp_command = None, sp_sub = [], sp_verbose = 0\<rparr>"

fun split_args :: "string list \<Rightarrow> split_line \<Rightarrow> split_line" where
  "split_args [] s = s"
| "split_args (a # as) s =
     (if is_verbose a then split_args as (s\<lparr>sp_verbose := sp_verbose s + (length a - 1)\<rparr>)
      else if sp_command s = None then
        (if a \<noteq> [] \<and> hd a = CHR ''-'' then
           (if is_global_value_option a then
              (case as of
                 [] \<Rightarrow> s\<lparr>sp_global := sp_global s @ [a]\<rparr>
               | b # bs \<Rightarrow> split_args bs (s\<lparr>sp_global := sp_global s @ [a, b]\<rparr>))
            else split_args as (s\<lparr>sp_global := sp_global s @ [a]\<rparr>))
         else split_args as (s\<lparr>sp_command := Some a\<rparr>))
      else split_args as (s\<lparr>sp_sub := sp_sub s @ [a]\<rparr>))"

section \<open>Parsing\<close>

definition string_to_command :: "string \<Rightarrow> command" where
  "string_to_command c =
     (if c = [] then NoCommand
      else if c = ''install'' then INSTALL
      else if c = ''uninstall'' then UNINSTALL
      else if c = ''status'' then CMD_STATUS
      else if c = ''test'' then TEST
      else if c = ''reconfigure'' then RECONFIGURE
      else if c = ''update'' then UPDATE
      else if c = ''bootstrap'' then BOOTSTRAP
      else UNKNOWN)"

definition parse_failed :: "string \<Rightarrow> parse_result \<Rightarrow> parse_result" where
  "parse_failed e r = r\<lparr>pa_success := False, pa_error := ''Error parsing arguments: '' @ e, pa_command := HELP\<rparr>"

definition asks_help :: "string \<Rightarrow> opt_values \<Rightarrow> parse_result \<Rightarrow> parse_result" where
  "asks_help c vm r = (if given vm ''help'' then r\<lparr>pa_command := HELP, pa_command_str := c\<rparr> else r)"

definition parse_install :: "options_parser \<Rightarrow> string list \<Rightarrow> parse_result \<Rightarrow> parse_result" where
  "parse_install po sub r =
     (case po install_table sub of
        Inl e \<Rightarrow> parse_failed e r
      | Inr vm \<Rightarrow>
          let io = pa_install r in
          asks_help ''install'' vm
            (r\<lparr>pa_install := \<lparr>io_token = bound vm ''token'' (io_token io), io_device_id = bound vm ''device'' (io_device_id io),
               io_name = bound vm ''name'' (io_name io), io_product = bound vm ''product'' (io_product io),
               io_host = bound vm ''host'' (io_host io), io_update_policy = bound vm ''update-policy'' (io_update_policy io),
               io_overwrite = given vm ''overwrite'', io_no_start = given vm ''no-start'',
               io_no_verify_ssl = given vm ''no-verify-ssl''\<rparr>\<rparr>))"

definition parse_bootstrap :: "options_parser \<Rightarrow> string list \<Rightarrow> parse_result \<Rightarrow> parse_result" where
  "parse_bootstrap po sub r =
     (case po bootstrap_table sub of
        Inl e \<Rightarrow> parse_failed e r
      | Inr vm \<Rightarrow>
          asks_help ''bootstrap'' vm
            (r\<lparr>pa_bootstrap := \<lparr>bo_token = bound vm ''token'' (bo_token (pa_bootstrap r)), bo_force = given vm ''force'',
               bo_no_verify_ssl = given vm ''no-verify-ssl''\<rparr>\<rparr>))"

definition parse_update :: "options_parser \<Rightarrow> string list \<Rightarrow> parse_result \<Rightarrow> parse_result" where
  "parse_update po sub r =
     (case po update_table sub of
        Inl e \<Rightarrow> parse_failed e r
      | Inr vm \<Rightarrow>
          asks_help ''update'' vm
            (r\<lparr>pa_update := \<lparr>uo_channel = bound vm ''channel'' (uo_channel (pa_update r)),
               uo_policy = bound vm ''policy'' (uo_policy (pa_update r)), uo_apply = given vm ''apply'',
               uo_now = given vm ''now''\<rparr>\<rparr>))"

text \<open>The arguments are those after the program's name.\<close>

definition parse :: "options_parser \<Rightarrow> string list \<Rightarrow> parse_result" where
  "parse po args =
     (let s = split_args args empty_split;
          r = empty_result\<lparr>pa_command_str := (case sp_command s of Some c \<Rightarrow> c | None \<Rightarrow> [])\<rparr>
      in case po global_table (sp_global s) of
           Inl e \<Rightarrow> parse_failed e r
         | Inr vm \<Rightarrow>
             let r = r\<lparr>pa_config_path := bound vm ''config'' (pa_config_path r)\<rparr>;
                 r = (if sp_verbose s > 0 then r\<lparr>pa_verbosity := min (2 + int (sp_verbose s)) 4\<rparr> else r)
             in if given vm ''help'' then r\<lparr>pa_command := HELP\<rparr>
                else if given vm ''version'' then r\<lparr>pa_command := VERSION\<rparr>
                else
                  let r = r\<lparr>pa_command := string_to_command (pa_command_str r)\<rparr>
                  in case pa_command r of
                       INSTALL \<Rightarrow> parse_install po (sp_sub s) r
                     | BOOTSTRAP \<Rightarrow> parse_bootstrap po (sp_sub s) r
                     | UPDATE \<Rightarrow> parse_update po (sp_sub s) r
                     | _ \<Rightarrow> r)"

text \<open>What \<open>show_help\<close> prints for a command: a page, and the complaint before the general one.\<close>

datatype help_page = GeneralHelp | InstallHelp | UpdateHelp | BootstrapHelp | UnknownThenGeneral string

definition show_help :: "string \<Rightarrow> help_page" where
  "show_help c =
     (if c = [] then GeneralHelp
      else if c = ''install'' then InstallHelp
      else if c = ''update'' then UpdateHelp
      else if c = ''bootstrap'' then BootstrapHelp
      else UnknownThenGeneral c)"

section \<open>What the code relies on, and a parser for examples\<close>

text \<open>
  Documented behaviour of the options library: no arguments are never an error, give the
  defaults and nothing else; an option with a default always has a value.
\<close>

definition long_name :: "string \<Rightarrow> string" where
  "long_name n = takeWhile (\<lambda>c. c \<noteq> CHR '','') n"

definition po_defaults :: "options_parser \<Rightarrow> bool" where
  "po_defaults po \<longleftrightarrow>
     (\<forall>t. po t [] = Inr (\<lambda>n. case map_of t n of Some (Defaulted d) \<Rightarrow> Some d | _ \<Rightarrow> None)) \<and>
     (\<forall>t as vm n d. po t as = Inr vm \<longrightarrow> map_of t n = Some (Defaulted d) \<longrightarrow> vm n \<noteq> None)"

text \<open>Long options with a separate value only; anything else is an error.\<close>

fun ref_options :: "opt_table \<Rightarrow> string list \<Rightarrow> opt_values \<Rightarrow> string + opt_values" where
  "ref_options t [] vm = Inr vm"
| "ref_options t (a # as) vm =
     (case map_of (map (\<lambda>(n, k). (''--'' @ long_name n, k)) t) a of
        None \<Rightarrow> Inl (''unrecognised option '' @ a)
      | Some Flag \<Rightarrow> ref_options t as (vm(drop 2 a := Some []))
      | Some Switch \<Rightarrow> ref_options t as (vm(drop 2 a := Some []))
      | Some _ \<Rightarrow>
          (case as of
             [] \<Rightarrow> Inl (''missing argument for '' @ a)
           | v # bs \<Rightarrow> ref_options t bs (vm(drop 2 a := Some v))))"

definition ref_po :: options_parser where
  "ref_po t as = ref_options t as (\<lambda>n. case map_of t n of Some (Defaulted d) \<Rightarrow> Some d | _ \<Rightarrow> None)"

lemma ref_options_defaults:
  "ref_options t as vm = Inr vm' \<Longrightarrow> vm n \<noteq> None \<Longrightarrow> vm' n \<noteq> None"
  by (induction t as vm rule: ref_options.induct) (auto split: option.splits opt_kind.splits list.splits if_splits)

lemma po_defaults_ref: "po_defaults ref_po"
  unfolding po_defaults_def
proof (intro conjI allI impI)
  show "ref_po t [] = Inr (\<lambda>n. case map_of t n of Some (Defaulted d) \<Rightarrow> Some d | _ \<Rightarrow> None)" for t
    by (simp add: ref_po_def)
  fix t as vm n d assume "ref_po t as = Inr vm" and n: "map_of t n = Some (Defaulted d)"
  then show "vm n \<noteq> None"
    unfolding ref_po_def using ref_options_defaults [of t as _ vm n] by auto
qed

section \<open>Lemmas\<close>

definition kept :: "split_line \<Rightarrow> string list" where
  "kept s = sp_global s @ (case sp_command s of Some c \<Rightarrow> [c] | None \<Rightarrow> []) @ sp_sub s"

lemma split_args_kept:
  "(sp_command s = None \<Longrightarrow> sp_sub s = []) \<Longrightarrow>
   \<exists>xs. kept (split_args args s) = kept s @ xs \<and> subseq (filter (\<lambda>a. \<not> is_verbose a) args) xs \<and> subseq xs args"
proof (induction args s rule: split_args.induct)
  case (1 s)
  then show ?case by simp
next
  case (2 a as s)
  note IH = "2.IH"
  consider (v) "is_verbose a" | (sub) "\<not> is_verbose a" "sp_command s \<noteq> None"
    | (pair) b bs where "\<not> is_verbose a" "sp_command s = None" "a \<noteq> [] \<and> hd a = CHR ''-''"
        "is_global_value_option a" "as = b # bs"
    | (stop) "\<not> is_verbose a" "sp_command s = None" "a \<noteq> [] \<and> hd a = CHR ''-''" "is_global_value_option a" "as = []"
    | (opt) "\<not> is_verbose a" "sp_command s = None" "a \<noteq> [] \<and> hd a = CHR ''-''" "\<not> is_global_value_option a"
    | (cmd) "\<not> is_verbose a" "sp_command s = None" "\<not> (a \<noteq> [] \<and> hd a = CHR ''-'')"
    by (cases as) auto
  then show ?case
  proof cases
    case v
    with IH(1) [OF v] "2.prems" show ?thesis by (auto simp: kept_def)
  next
    case sub
    with IH(5) [OF sub] obtain xs where "kept (split_args as (s\<lparr>sp_sub := sp_sub s @ [a]\<rparr>)) = kept s @ a # xs"
      "subseq (filter (\<lambda>a. \<not> is_verbose a) as) xs" "subseq xs as"
      by (auto simp: kept_def)
    with sub show ?thesis by (intro exI [of _ "a # xs"]) auto
  next
    case pair
    with IH(2) [OF pair] "2.prems" obtain xs where
      "kept (split_args bs (s\<lparr>sp_global := sp_global s @ [a, b]\<rparr>)) = kept s @ a # b # xs"
      "subseq (filter (\<lambda>a. \<not> is_verbose a) bs) xs" "subseq xs bs"
      by (auto simp: kept_def)
    with pair show ?thesis by (intro exI [of _ "a # b # xs"]) auto
  next
    case stop
    with "2.prems" show ?thesis by (auto simp: kept_def)
  next
    case opt
    with IH(3) [OF opt] "2.prems" obtain xs where
      "kept (split_args as (s\<lparr>sp_global := sp_global s @ [a]\<rparr>)) = kept s @ a # xs"
      "subseq (filter (\<lambda>a. \<not> is_verbose a) as) xs" "subseq xs as"
      by (auto simp: kept_def)
    with opt show ?thesis by (intro exI [of _ "a # xs"]) auto
  next
    case cmd
    with IH(4) [OF cmd] "2.prems" obtain xs where
      "kept (split_args as (s\<lparr>sp_command := Some a\<rparr>)) = kept s @ a # xs"
      "subseq (filter (\<lambda>a. \<not> is_verbose a) as) xs" "subseq xs as"
      by (auto simp: kept_def)
    with cmd show ?thesis by (intro exI [of _ "a # xs"]) auto
  qed
qed

lemma split_args_sub:
  "sp_command s \<noteq> None \<Longrightarrow> \<forall>a \<in> set args. \<not> is_verbose a \<Longrightarrow>
   split_args args s = s\<lparr>sp_sub := sp_sub s @ args\<rparr>"
  by (induction args arbitrary: s) auto

lemma parse_sub_kept:
  "pa_verbosity (parse_install po sub r) = pa_verbosity r" "pa_config_path (parse_install po sub r) = pa_config_path r"
  "pa_verbosity (parse_bootstrap po sub r) = pa_verbosity r" "pa_config_path (parse_bootstrap po sub r) = pa_config_path r"
  "pa_verbosity (parse_update po sub r) = pa_verbosity r" "pa_config_path (parse_update po sub r) = pa_config_path r"
  by (simp_all add: parse_install_def parse_bootstrap_def parse_update_def parse_failed_def asks_help_def Let_def
      split: sum.splits)

lemma parse_sub_success:
  "pa_success r \<Longrightarrow> pa_success (parse_install po sub r) \<or> pa_command (parse_install po sub r) = HELP"
  "pa_success r \<Longrightarrow> pa_success (parse_bootstrap po sub r) \<or> pa_command (parse_bootstrap po sub r) = HELP"
  "pa_success r \<Longrightarrow> pa_success (parse_update po sub r) \<or> pa_command (parse_update po sub r) = HELP"
  by (simp_all add: parse_install_def parse_bootstrap_def parse_update_def parse_failed_def asks_help_def Let_def
      split: sum.splits)

lemma parse_verbosity: "pa_verbosity (parse po args) = 3 \<or> pa_verbosity (parse po args) = 4"
  by (auto simp: parse_def Let_def empty_result_def parse_failed_def parse_sub_kept min_def
      split: sum.splits command.splits)

lemma parse_update_defaults:
  assumes "po_defaults po" and "pa_command (parse_update po sub r) = UPDATE" and "pa_command r = UPDATE"
  shows "\<exists>vm c. po update_table sub = Inr vm \<and> vm ''channel'' = Some c \<and>
    uo_channel (pa_update (parse_update po sub r)) = c"
  using assms
  by (force simp: parse_update_def po_defaults_def update_table_def bound_def parse_failed_def asks_help_def
      split: sum.splits if_splits)

section \<open>Properties\<close>

text \<open>
  The splitting of the command line loses nothing but the verbosity flags and keeps the
  order: what the global and the subcommand parser see, with the subcommand between them, is
  a subsequence of the arguments that contains every argument that is no \<open>-v\<close>.
\<close>

theorem split_args_loses_only_verbosity:
  "let s = split_args args empty_split in
   subseq (filter (\<lambda>a. \<not> is_verbose a) args) (kept s) \<and> subseq (kept s) args"
  using split_args_kept [of empty_split args] by (auto simp: Let_def empty_split_def kept_def)

text \<open>
  Only \<open>install\<close>, \<open>bootstrap\<close> and \<open>update\<close> parse what follows them: every other
  command runs whatever its arguments are, \<open>--help\<close> included, and unknown options are no
  error.
\<close>

theorem other_commands_ignore_arguments:
  assumes "string_to_command c \<notin> {INSTALL, BOOTSTRAP, UPDATE}" and "c = [] \<or> hd c \<noteq> CHR ''-''"
    and "po_defaults po" and "\<forall>a \<in> set sub. \<not> is_verbose a"
  shows "parse po (c # sub) = empty_result\<lparr>pa_command := string_to_command c, pa_command_str := c\<rparr>"
proof -
  have v: "\<not> is_verbose c" using assms(2) by (cases c) (auto simp: is_verbose_def)
  have s: "split_args (c # sub) empty_split = empty_split\<lparr>sp_command := Some c, sp_sub := sub\<rparr>"
    using v assms(2) split_args_sub [of "empty_split\<lparr>sp_command := Some c\<rparr>", OF _ assms(4)]
    by (simp add: empty_split_def del: split_args.simps) (subst split_args.simps; auto)
  have g: "po global_table [] = Inr (\<lambda>n. None)"
  proof -
    have "po global_table [] =
        Inr (\<lambda>n. case map_of global_table n of Some (Defaulted d) \<Rightarrow> Some d | _ \<Rightarrow> None)"
      using assms(3) unfolding po_defaults_def by blast
    moreover have "(\<lambda>n. case map_of global_table n of Some (Defaulted d) \<Rightarrow> Some d | _ \<Rightarrow> None) = (\<lambda>n. None)"
      by (auto simp: global_table_def fun_eq_iff)
    ultimately show ?thesis by simp
  qed
  show ?thesis
    using assms(1) unfolding parse_def s
    by (auto simp: g empty_split_def Let_def given_def bound_def empty_result_def split: command.splits)
qed

theorem other_commands_ignore_arguments_witness:
  "pa_command (parse ref_po [''uninstall'', ''--help'']) = UNINSTALL"
  by (subst other_commands_ignore_arguments)
     (simp_all add: string_to_command_def po_defaults_ref is_verbose_def)

end
