(* ===== verification/Device_Id.thy ===== *)
theory Device_Id
  imports Prelude "HOL-Library.Word"
begin

text \<open>
  The default device identifier (\<open>src/thinr/utils/device_id_generator.cpp\<close>): a prefix of the
  host name and the hardware address of the first real interface, cut to 32 characters. The
  answers of \<open>gethostname\<close>, \<open>getifaddrs\<close> and the clock are inputs.
\<close>

record interface =
  if_name :: string
  if_link :: bool
  if_addr :: "8 word list"

record machine =
  ma_apple :: bool
  ma_hostname :: "string option"
  ma_interfaces :: "interface list option"
  ma_time :: int

text \<open>The part of the host name before the first separator, in lower case.\<close>

definition is_separator :: "char \<Rightarrow> bool" where
  "is_separator c \<longleftrightarrow> c \<in> {CHR ''-'', CHR ''_'', CHR ''.'', CHR '' '', CHR 0x09}"

definition get_hostname_prefix :: "machine \<Rightarrow> string" where
  "get_hostname_prefix m =
     (case ma_hostname m of
        None \<Rightarrow> []
      | Some host \<Rightarrow>
          let host = (case find_first is_separator host of Some pos \<Rightarrow> take pos host | None \<Rightarrow> host);
              host = map to_lower host
          in if host = [] \<or> length host > 32 then ''device'' else host)"

definition virtual_prefixes :: "string list" where
  "virtual_prefixes = [''lo'', ''vir'', ''docker'', ''veth'', ''br-'', ''tun'', ''tap'', ''vmnet'', ''utun'',
     ''awdl'', ''llw'', ''anpi'', ''bridge'', ''ap'', ''gif'', ''stf'', ''XHC'']"

definition is_virtual_interface :: "string \<Rightarrow> bool" where
  "is_virtual_interface name \<longleftrightarrow> list_ex (\<lambda>p. starts_with p name) virtual_prefixes"

definition format_mac_compact :: "string \<Rightarrow> string" where
  "format_mac_compact mac = map to_lower (filter (\<lambda>c. c \<noteq> CHR '':'' \<and> c \<noteq> CHR ''-'') mac)"

definition valid_mac :: "8 word list \<Rightarrow> bool" where
  "valid_mac a \<longleftrightarrow> length a = 6 \<and> \<not> list_all (\<lambda>b. b = 0) a"

fun mac_text :: "8 word list \<Rightarrow> string" where
  "mac_text [] = []"
| "mac_text [b] = hex_byte (unat b)"
| "mac_text (b # bs) = hex_byte (unat b) @ '':'' @ mac_text bs"

definition first_mac :: "(interface \<Rightarrow> bool) \<Rightarrow> interface list \<Rightarrow> string" where
  "first_mac P is =
     (case find (\<lambda>i. if_link i \<and> P i \<and> valid_mac (if_addr i)) is of
        Some i \<Rightarrow> mac_text (if_addr i)
      | None \<Rightarrow> [])"

definition linux_hardware_mac :: "machine \<Rightarrow> string" where
  "linux_hardware_mac m =
     (case ma_interfaces m of
        None \<Rightarrow> []
      | Some is \<Rightarrow> first_mac (\<lambda>i. \<not> is_virtual_interface (if_name i)) is)"

text \<open>On macOS \<open>en0\<close> comes first.\<close>

definition apple_hardware_mac :: "machine \<Rightarrow> string" where
  "apple_hardware_mac m =
     (case ma_interfaces m of
        None \<Rightarrow> []
      | Some is \<Rightarrow>
          let mac = first_mac (\<lambda>i. if_name i = ''en0'') is
          in if mac \<noteq> [] then mac else first_mac (\<lambda>i. \<not> is_virtual_interface (if_name i)) is)"

definition get_first_hardware_mac :: "machine \<Rightarrow> string" where
  "get_first_hardware_mac m = (if ma_apple m then apple_hardware_mac m else linux_hardware_mac m)"

definition id_char :: "char \<Rightarrow> bool" where
  "id_char c \<longleftrightarrow> is_alnum c \<or> c = CHR ''_'' \<or> c = CHR ''-''"

text \<open>The cut to 32 characters and the replacement of other characters.\<close>

definition cut_id :: "string \<Rightarrow> string \<Rightarrow> string" where
  "cut_id prefix mac =
     (let device_id = prefix @ ''_'' @ mac in
      if length device_id > 32 then
        (let mac_chars = min (length mac) 6; hostname_chars = 32 - mac_chars - 1
         in take hostname_chars prefix @ ''_'' @ drop (length mac - mac_chars) mac)
      else device_id)"

definition clean_id :: "string \<Rightarrow> string" where
  "clean_id s = map (\<lambda>c. if id_char c then c else CHR ''_'') s"

definition generate :: "machine \<Rightarrow> string" where
  "generate m =
     (let prefix = get_hostname_prefix m; mac = get_first_hardware_mac m in
      if prefix = [] \<and> mac = [] then ''thinr_'' @ show_int (ma_time m)
      else
        let prefix = (if prefix = [] then ''device'' else prefix);
            mac = (if mac = [] then show_int (ma_time m) else format_mac_compact mac)
        in clean_id (cut_id prefix mac))"

section \<open>Lemmas\<close>

lemma length_clean_id [simp]: "length (clean_id s) = length s"
  by (simp add: clean_id_def)

lemma id_char_underscore [simp]: "id_char (CHR ''_'')"
  by (simp add: id_char_def)

lemma clean_id_chars: "\<forall>c \<in> set (clean_id s). id_char c"
  by (auto simp: clean_id_def)

lemma clean_id_id: "\<forall>c \<in> set s. id_char c \<Longrightarrow> clean_id s = s"
  unfolding clean_id_def by (simp add: map_idI)

lemma clean_id_append: "clean_id (s @ t) = clean_id s @ clean_id t"
  by (simp add: clean_id_def)

lemma length_cut_id: "length (cut_id prefix mac) \<le> 32"
  by (auto simp: cut_id_def Let_def min_def)

text \<open>The identifier ends with the last six characters of the address, or with all of it.\<close>

lemma cut_id_suffix: "\<exists>u. cut_id prefix mac = u @ drop (length mac - 6) mac"
proof (cases "length (prefix @ ''_'' @ mac) > 32")
  case True
  then have "cut_id prefix mac =
      (take (32 - min (length mac) 6 - 1) prefix @ ''_'') @ drop (length mac - min (length mac) 6) mac"
    by (simp add: cut_id_def Let_def)
  moreover have "length mac - min (length mac) 6 = length mac - 6" by simp
  ultimately show ?thesis by metis
next
  case False
  then have "cut_id prefix mac = (prefix @ ''_'' @ take (length mac - 6) mac) @ drop (length mac - 6) mac"
    by (simp add: cut_id_def Let_def)
  then show ?thesis by blast
qed

lemma show_nat_length: "n < 10 ^ Suc k \<Longrightarrow> length (show_nat n) \<le> Suc k"
proof (induction k arbitrary: n)
  case 0
  then show ?case by (subst show_nat.simps) simp
next
  case (Suc k)
  show ?case
  proof (cases "n < 10")
    case True
    then show ?thesis by (subst show_nat.simps) simp
  next
    case False
    have "n div 10 < 10 ^ Suc k" using Suc.prems by (simp add: less_mult_imp_div_less)
    with Suc.IH [OF this] False show ?thesis by (subst show_nat.simps) simp
  qed
qed

lemma show_int_length: "in_int64 t \<Longrightarrow> length (show_int t) \<le> 20"
proof -
  assume t: "in_int64 t"
  have b: "nat x \<le> 9223372036854775808 \<Longrightarrow> length (show_nat (nat x)) \<le> 19" for x
    using show_nat_length [of "nat x" 18] by simp
  have "nat t \<le> 9223372036854775808" "nat (- t) \<le> 9223372036854775808"
    using t by (auto simp: in_int64_def)
  with b [of t] b [of "- t"] show ?thesis by (auto simp: show_int_def)
qed

lemma digit_id_char: "is_digit c \<Longrightarrow> id_char c"
  by (simp add: id_char_def is_alnum_def)

lemma show_int_id_chars: "\<forall>c \<in> set (show_int t). id_char c"
  using show_nat_digits digit_id_char by (auto simp: show_int_def id_char_def is_alnum_def)

lemma hex_digit_facts:
  assumes "n < 16"
  shows "id_char (hex_digit n)" "to_lower (hex_digit n) = hex_digit n" "hex_digit n \<noteq> CHR '':''" "hex_digit n \<noteq> CHR ''-''"
proof -
  have c: "code_of (hex_digit n) = (if n < 10 then 48 + n else 87 + n)" by (rule hex_digit_code [OF assms])
  show "id_char (hex_digit n)" "to_lower (hex_digit n) = hex_digit n"
    using assms by (auto simp: id_char_def is_alnum_def is_digit_def is_lower_def is_upper_def to_lower_def c)
  have "code_of (CHR '':'') = 58" "code_of (CHR ''-'') = 45" by (simp_all add: code_of_def)
  then show "hex_digit n \<noteq> CHR '':''" "hex_digit n \<noteq> CHR ''-''" using assms c by (auto split: if_splits)
qed

lemma unat_byte: "unat (b :: 8 word) div 16 < 16" "unat (b :: 8 word) mod 16 < 16"
proof -
  have "unat b < 2 ^ LENGTH(8)" by (rule unsigned_less)
  then show "unat b div 16 < 16" by simp
qed simp

lemma format_hex_byte [simp]: "format_mac_compact (hex_byte (unat (b :: 8 word))) = hex_byte (unat b)"
  using hex_digit_facts [OF unat_byte(1) [of b]] hex_digit_facts [OF unat_byte(2) [of b]]
  by (simp add: format_mac_compact_def hex_byte_def)

lemma format_append: "format_mac_compact (s @ t) = format_mac_compact s @ format_mac_compact t"
  by (simp add: format_mac_compact_def)

lemma format_colon [simp]: "format_mac_compact '':'' = []"
  by (simp add: format_mac_compact_def)

lemma format_mac_text: "format_mac_compact (mac_text bs) = concat (map (\<lambda>b. hex_byte (unat b)) bs)"
proof (induction bs rule: mac_text.induct)
  case 1
  then show ?case by (simp add: format_mac_compact_def)
next
  case (2 b)
  then show ?case by simp
next
  case (3 b v va)
  have "format_mac_compact (mac_text (b # v # va)) =
      hex_byte (unat b) @ format_mac_compact '':'' @ format_mac_compact (mac_text (v # va))"
    by (simp only: mac_text.simps format_append format_hex_byte)
  with 3 show ?case by simp
qed

lemma hex_byte_inj: "hex_byte (unat a) = hex_byte (unat b) \<Longrightarrow> a = (b :: 8 word)"
proof -
  assume "hex_byte (unat a) = hex_byte (unat b)"
  then have "hex_value (hex_digit (unat a div 16)) = hex_value (hex_digit (unat b div 16))"
    "hex_value (hex_digit (unat a mod 16)) = hex_value (hex_digit (unat b mod 16))"
    by (simp_all add: hex_byte_def)
  then have "unat a div 16 = unat b div 16" "unat a mod 16 = unat b mod 16"
    using unat_byte [of a] unat_byte [of b] by (simp_all add: hex_value_digit)
  then have "unat a = unat b" by (metis div_mult_mod_eq)
  then show "a = b" by (simp add: word_unat_eq_iff)
qed

lemma hex_bytes_inj:
  "length as = length bs \<Longrightarrow> concat (map (\<lambda>b. hex_byte (unat b)) as) = concat (map (\<lambda>b. hex_byte (unat b)) bs) \<Longrightarrow>
   as = (bs :: 8 word list)"
proof (induction as bs rule: list_induct2)
  case Nil
  then show ?case by simp
next
  case (Cons a as b bs)
  have "hex_byte (unat a) = hex_byte (unat b)" using Cons.prems by (simp add: hex_byte_def)
  with hex_byte_inj [OF this] Cons show ?case by simp
qed

lemma hex_bytes_chars: "\<forall>c \<in> set (concat (map (\<lambda>b. hex_byte (unat (b :: 8 word))) bs)). id_char c"
  using hex_digit_facts(1) [OF unat_byte(1)] hex_digit_facts(1) [OF unat_byte(2)] by (auto simp: hex_byte_def)

lemma length_hex_bytes: "length (concat (map (\<lambda>b. hex_byte (unat (b :: 8 word))) bs)) = 2 * length bs"
  by (induction bs) (simp_all add: hex_byte_def)

lemma drop_hex_bytes:
  "drop (2 * n) (concat (map (\<lambda>b. hex_byte (unat (b :: 8 word))) bs)) = concat (map (\<lambda>b. hex_byte (unat b)) (drop n bs))"
proof (induction n arbitrary: bs)
  case (Suc n)
  then show ?case by (cases bs) (simp_all add: hex_byte_def)
qed simp

text \<open>A machine whose address is known: the identifier ends with its last three bytes.\<close>

lemma generate_suffix:
  assumes "get_first_hardware_mac m = mac_text a" and "length a = 6"
  shows "\<exists>u. generate m = u @ concat (map (\<lambda>b. hex_byte (unat b)) (drop 3 a))"
proof -
  let ?mac = "format_mac_compact (mac_text a)"
  obtain b bs where a: "a = b # bs" using assms(2) by (cases a) auto
  then have ne: "mac_text a \<noteq> []" by (cases bs) (simp_all add: hex_byte_def)
  have l: "length ?mac = 12" using assms(2) by (simp add: format_mac_text length_hex_bytes)
  have d: "drop (length ?mac - 6) ?mac = concat (map (\<lambda>b. hex_byte (unat b)) (drop 3 a))"
    using drop_hex_bytes [of 3 a] l by (simp add: format_mac_text)
  obtain p where "generate m = clean_id (cut_id p ?mac)"
    using assms(1) ne by (auto simp: generate_def Let_def)
  moreover obtain u where "cut_id p ?mac = u @ drop (length ?mac - 6) ?mac" using cut_id_suffix by blast
  ultimately have "generate m = clean_id u @ clean_id (concat (map (\<lambda>b. hex_byte (unat b)) (drop 3 a)))"
    by (simp only: d clean_id_append)
  then show ?thesis using clean_id_id [OF hex_bytes_chars] by metis
qed

section \<open>Properties\<close>

text \<open>
  C34. The generated identifier is never empty, has at most 32 characters, and consists of
  letters, digits, underscores and hyphens, whatever the host name and the interfaces are.
\<close>

theorem generated_id_well_formed:
  assumes "in_int64 (ma_time m)"
  shows "generate m \<noteq> [] \<and> length (generate m) \<le> 32 \<and> (\<forall>c \<in> set (generate m). id_char c)"
proof (cases "get_hostname_prefix m = [] \<and> get_first_hardware_mac m = []")
  case True
  then show ?thesis
    using show_int_length [OF assms] show_int_id_chars [of "ma_time m"]
    by (auto simp: generate_def id_char_def is_alnum_def is_lower_def code_of_def)
next
  case False
  then obtain p q where g: "generate m = clean_id (cut_id p q)" by (auto simp: generate_def Let_def)
  have "cut_id p q \<noteq> []" by (simp add: cut_id_def Let_def)
  then have "generate m \<noteq> []" by (simp add: g clean_id_def)
  then show ?thesis using g length_cut_id clean_id_chars by simp
qed

definition demo_machine :: machine where
  "demo_machine = \<lparr>ma_apple = False, ma_hostname = Some ''Server.local'',
     ma_interfaces = Some [\<lparr>if_name = ''lo'', if_link = True, if_addr = [0, 0, 0, 0, 0, 0]\<rparr>,
       \<lparr>if_name = ''eth0'', if_link = True, if_addr = [2, 66, 172, 17, 0, 255]\<rparr>], ma_time = 1700000000\<rparr>"

theorem generated_id_well_formed_witness: "length (generate demo_machine) \<le> 32"
  using generated_id_well_formed [of demo_machine] by (simp add: demo_machine_def in_int64_def)

text \<open>
  Two machines with real interfaces whose hardware addresses differ in the last three
  bytes get different identifiers, whatever their host names are and however they are cut.
\<close>

theorem generated_ids_distinct:
  assumes "get_first_hardware_mac m = mac_text a" and "get_first_hardware_mac m' = mac_text a'"
    and "length a = 6" and "length a' = 6" and "drop 3 a \<noteq> drop 3 a'"
  shows "generate m \<noteq> generate m'"
proof
  assume "generate m = generate m'"
  with generate_suffix [OF assms(1,3)] generate_suffix [OF assms(2,4)] obtain u u' where
    "u @ concat (map (\<lambda>b. hex_byte (unat b)) (drop 3 a)) = u' @ concat (map (\<lambda>b. hex_byte (unat b)) (drop 3 a'))"
    by metis
  then have "concat (map (\<lambda>b. hex_byte (unat b)) (drop 3 a)) = concat (map (\<lambda>b. hex_byte (unat b)) (drop 3 a'))"
    using assms(3,4) by (subst (asm) append_eq_append_conv) (auto simp: length_hex_bytes)
  then have "drop 3 a = drop 3 a'" using assms(3,4) by (intro hex_bytes_inj) auto
  with assms(5) show False by blast
qed

theorem generated_ids_distinct_witness:
  "generate demo_machine \<noteq> generate (demo_machine\<lparr>ma_interfaces :=
     Some [\<lparr>if_name = ''eth0'', if_link = True, if_addr = [2, 66, 172, 17, 0, 7]\<rparr>]\<rparr>)"
  by (rule generated_ids_distinct [of _ "[2, 66, 172, 17, 0, 255]" _ "[2, 66, 172, 17, 0, 7]"])
     (simp_all add: demo_machine_def get_first_hardware_mac_def linux_hardware_mac_def first_mac_def
       is_virtual_interface_def virtual_prefixes_def starts_with_def valid_mac_def)

end
