(* ===== verification/Http.thy ===== *)
theory Http
  imports Updater Config Actions
begin

text \<open>
  Requests to the cloud's REST API (\<open>src/thinr/auth/auth_manager.cpp\<close>, lines 26 to 508):
  the error classes, plain and form requests, the retry without certificate verification,
  and the helpers on hosts and responses. The HTTP client, the base64 decoder, the random
  numbers and the clock are parameters; each acts on a state of the outside world.
\<close>

section \<open>Requests\<close>

datatype auth_error = NoError | InvalidCredentials | AccessDenied | NotFound | NetworkError | TokenExpired
  | UserDenied | Timeout | InvalidResponse | ServerError | SslError

record http_request =
  rq_url :: string
  rq_method :: string
  rq_body :: string
  rq_type :: string
  rq_auth :: string
  rq_verify :: bool

record http_response =
  rs_status :: int
  rs_body :: string
  rs_success :: bool

text \<open>
  The environment of the manager. \<open>ae_callback\<close> is the optional question whether to go on
  without verification; \<open>ae_b64\<close> is the decoder of OpenSSL, \<open>None\<close> when it yields nothing;
  \<open>ae_dice\<close> draws the index of one of \<open>n\<close> characters; \<open>ae_sleep\<close> takes seconds.
\<close>

record 'w auth_env =
  ae_http :: "http_request \<Rightarrow> 'w \<Rightarrow> http_out \<times> 'w"
  ae_callback :: "(string \<Rightarrow> 'w \<Rightarrow> bool \<times> 'w) option"
  ae_parse :: "string \<Rightarrow> json option"
  ae_dump :: "json \<Rightarrow> string"
  ae_what :: "exn \<Rightarrow> string"
  ae_b64 :: "string \<Rightarrow> string option"
  ae_dice :: "nat \<Rightarrow> 'w \<Rightarrow> nat \<times> 'w"
  ae_now :: "'w \<Rightarrow> int"
  ae_sleep :: "int \<Rightarrow> 'w \<Rightarrow> 'w"
  ae_hostname :: string
  ae_os :: string

definition map_status_to_error :: "int \<Rightarrow> auth_error" where
  "map_status_to_error status =
     (if status = 401 then InvalidCredentials
      else if status = 403 then AccessDenied
      else if status = 404 then NotFound
      else if status \<ge> 500 then ServerError
      else NetworkError)"

definition classify_text :: "string \<Rightarrow> auth_error" where
  "classify_text msg =
     (if contains_sub ''SSL'' msg \<or> contains_sub ''TLS'' msg \<or> contains_sub ''certificate'' msg \<or>
         contains_sub ''handshake'' msg \<or> contains_sub ''verification failed'' msg then SslError
      else if contains_sub ''timeout'' msg \<or> contains_sub ''Timeout'' msg then Timeout
      else NetworkError)"

definition classify_exception :: "'w auth_env \<Rightarrow> exn \<Rightarrow> auth_error" where
  "classify_exception E e = classify_text (what_of (ae_what E) e)"

text \<open>One exchange: errors of the client become exceptions.\<close>

definition exchange :: "'w auth_env \<Rightarrow> http_request \<Rightarrow> ('w, http_response) act" where
  "exchange E q = (\<lambda>w.
     case ae_http E q w of
       (HttpThrows e, w') \<Rightarrow> (Inl e, w')
     | (HttpError msg, w') \<Rightarrow> (Inl (RuntimeError (''HTTP request failed: '' @ msg)), w')
     | (HttpResponse status body, w') \<Rightarrow>
         (Inr \<lparr>rs_status = status, rs_body = body, rs_success = True\<rparr>, w'))"

definition make_http_request ::
    "'w auth_env \<Rightarrow> string \<Rightarrow> string \<Rightarrow> json \<Rightarrow> string \<Rightarrow> bool \<Rightarrow> ('w, http_response) act" where
  "make_http_request E url meth payload authorization verify =
     (let q = \<lparr>rq_url = url, rq_method = meth, rq_body = [], rq_type = [], rq_auth = authorization,
               rq_verify = verify\<rparr>
      in if meth = ''GET'' then exchange E q
         else if meth = ''POST'' then
           exchange E (q\<lparr>rq_body := (if jempty payload then [] else ae_dump E payload),
             rq_type := ''application/json''\<rparr>)
         else if meth = ''DELETE'' then exchange E q
         else athrow (RuntimeError (''Unsupported HTTP method: '' @ meth)))"

text \<open>Only the spaces of the values are encoded.\<close>

definition encode_value :: "string \<Rightarrow> string" where
  "encode_value v = map (\<lambda>c. if c = CHR '' '' then CHR ''+'' else c) v"

fun form_body :: "(string \<times> string) list \<Rightarrow> string" where
  "form_body [] = []"
| "form_body [(k, v)] = k @ ''='' @ encode_value v"
| "form_body ((k, v) # kvs) = k @ ''='' @ encode_value v @ ''&'' @ form_body kvs"

definition make_http_request_form ::
    "'w auth_env \<Rightarrow> string \<Rightarrow> string \<Rightarrow> string smap \<Rightarrow> string \<Rightarrow> bool \<Rightarrow> ('w, http_response) act" where
  "make_http_request_form E url meth form authorization verify =
     (if meth = ''POST'' then
        exchange E \<lparr>rq_url = url, rq_method = meth, rq_body = form_body form,
          rq_type = ''application/x-www-form-urlencoded'', rq_auth = authorization, rq_verify = verify\<rparr>
      else athrow (RuntimeError (''Unsupported HTTP method for form data: '' @ meth)))"

text \<open>
  The retry: a failure of the certificate check is put to the callback, and only its consent
  repeats the request without verification.
\<close>

definition ssl_fallback :: "'w auth_env \<Rightarrow> (bool \<Rightarrow> ('w, 'a) act) \<Rightarrow> ('w, 'a) act" where
  "ssl_fallback E send =
     acatch (send True) (\<lambda>e.
       if classify_exception E e \<noteq> SslError then athrow e
       else case ae_callback E of
              None \<Rightarrow> athrow e
            | Some ask \<Rightarrow> (\<lambda>w. case ask (what_of (ae_what E) e) w of
                (True, w') \<Rightarrow> send False w'
              | (False, w') \<Rightarrow>
                  (Inl (RuntimeError (''SSL verification failed and insecure connection was not allowed: '' @
                     what_of (ae_what E) e)), w')))"

definition make_http_request_with_fallback ::
    "'w auth_env \<Rightarrow> string \<Rightarrow> string \<Rightarrow> json \<Rightarrow> string \<Rightarrow> ('w, http_response) act" where
  "make_http_request_with_fallback E url meth payload authorization =
     ssl_fallback E (make_http_request E url meth payload authorization)"

definition make_http_request_form_with_fallback ::
    "'w auth_env \<Rightarrow> string \<Rightarrow> string \<Rightarrow> string smap \<Rightarrow> string \<Rightarrow> ('w, http_response) act" where
  "make_http_request_form_with_fallback E url meth form authorization =
     ssl_fallback E (make_http_request_form E url meth form authorization)"

section \<open>Helpers\<close>

definition ensure_https :: "string \<Rightarrow> string" where
  "ensure_https host = (if contains_sub ''://'' host then host else ''https://'' @ host)"

text \<open>
  \<open>extract_host_from_url\<close>, the regular expression \<open>^(?:https?://)?([^/]+)(?:/.*)?$\<close>: the scheme is
  taken when the rest still matches; a dot matches no line end.
\<close>

definition match_host :: "string \<Rightarrow> string option" where
  "match_host s =
     (let host = takeWhile (\<lambda>c. c \<noteq> CHR ''/'') s; rest = dropWhile (\<lambda>c. c \<noteq> CHR ''/'') s in
      if host \<noteq> [] \<and> CHR 0x0A \<notin> set rest \<and> CHR 0x0D \<notin> set rest then Some host else None)"

definition extract_host_from_url :: "string \<Rightarrow> string" where
  "extract_host_from_url url =
     (let scheme = (if starts_with ''https://'' url then match_host (drop 8 url)
                    else if starts_with ''http://'' url then match_host (drop 7 url) else None)
      in case scheme of
           Some h \<Rightarrow> h
         | None \<Rightarrow> (case match_host url of Some h \<Rightarrow> h | None \<Rightarrow> url))"

definition parse_response :: "'w auth_env \<Rightarrow> http_response \<Rightarrow> string \<Rightarrow> json res" where
  "parse_response E r operation =
     (case ae_parse E (rs_body r) of
        Some j \<Rightarrow> Inr j
      | None \<Rightarrow> Inl (RuntimeError (operation @ '' response parse error: '' @ ae_what E JsonParseError)))"

text \<open>The pieces \<open>std::getline\<close> with a delimiter yields: a last empty piece is none.\<close>

definition pieces :: "char \<Rightarrow> string \<Rightarrow> string list" where
  "pieces d s = (let ps = split_on d s in if last ps = [] then butlast ps else ps)"

definition pad4 :: "string \<Rightarrow> string" where
  "pad4 s = s @ replicate ((4 - length s mod 4) mod 4) (CHR ''='')"

definition decode_jwt_payload :: "'w auth_env \<Rightarrow> string \<Rightarrow> json res" where
  "decode_jwt_payload E token =
     (case pieces (CHR ''.'') token of
        [a, payload, c] \<Rightarrow>
          (case ae_b64 E (pad4 payload) of
             None \<Rightarrow> Inl (RuntimeError ''Failed to decode JWT payload'')
           | Some bytes \<Rightarrow> (case ae_parse E bytes of None \<Rightarrow> Inl JsonParseError | Some j \<Rightarrow> Inr j))
      | _ \<Rightarrow> Inl (RuntimeError ''Invalid JWT format''))"

definition credential_chars :: string where
  "credential_chars = ''ABCDEFGHIJKLMNOPQRSTUVWXYZabcdefghijklmnopqrstuvwxyz0123456789#-&$@%''"

fun draw :: "'w auth_env \<Rightarrow> nat \<Rightarrow> 'w \<Rightarrow> string \<times> 'w" where
  "draw E 0 w = ([], w)"
| "draw E (Suc n) w =
     (let (i, w1) = ae_dice E (length credential_chars) w; (cs, w2) = draw E n w1
      in (credential_chars ! i # cs, w2))"

definition generate_device_credentials :: "'w auth_env \<Rightarrow> ('w, string) act" where
  "generate_device_credentials E = (\<lambda>w. let (cs, w') = draw E 16 w in (Inr cs, w'))"

section \<open>The log of an environment\<close>

text \<open>An environment that keeps a log of the exchanges and of the questions of another one.\<close>

datatype event = Sent http_request http_out | Asked string bool

definition logged :: "'w auth_env \<Rightarrow> ('w \<times> event list) auth_env" where
  "logged E = \<lparr>
     ae_http = (\<lambda>q (w, l). case ae_http E q w of (out, w') \<Rightarrow> (out, (w', l @ [Sent q out]))),
     ae_callback = map_option (\<lambda>ask m (w, l). case ask m w of (b, w') \<Rightarrow> (b, (w', l @ [Asked m b]))) (ae_callback E),
     ae_parse = ae_parse E, ae_dump = ae_dump E, ae_what = ae_what E, ae_b64 = ae_b64 E,
     ae_dice = (\<lambda>n (w, l). case ae_dice E n w of (i, w') \<Rightarrow> (i, (w', l))),
     ae_now = (\<lambda>(w, l). ae_now E w),
     ae_sleep = (\<lambda>n (w, l). (ae_sleep E n w, l)),
     ae_hostname = ae_hostname E, ae_os = ae_os E\<rparr>"

lemma logged_sel [simp]:
  "ae_parse (logged E) = ae_parse E" "ae_dump (logged E) = ae_dump E" "ae_what (logged E) = ae_what E"
  "ae_b64 (logged E) = ae_b64 E"
  "ae_hostname (logged E) = ae_hostname E" "ae_os (logged E) = ae_os E"
  by (simp_all add: logged_def)

lemma logged_callback: "ae_callback (logged E) =
    map_option (\<lambda>ask m (w, l). case ask m w of (b, w') \<Rightarrow> (b, (w', l @ [Asked m b]))) (ae_callback E)"
  by (simp add: logged_def)

lemma classify_logged [simp]: "classify_exception (logged E) = classify_exception E"
  by (simp add: classify_exception_def fun_eq_iff)

lemma parse_response_logged [simp]: "parse_response (logged E) = parse_response E"
  by (intro ext) (simp add: parse_response_def split: option.split)

lemma decode_logged [simp]: "decode_jwt_payload (logged E) = decode_jwt_payload E"
  by (intro ext) (simp add: decode_jwt_payload_def split: list.split option.split)

text \<open>Every request without verification follows directly on a consent.\<close>

fun consented :: "bool \<Rightarrow> event list \<Rightarrow> bool" where
  "consented ok [] = True"
| "consented ok (Sent q out # es) = ((rq_verify q \<or> ok) \<and> consented False es)"
| "consented ok (Asked m b # es) = consented b es"

definition log_ok :: "'w \<times> event list \<Rightarrow> bool" where
  "log_ok wl \<longleftrightarrow> consented False (snd wl)"

lemma consented_append_verified:
  "rq_verify q \<Longrightarrow> consented ok (l @ Sent q out # es) = (consented ok l \<and> consented False es)"
  by (induction ok l rule: consented.induct) auto

text \<open>The events one request with its possible retry adds to the log, and its result.\<close>

definition request_events :: "(bool \<Rightarrow> http_request) \<Rightarrow> event list \<Rightarrow> bool" where
  "request_events Q es \<longleftrightarrow>
     (\<exists>out. es = [Sent (Q True) out]) \<or>
     (\<exists>out m. es = [Sent (Q True) out, Asked m False]) \<or>
     (\<exists>out m out'. es = [Sent (Q True) out, Asked m True, Sent (Q False) out'])"

lemma exchange_logged:
  "exchange (logged E) q (w, l) = (r, w') \<Longrightarrow>
   \<exists>out w1. w' = (w1, l @ [Sent q out]) \<and>
     (\<forall>rs. r = Inr rs \<longrightarrow> out = HttpResponse (rs_status rs) (rs_body rs) \<and> rs_success rs) \<and>
     ((\<exists>s b. out = HttpResponse s b) \<longrightarrow> (\<exists>rs. r = Inr rs))"
  by (auto simp: exchange_def logged_def split: prod.splits http_out.splits)

lemma fallback_logged:
  assumes "ssl_fallback (logged E) (\<lambda>v. exchange (logged E) (Q v)) (w, l) = (r, w')"
  shows "\<exists>es w1. w' = (w1, l @ es) \<and> request_events Q es \<and>
    (\<forall>rs. r = Inr rs \<longrightarrow> rs_success rs \<and> (\<exists>v. Sent (Q v) (HttpResponse (rs_status rs) (rs_body rs)) \<in> set es)) \<and>
    (\<forall>v s b. Sent (Q v) (HttpResponse s b) \<in> set es \<longrightarrow> (\<exists>rs. r = Inr rs \<and> rs_status rs = s \<and> rs_body rs = b) \<or> v)"
  using assms unfolding ssl_fallback_def
proof (cases rule: acatch_cases)
  case (returned x)
  with exchange_logged [OF returned(1)] show ?thesis
    by (fastforce simp: request_events_def)
next
  case (thrown e w1)
  from exchange_logged [OF thrown(1)] obtain out w2 where w1: "w1 = (w2, l @ [Sent (Q True) out])"
    and no: "\<nexists>s b. out = HttpResponse s b" by auto
  show ?thesis
  proof (cases "classify_exception E e \<noteq> SslError \<or> ae_callback E = None")
    case True
    then have "(r, w') = (Inl e, w1)"
      using thrown(2) by (auto simp: logged_callback athrow_def split: if_splits)
    with w1 no show ?thesis by (auto simp: request_events_def)
  next
    case False
    then obtain ask where ask: "ae_callback E = Some ask" and c: "classify_exception E e = SslError" by auto
    obtain b w3 where a: "ask (what_of (ae_what E) e) w2 = (b, w3)" by fastforce
    let ?l = "l @ [Sent (Q True) out, Asked (what_of (ae_what E) e) b]"
    show ?thesis
    proof (cases b)
      case True
      then have "exchange (logged E) (Q False) (w3, ?l) = (r, w')"
        using thrown(2) ask c a w1 by (simp add: logged_callback)
      from exchange_logged [OF this] True w1 no show ?thesis
        by (fastforce simp: request_events_def)
    next
      case False
      then have "w' = (w3, ?l) \<and> (\<exists>x. r = Inl x)"
        using thrown(2) ask c a w1 by (auto simp: logged_callback)
      with False no show ?thesis by (auto simp: request_events_def)
    qed
  qed
qed

definition json_request :: "'w auth_env \<Rightarrow> string \<Rightarrow> string \<Rightarrow> json \<Rightarrow> string \<Rightarrow> bool \<Rightarrow> http_request" where
  "json_request E url meth payload authorization verify =
     (if meth = ''POST'' then
        \<lparr>rq_url = url, rq_method = meth, rq_body = (if jempty payload then [] else ae_dump E payload),
         rq_type = ''application/json'', rq_auth = authorization, rq_verify = verify\<rparr>
      else \<lparr>rq_url = url, rq_method = meth, rq_body = [], rq_type = [], rq_auth = authorization, rq_verify = verify\<rparr>)"

lemma make_request_json:
  "meth \<in> {''GET'', ''POST'', ''DELETE''} \<Longrightarrow>
   make_http_request E url meth payload au = (\<lambda>v. exchange E (json_request E url meth payload au v))"
  by (auto simp: make_http_request_def json_request_def Let_def)

lemma json_request_sel [simp]:
  "rq_url (json_request E url meth payload au v) = url" "rq_method (json_request E url meth payload au v) = meth"
  "rq_verify (json_request E url meth payload au v) = v" "rq_auth (json_request E url meth payload au v) = au"
  by (simp_all add: json_request_def)

lemma json_request_logged [simp]: "json_request (logged E) = json_request E"
  by (intro ext) (simp add: json_request_def)

lemma request_events_ok:
  assumes "request_events Q es" and "\<And>v. rq_verify (Q v) = v" and "consented False l"
  shows "consented False (l @ es)"
proof -
  have "rq_verify (Q True)" using assms(2) by simp
  with assms(1,3) show ?thesis
    unfolding request_events_def by (elim disjE exE) (simp_all add: consented_append_verified)
qed

lemma keeps_logI:
  "(\<And>w l. consented False l \<Longrightarrow> consented False (snd (snd (m (w, l))))) \<Longrightarrow> keeps log_ok m"
  by (auto simp: keeps_def log_ok_def)

lemma keeps_fallback:
  fixes E :: "'w auth_env"
  assumes "\<And>v. rq_verify (Q v) = v"
  shows "keeps log_ok (ssl_fallback (logged E) (\<lambda>v. exchange (logged E) (Q v)))"
proof (rule keeps_logI)
  fix w :: 'w and l assume ok: "consented False l"
  obtain r w' where run: "ssl_fallback (logged E) (\<lambda>v. exchange (logged E) (Q v)) (w, l) = (r, w')"
    by (rule prod.exhaust)
  from fallback_logged [OF run] obtain es w1 where "w' = (w1, l @ es)" and ev: "request_events Q es"
    by (elim exE conjE) (rule that)
  with request_events_ok [OF ev assms ok]
  show "consented False (snd (snd (ssl_fallback (logged E) (\<lambda>v. exchange (logged E) (Q v)) (w, l))))"
    by (simp add: run)
qed

lemma keeps_request [keeps_intros]:
  "meth \<in> {''GET'', ''POST'', ''DELETE''} \<Longrightarrow>
   keeps log_ok (make_http_request_with_fallback (logged E) url meth payload au)"
  unfolding make_http_request_with_fallback_def by (simp only: make_request_json) (rule keeps_fallback, simp)

lemma keeps_form [keeps_intros]:
  "keeps log_ok (make_http_request_form_with_fallback (logged E) url ''POST'' form au)"
  unfolding make_http_request_form_with_fallback_def make_http_request_form_def
  by (simp only: refl if_True) (rule keeps_fallback, simp)

lemma draw_log: "\<exists>cs w'. draw (logged E) n (w, l) = (cs, (w', l))"
proof (induction n arbitrary: w)
  case (Suc n)
  obtain i w1 where "ae_dice E (length credential_chars) w = (i, w1)" by fastforce
  moreover obtain cs w2 where "draw (logged E) n (w1, l) = (cs, (w2, l))" using Suc.IH by blast
  ultimately show ?case by (simp add: logged_def del: draw.simps(2)) (subst draw.simps(2), simp)
qed simp

lemma keeps_generate [keeps_intros]: "keeps log_ok (generate_device_credentials (logged E))"
proof (rule keeps_logI)
  fix w l assume "consented False l"
  moreover obtain cs w' where "draw (logged E) 16 (w, l) = (cs, (w', l))" using draw_log [of E 16 w l] by blast
  ultimately show "consented False (snd (snd (generate_device_credentials (logged E) (w, l))))"
    by (simp add: generate_device_credentials_def)
qed

text \<open>The host comes back from the address the manager makes of it.\<close>

lemma host_extracted:
  assumes "host \<noteq> []" and "CHR ''/'' \<notin> set host"
  shows "extract_host_from_url (ensure_https host) = host"
proof -
  have "host = u @ ''://'' @ v \<Longrightarrow> False" for u v using assms(2) by auto
  then have "ensure_https host = ''https://'' @ host" unfolding ensure_https_def contains_sub_iff by (metis (no_types))
  moreover have "match_host host = Some host"
  proof -
    have t: "takeWhile (\<lambda>c. c \<noteq> CHR ''/'') host = host" and d: "dropWhile (\<lambda>c. c \<noteq> CHR ''/'') host = []"
      using assms(2) by (auto simp: takeWhile_eq_all_conv dropWhile_eq_Nil_conv)
    show ?thesis unfolding match_host_def Let_def t d using assms(1) by simp
  qed
  ultimately show ?thesis
    by (simp add: extract_host_from_url_def starts_with_def)
qed

end
