(* ===== verification/Alarm_Rules.thy ===== *)
theory Alarm_Rules
  imports Json_Values
begin

text \<open>
  The documents the agent sends to the cloud (\<open>src/thinr/auth/auth_manager.cpp\<close>): the six
  default alarm rules of \<open>default_alarm_rules\<close> and the product of
  \<open>build_default_product\<close>. The parts the rules share in the source are written once.
\<close>

section \<open>Parts of a rule\<close>

definition value_check :: "string \<Rightarrow> string \<Rightarrow> string \<Rightarrow> json" where
  "value_check field comparison v =
     jobj [(''type'', JStr ''value_check''), (''operator'', JStr ''and''), (''field'', JStr field),
       (''comparison'', JStr comparison), (''value'', JStr v)]"

definition immediate :: json where
  "immediate = jobj [(''mode'', JStr ''immediate'')]"

definition minutes :: "int \<Rightarrow> json" where
  "minutes n = jobj [(''magnitude'', JStr ''minute''), (''value'', JInt n)]"

definition mean_over :: "string \<Rightarrow> json" where
  "mean_over period = jobj [(''period'', JStr period), (''type'', JStr ''mean'')]"

definition bucket_source :: "string \<Rightarrow> json \<Rightarrow> json" where
  "bucket_source mapping aggregation =
     jobj [(''name'', JStr ''monitoring''), (''source'', JStr ''bucket''),
       (''bucket'', jobj [(''id'', JStr ''monitoring''), (''backend'', JStr ''mongodb''),
          (''group_by'', JArr [JStr ''device'']), (''mapping'', JArr [JStr mapping]),
          (''aggregation'', aggregation),
          (''tags'', jobj [(''device'', JArr []), (''group'', JArr [])])])]"

definition alarm_rule ::
    "string \<Rightarrow> string \<Rightarrow> string \<Rightarrow> json list \<Rightarrow> int \<Rightarrow> json list \<Rightarrow> json \<Rightarrow> int \<Rightarrow> json" where
  "alarm_rule rule name description conditions interval sources normalization severity =
     jobj [(''rule'', JStr rule), (''name'', JStr name), (''description'', JStr description), (''enabled'', JBool True),
       (''config'', jobj [
          (''activation'', jobj [(''conditions'', JArr conditions), (''confirmation'', immediate),
             (''notifications'', JArr [])]),
          (''check_interval'', minutes interval),
          (''data'', jobj [(''sources'', JArr sources)]),
          (''normalization'', jobj [(''conditions'', JArr []), (''confirmation'', normalization),
             (''notifications'', JArr [])]),
          (''reminder'', jobj [(''type'', JStr ''none''), (''notifications'', JArr [])]),
          (''severity'', JInt severity)])]"

section \<open>The rules\<close>

definition high_cpu :: json where
  "high_cpu = alarm_rule ''high_cpu'' ''High CPU''
     ''CPU usage above 85% averaged over 5 minutes''
     [value_check ''monitoring.cpu.usage'' ''above'' ''85'']
     1 [bucket_source ''cpu.usage'' (mean_over ''5m'')] immediate 2"

definition high_memory :: json where
  "high_memory = alarm_rule ''high_memory'' ''High Memory''
     ''Memory usage above 80% averaged over 5 minutes''
     [value_check ''monitoring.memory.usage'' ''above'' ''80'']
     1 [bucket_source ''memory.usage'' (mean_over ''5m'')] immediate 2"

definition high_disk :: json where
  "high_disk = alarm_rule ''high_disk'' ''High Disk Usage''
     ''Root filesystem usage above 75% averaged over 5 minutes''
     [value_check ''monitoring.disk.root.usage'' ''above'' ''75'']
     30 [bucket_source ''disk.root.usage'' (mean_over ''5m'')] immediate 2"

definition high_swap :: json where
  "high_swap = alarm_rule ''high_swap'' ''High Swap Usage''
     ''Swap usage above 50% averaged over 5 minutes (devices with swap configured)''
     [value_check ''monitoring.memory.swap.usage'' ''present'' ''0'', value_check ''monitoring.memory.swap.usage'' ''above'' ''50'']
     1 [bucket_source ''memory.swap.usage'' (mean_over ''5m'')] immediate 2"

definition high_cpu_temperature :: json where
  "high_cpu_temperature = alarm_rule ''high_cpu_temperature'' ''High CPU Temperature''
     (''CPU temperature above 80'' @ [CHR 0xC2, CHR 0xB0] @ ''C averaged over 5 minutes (devices with thermal sensor)'')
     [value_check ''monitoring.cpu.temperature'' ''present'' ''0'', value_check ''monitoring.cpu.temperature'' ''above'' ''80'']
     1 [bucket_source ''cpu.temperature'' (mean_over ''5m'')] immediate 2"

definition device_status_source :: json where
  "device_status_source =
     jobj [(''name'', JStr ''device''), (''source'', JStr ''device_status''),
       (''device_status'', jobj [(''asset_group'', JArr []), (''asset_type'', JArr []), (''device'', JArr []),
          (''product'', JArr []), (''project'', JArr [])])]"

definition missing_bucket_data :: json where
  "missing_bucket_data = alarm_rule ''missing_bucket_data'' ''Missing Monitoring Data''
     ''Enabled devices not reporting monitoring data''
     [value_check ''device.enabled'' ''equal'' ''1'', value_check ''monitoring.cpu.usage'' ''absent'' ''0'']
     1 [device_status_source, bucket_source ''cpu.usage'' (jobj [(''period'', JStr ''10m'')])]
     (jobj [(''mode'', JStr ''timespan''), (''timespan'', minutes 5)]) 3"

definition default_alarm_rules :: "json list" where
  "default_alarm_rules =
     [high_cpu, high_memory, high_disk, high_swap, high_cpu_temperature, missing_bucket_data]"

section \<open>The product\<close>

definition build_default_product :: "string \<Rightarrow> string \<Rightarrow> json" where
  "build_default_product product_id product_name =
     jobj [(''product'', JStr product_id), (''name'', JStr product_name),
       (''description'', JStr ''ThinRemote Linux monitoring agent''), (''enabled'', JBool True),
       (''config'', jobj [(''type'', JStr ''thinremote''),
          (''icons'', JArr [jobj [(''conditions'', JArr []),
             (''icon'', jobj [(''type'', JStr ''fa''), (''source'', JStr ''fab fa-linux''),
                (''color'', JStr ''#000000''), (''background'', JStr ''#ffffff'')])]])]),
       (''profile'', jobj [(''buckets'', jobj [(''monitoring'', jobj [
          (''name'', JStr ''Monitoring Data''), (''description'', JStr ''ThinRemote device metrics''),
          (''enabled'', JBool True), (''backend'', JStr ''mongodb''),
          (''data'', jobj [(''source'', JStr ''resource''), (''resource'', JStr ''monitoring''),
             (''update'', JStr ''interval''), (''interval'', JInt 60), (''magnitude'', JStr ''second''),
             (''payload'', JStr ''{{payload}}''), (''payload_function'', JStr []),
             (''payload_type'', JStr ''source_payload'')]),
          (''retention'', jobj [(''period'', JInt 3), (''unit'', JStr ''months'')]),
          (''tags'', JArr [])])])])]"

section \<open>Lemmas\<close>

lemma rule_of_alarm_rule [simp]:
  "jfind (alarm_rule r n d cs i ss no sv) ''rule'' = Some (JStr r)"
  by (simp add: alarm_rule_def)

lemma alarm_rule_kind [simp]: "is_object (alarm_rule r n d cs i ss no sv)" "\<not> jempty (alarm_rule r n d cs i ss no sv)"
proof -
  show "is_object (alarm_rule r n d cs i ss no sv)" by (simp add: alarm_rule_def)
  then show "\<not> jempty (alarm_rule r n d cs i ss no sv)"
    using rule_of_alarm_rule [of r n d cs i ss no sv]
    by (cases "alarm_rule r n d cs i ss no sv") (auto simp: smap_get_def)
qed

lemmas rule_defs = high_cpu_def high_memory_def high_disk_def high_swap_def high_cpu_temperature_def
  missing_bucket_data_def

definition rule_names :: "string list" where
  "rule_names = [''high_cpu'', ''high_memory'', ''high_disk'', ''high_swap'', ''high_cpu_temperature'',
     ''missing_bucket_data'']"

lemma default_rule_names:
  "map (\<lambda>r. jvalue get_string r ''rule'' []) default_alarm_rules = map Inr rule_names"
  by (simp add: default_alarm_rules_def rule_names_def rule_defs jvalue_present [OF rule_of_alarm_rule])

lemma rule_names_distinct: "distinct rule_names" "[] \<notin> set rule_names" "length rule_names = 6"
  by (simp_all add: rule_names_def)

end
