(* ===== verification/Auth.thy ===== *)
theory Auth
  imports Http Alarm_Rules
begin

text \<open>
  The operations of the authentication manager (\<open>src/thinr/auth/auth_manager.cpp\<close>): the
  two OAuth flows, provisioning, products and alarm rules. Each is an action on the world of
  the HTTP client; the results are the records of \<open>auth_manager.hpp\<close>.
\<close>

section \<open>Results\<close>

record auth_result =
  au_success :: bool
  au_error :: auth_error
  au_status :: int
  au_token :: string
  au_detail :: string

definition auth_failed :: "auth_error \<Rightarrow> int \<Rightarrow> string \<Rightarrow> auth_result" where
  "auth_failed e status detail =
     \<lparr>au_success = False, au_error = e, au_status = status, au_token = [], au_detail = detail\<rparr>"

definition auth_granted :: "int \<Rightarrow> string \<Rightarrow> auth_result" where
  "auth_granted status tok =
     \<lparr>au_success = True, au_error = NoError, au_status = status, au_token = tok, au_detail = []\<rparr>"

record provision_result =
  pv_success :: bool
  pv_status :: int
  pv_credentials :: credentials

definition not_provisioned :: "int \<Rightarrow> provision_result" where
  "not_provisioned status = \<lparr>pv_success = False, pv_status = status, pv_credentials = no_credentials\<rparr>"

record list_result =
  li_success :: bool
  li_status :: int
  li_items :: json

record create_result =
  ct_success :: bool
  ct_status :: int
  ct_detail :: string

record ensure_result =
  en_listed :: bool
  en_created :: int
  en_present :: int
  en_failed :: int

definition nothing_ensured :: ensure_result where
  "nothing_ensured = \<lparr>en_listed = False, en_created = 0, en_present = 0, en_failed = 0\<rparr>"

record device_auth =
  da_device_code :: string
  da_user_code :: string
  da_uri :: string
  da_expires_in :: int
  da_interval :: int

definition no_device_auth :: device_auth where
  "no_device_auth = \<lparr>da_device_code = [], da_user_code = [], da_uri = [], da_expires_in = 0, da_interval = 0\<rparr>"

record flow_result =
  fl_success :: bool
  fl_error :: auth_error
  fl_status :: int
  fl_response :: device_auth
  fl_detail :: string

definition flow_failed :: "auth_error \<Rightarrow> int \<Rightarrow> string \<Rightarrow> flow_result" where
  "flow_failed e status detail =
     \<lparr>fl_success = False, fl_error = e, fl_status = status, fl_response = no_device_auth, fl_detail = detail\<rparr>"

section \<open>Tokens\<close>

text \<open>The member \<open>access_token\<close> of a response; every exception makes it invalid.\<close>

definition token_of_response :: "'w auth_env \<Rightarrow> http_response \<Rightarrow> string \<Rightarrow> string \<Rightarrow> auth_result" where
  "token_of_response E rs operation missing =
     (case rbind (parse_response E rs operation) (\<lambda>j.
             case jfind j ''access_token'' of
               None \<Rightarrow> Inr (auth_failed InvalidResponse (rs_status rs) missing)
             | Some t \<Rightarrow> rbind (get_string t) (\<lambda>s. Inr (auth_granted (rs_status rs) s)))
      of Inl e \<Rightarrow> auth_failed InvalidResponse (rs_status rs) (what_of (ae_what E) e)
       | Inr r \<Rightarrow> r)"

definition oauth_password_flow :: "'w auth_env \<Rightarrow> string \<Rightarrow> string \<Rightarrow> string \<Rightarrow> ('w, auth_result) act" where
  "oauth_password_flow E host username password =
     abind (atry (make_http_request_form_with_fallback E (ensure_https host @ ''/oauth/token'') ''POST''
        (smap_of [(''grant_type'', ''password''), (''username'', username), (''password'', password)]) []))
       (\<lambda>r. case r of
          Inl e \<Rightarrow> aret (auth_failed (classify_exception E e) 0 (what_of (ae_what E) e))
        | Inr rs \<Rightarrow>
            if \<not> rs_success rs \<or> rs_status rs \<noteq> 200 then
              aret (auth_failed (map_status_to_error (rs_status rs)) (rs_status rs) (rs_body rs))
            else aret (token_of_response E rs ''OAuth authentication'' ''OAuth response missing access_token''))"

definition read_device_auth :: "json \<Rightarrow> device_auth res" where
  "read_device_auth j =
     rbind (jvalue get_string j ''device_code'' []) (\<lambda>d.
     rbind (jvalue get_string j ''user_code'' []) (\<lambda>u.
     rbind (jvalue get_string j ''verification_uri'' []) (\<lambda>v.
     rbind (jvalue get_int j ''expires_in'' 600) (\<lambda>x.
     rbind (jvalue get_int j ''interval'' 5) (\<lambda>i.
       Inr \<lparr>da_device_code = d, da_user_code = u, da_uri = v, da_expires_in = x, da_interval = i\<rparr>)))))"

definition start_device_flow :: "'w auth_env \<Rightarrow> string \<Rightarrow> string \<Rightarrow> ('w, flow_result) act" where
  "start_device_flow E host client_id =
     abind (atry (make_http_request_form_with_fallback E (ensure_https host @ ''/oauth/device/authorize'') ''POST''
        (smap_of [(''client_id'', client_id)]) []))
       (\<lambda>r. case r of
          Inl e \<Rightarrow> aret (flow_failed (classify_exception E e) 0 (what_of (ae_what E) e))
        | Inr rs \<Rightarrow>
            if \<not> rs_success rs \<or> rs_status rs \<noteq> 200 then
              aret (flow_failed (map_status_to_error (rs_status rs)) (rs_status rs) (rs_body rs))
            else
              (case rbind (parse_response E rs ''Device authorization'') read_device_auth of
                 Inl e \<Rightarrow> aret (flow_failed InvalidResponse (rs_status rs) (what_of (ae_what E) e))
               | Inr d \<Rightarrow>
                   if da_device_code d = [] \<or> da_user_code d = [] then
                     aret (flow_failed InvalidResponse (rs_status rs) ''Missing device_code or user_code'')
                   else aret \<lparr>fl_success = True, fl_error = NoError, fl_status = rs_status rs,
                     fl_response = d, fl_detail = []\<rparr>))"

text \<open>What one answer of the token endpoint means.\<close>

datatype poll_verdict = PollDone auth_result | PollAgain | PollSlowDown

definition poll_verdict_of :: "'w auth_env \<Rightarrow> http_response \<Rightarrow> poll_verdict" where
  "poll_verdict_of E rs =
     (if rs_success rs \<and> rs_status rs = 200 then
        PollDone (token_of_response E rs ''Token polling'' ''Token response missing access_token'')
      else if rs_status rs = 400 then
        (case Option.bind (ae_parse E (rs_body rs)) (\<lambda>j.
            case jvalue get_string j ''error'' [] of Inl _ \<Rightarrow> None | Inr e \<Rightarrow> Some e) of
           None \<Rightarrow> PollDone (auth_failed InvalidResponse (rs_status rs) (rs_body rs))
         | Some e \<Rightarrow>
             if e = ''authorization_pending'' then PollAgain
             else if e = ''slow_down'' then PollSlowDown
             else if e = ''access_denied'' then
               PollDone (auth_failed UserDenied (rs_status rs) ''User denied the authorization request'')
             else if e = ''expired_token'' then
               PollDone (auth_failed TokenExpired (rs_status rs) ''Device code expired'')
             else PollDone (auth_failed ServerError (rs_status rs) (''OAuth error: '' @ e)))
      else PollDone (auth_failed (map_status_to_error (rs_status rs)) (rs_status rs) (rs_body rs)))"

text \<open>Nanoseconds of the steady clock, as the comparison of durations uses.\<close>

definition seconds :: "int \<Rightarrow> int" where
  "seconds n = n * 1000000000"

definition token_request :: "'w auth_env \<Rightarrow> string \<Rightarrow> string \<Rightarrow> string \<Rightarrow> ('w, http_response) act" where
  "token_request E host client_id device_code =
     make_http_request_form_with_fallback E (ensure_https host @ ''/oauth/token'') ''POST''
       (smap_of [(''grant_type'', ''urn:ietf:params:oauth:grant-type:device_code''), (''client_id'', client_id),
          (''device_code'', device_code)]) []"

partial_function (option) poll_token_loop ::
    "'w auth_env \<Rightarrow> string \<Rightarrow> string \<Rightarrow> string \<Rightarrow> int \<Rightarrow> int \<Rightarrow> int \<Rightarrow> 'w \<Rightarrow> (auth_result \<times> 'w) option" where
  "poll_token_loop E host client_id device_code timeout interval start w =
     (if ae_now E w - start > seconds timeout then
        Some (auth_failed Timeout 0 (''User did not authorize within '' @ show_int timeout @ '' seconds''), w)
      else
        (case token_request E host client_id device_code w of
           (Inl e, w1) \<Rightarrow> Some (auth_failed (classify_exception E e) 0 (what_of (ae_what E) e), w1)
         | (Inr rs, w1) \<Rightarrow>
             (case poll_verdict_of E rs of
                PollDone r \<Rightarrow> Some (r, w1)
              | PollSlowDown \<Rightarrow>
                  poll_token_loop E host client_id device_code timeout interval start (ae_sleep E 5 w1)
              | PollAgain \<Rightarrow>
                  poll_token_loop E host client_id device_code timeout interval start (ae_sleep E interval w1))))"

definition poll_device_token ::
    "'w auth_env \<Rightarrow> string \<Rightarrow> string \<Rightarrow> string \<Rightarrow> int \<Rightarrow> int \<Rightarrow> 'w \<Rightarrow> (auth_result \<times> 'w) option" where
  "poll_device_token E host client_id device_code timeout interval w =
     poll_token_loop E host client_id device_code timeout interval (ae_now E w) w"

section \<open>Devices\<close>

definition bearer :: "string \<Rightarrow> string" where
  "bearer tok = ''Bearer '' @ tok"

definition user_url :: "string \<Rightarrow> string \<Rightarrow> string \<Rightarrow> string" where
  "user_url host username path = ensure_https host @ ''/v1/users/'' @ username @ path"

definition device_payload :: "'w auth_env \<Rightarrow> string \<Rightarrow> string \<Rightarrow> string \<Rightarrow> string \<Rightarrow> json" where
  "device_payload E device_id device_name secret product =
     jobj ([(''enabled'', JBool True), (''type'', JStr ''Generic''), (''device'', JStr device_id),
        (''credentials'', JStr secret), (''name'', JStr (if device_name = [] then device_id else device_name)),
        (''description'', JStr (ae_os E))] @
       (if product \<noteq> [] then [(''product'', JStr product)] else []))"

definition provision_device ::
    "'w auth_env \<Rightarrow> string \<Rightarrow> string \<Rightarrow> string \<Rightarrow> string \<Rightarrow> string \<Rightarrow> string \<Rightarrow> ('w, provision_result) act" where
  "provision_device E host username device_id device_name access_token product =
     abind (generate_device_credentials E) (\<lambda>secret.
     abind (make_http_request_with_fallback E (user_url host username ''/devices'') ''POST''
              (device_payload E device_id device_name secret product) (bearer access_token)) (\<lambda>rs.
       if \<not> rs_success rs \<or> (rs_status rs \<noteq> 200 \<and> rs_status rs \<noteq> 201) then aret (not_provisioned (rs_status rs))
       else
         abind (alift (parse_response E rs ''Device provisioning'')) (\<lambda>j.
         abind (alift (case jfind j ''device'' of Some d \<Rightarrow> get_string d | None \<Rightarrow> Inr device_id)) (\<lambda>i.
           let c = \<lparr>cr_host = host, cr_id = i, cr_name = device_name, cr_user = username, cr_token = secret,
                    cr_version = ''1.0.0'', cr_verify_ssl = True\<rparr>
           in if \<not> cr_is_valid c then aret (not_provisioned (rs_status rs))
              else aret \<lparr>pv_success = True, pv_status = rs_status rs, pv_credentials = c\<rparr>))))"

text \<open>The claims \<open>svr\<close> and \<open>usr\<close> of a token; \<open>None\<close> when one is missing.\<close>

definition token_claims :: "'w auth_env \<Rightarrow> string \<Rightarrow> (string \<times> string) option res" where
  "token_claims E tok =
     rbind (decode_jwt_payload E tok) (\<lambda>j.
       case (jfind j ''svr'', jfind j ''usr'') of
         (Some s, Some u) \<Rightarrow> rbind (get_string s) (\<lambda>host. rbind (get_string u) (\<lambda>user. Inr (Some (host, user))))
       | _ \<Rightarrow> Inr None)"

definition auto_provision_with_device_id ::
    "'w auth_env \<Rightarrow> string \<Rightarrow> string \<Rightarrow> string \<Rightarrow> string \<Rightarrow> ('w, provision_result) act" where
  "auto_provision_with_device_id E tok device_id device_name product =
     abind (alift (token_claims E tok)) (\<lambda>c.
       case c of
         None \<Rightarrow> aret (not_provisioned 0)
       | Some (host, username) \<Rightarrow> provision_device E host username device_id device_name tok product)"

definition auto_provision :: "'w auth_env \<Rightarrow> string \<Rightarrow> ('w, provision_result) act" where
  "auto_provision E tok =
     abind (alift (token_claims E tok)) (\<lambda>c.
       case c of
         None \<Rightarrow> aret (not_provisioned 0)
       | Some (host, username) \<Rightarrow>
           let device_id = (if ae_hostname E = [] then ''thinremote-device'' else ae_hostname E)
           in provision_device E host username device_id device_id tok [])"

definition test_connection :: "'w auth_env \<Rightarrow> credentials \<Rightarrow> ('w, bool) act" where
  "test_connection E c =
     abind (make_http_request_with_fallback E (user_url (cr_host c) (cr_user c) (''/devices/'' @ cr_id c)) ''GET''
              JNull (bearer (cr_token c)))
       (\<lambda>rs. aret (rs_success rs \<and> (rs_status rs = 200 \<or> rs_status rs = 404)))"

definition delete_device :: "'w auth_env \<Rightarrow> string \<Rightarrow> string \<Rightarrow> string \<Rightarrow> string \<Rightarrow> ('w, bool) act" where
  "delete_device E host username device_id access_token =
     abind (make_http_request_with_fallback E (user_url host username (''/devices/'' @ device_id)) ''DELETE''
              JNull (bearer access_token))
       (\<lambda>rs. aret (rs_success rs \<and> (rs_status rs = 200 \<or> rs_status rs = 204)))"

section \<open>Products and rules\<close>

definition list_items :: "'w auth_env \<Rightarrow> string \<Rightarrow> string \<Rightarrow> string \<Rightarrow> ('w, list_result) act" where
  "list_items E url access_token operation =
     abind (atry (abind (make_http_request_with_fallback E url ''GET'' JNull (bearer access_token)) (\<lambda>rs.
         if \<not> rs_success rs \<or> rs_status rs \<noteq> 200 then
           aret \<lparr>li_success = False, li_status = rs_status rs, li_items = JNull\<rparr>
         else abind (alift (parse_response E rs operation)) (\<lambda>j.
           aret \<lparr>li_success = True, li_status = rs_status rs, li_items = j\<rparr>))))
       (\<lambda>r. case r of
          Inl e \<Rightarrow> aret \<lparr>li_success = False, li_status = 0, li_items = JNull\<rparr>
        | Inr l \<Rightarrow> aret l)"

definition create_item :: "'w auth_env \<Rightarrow> string \<Rightarrow> string \<Rightarrow> json \<Rightarrow> ('w, create_result) act" where
  "create_item E url access_token payload =
     abind (atry (make_http_request_with_fallback E url ''POST'' payload (bearer access_token)))
       (\<lambda>r. case r of
          Inl e \<Rightarrow> aret \<lparr>ct_success = False, ct_status = 0, ct_detail = what_of (ae_what E) e\<rparr>
        | Inr rs \<Rightarrow>
            if \<not> rs_success rs \<or> (rs_status rs \<noteq> 200 \<and> rs_status rs \<noteq> 201) then
              aret \<lparr>ct_success = False, ct_status = rs_status rs, ct_detail = rs_body rs\<rparr>
            else aret \<lparr>ct_success = True, ct_status = rs_status rs, ct_detail = []\<rparr>)"

definition list_products :: "'w auth_env \<Rightarrow> string \<Rightarrow> string \<Rightarrow> string \<Rightarrow> ('w, list_result) act" where
  "list_products E host username access_token =
     list_items E (user_url host username ''/products'') access_token ''List products''"

definition create_product :: "'w auth_env \<Rightarrow> string \<Rightarrow> string \<Rightarrow> string \<Rightarrow> json \<Rightarrow> ('w, create_result) act" where
  "create_product E host username access_token product_data =
     create_item E (user_url host username ''/products'') access_token product_data"

definition list_alarm_rules :: "'w auth_env \<Rightarrow> string \<Rightarrow> string \<Rightarrow> string \<Rightarrow> ('w, list_result) act" where
  "list_alarm_rules E host username access_token =
     list_items E (user_url host username ''/alarms/rules'') access_token ''List alarm rules''"

definition create_alarm_rule :: "'w auth_env \<Rightarrow> string \<Rightarrow> string \<Rightarrow> string \<Rightarrow> json \<Rightarrow> ('w, create_result) act" where
  "create_alarm_rule E host username access_token rule_data =
     abind (alift (jvalue get_string rule_data ''rule'' [])) (\<lambda>rule_id.
       create_item E (user_url host username ''/alarms/rules'') access_token rule_data)"

definition delete_alarm_rule :: "'w auth_env \<Rightarrow> string \<Rightarrow> string \<Rightarrow> string \<Rightarrow> string \<Rightarrow> ('w, bool) act" where
  "delete_alarm_rule E host username access_token rule_id =
     abind (atry (make_http_request_with_fallback E (user_url host username (''/alarms/rules/'' @ rule_id)) ''DELETE''
              JNull (bearer access_token)))
       (\<lambda>r. case r of
          Inl e \<Rightarrow> aret False
        | Inr rs \<Rightarrow> aret (rs_success rs \<and> (rs_status rs = 200 \<or> rs_status rs = 204 \<or> rs_status rs = 404)))"

text \<open>The identifiers of the listed rules; a rule that is no object throws.\<close>

fun listed_ids :: "json list \<Rightarrow> string list res" where
  "listed_ids [] = Inr []"
| "listed_ids (r # rs) =
     rbind (jvalue get_string r ''rule'' []) (\<lambda>i.
     rbind (listed_ids rs) (\<lambda>is. Inr (if i = [] then is else i # is)))"

definition existing_ids :: "json \<Rightarrow> string list res" where
  "existing_ids items = (case items of JArr rs \<Rightarrow> listed_ids rs | _ \<Rightarrow> Inr [])"

fun drop_existing ::
    "'w auth_env \<Rightarrow> string \<Rightarrow> string \<Rightarrow> string \<Rightarrow> json list \<Rightarrow> string list \<Rightarrow> ('w, string list) act" where
  "drop_existing E host username tok [] ids = aret ids"
| "drop_existing E host username tok (r # rs) ids =
     abind (alift (jvalue get_string r ''rule'' [])) (\<lambda>i.
       if i = [] \<or> i \<notin> set ids then drop_existing E host username tok rs ids
       else abind (delete_alarm_rule E host username tok i) (\<lambda>gone.
         drop_existing E host username tok rs (if gone then removeAll i ids else ids)))"

fun create_missing ::
    "'w auth_env \<Rightarrow> string \<Rightarrow> string \<Rightarrow> string \<Rightarrow> string list \<Rightarrow> json list \<Rightarrow> ensure_result \<Rightarrow> ('w, ensure_result) act" where
  "create_missing E host username tok ids [] res = aret res"
| "create_missing E host username tok ids (r # rs) res =
     abind (alift (jvalue get_string r ''rule'' [])) (\<lambda>i.
       if i = [] then create_missing E host username tok ids rs res
       else if i \<in> set ids then
         create_missing E host username tok ids rs (res\<lparr>en_present := en_present res + 1\<rparr>)
       else abind (create_alarm_rule E host username tok r) (\<lambda>c.
         create_missing E host username tok ids rs
           (if ct_success c then res\<lparr>en_created := en_created res + 1\<rparr>
            else res\<lparr>en_failed := en_failed res + 1\<rparr>)))"

definition ensure_default_alarms ::
    "'w auth_env \<Rightarrow> string \<Rightarrow> string \<Rightarrow> string \<Rightarrow> bool \<Rightarrow> ('w, ensure_result) act" where
  "ensure_default_alarms E host username access_token force =
     abind (list_alarm_rules E host username access_token) (\<lambda>l.
       if \<not> li_success l then aret nothing_ensured
       else abind (alift (existing_ids (li_items l))) (\<lambda>ids.
         abind (if force then drop_existing E host username access_token default_alarm_rules ids else aret ids) (\<lambda>ids.
           create_missing E host username access_token ids default_alarm_rules
             (nothing_ensured\<lparr>en_listed := True\<rparr>))))"

section \<open>Consent to insecure requests\<close>

lemmas auth_ops = oauth_password_flow_def start_device_flow_def provision_device_def
  auto_provision_with_device_id_def auto_provision_def test_connection_def delete_device_def list_items_def
  create_item_def list_products_def create_product_def list_alarm_rules_def create_alarm_rule_def
  delete_alarm_rule_def token_request_def

named_theorems consent_intros \<open>operations of the manager that ask before an insecure request\<close>

lemma keeps_oauth [consent_intros]: "keeps log_ok (oauth_password_flow (logged E) host user pw)"
  unfolding auth_ops by (intro keeps_intros)

lemma keeps_flow [consent_intros]: "keeps log_ok (start_device_flow (logged E) host client)"
  unfolding auth_ops by (intro keeps_intros)

lemma keeps_provision [consent_intros]: "keeps log_ok (provision_device (logged E) host user i n tok p)"
  unfolding auth_ops Let_def by (intro keeps_intros) simp

lemma keeps_auto [consent_intros]:
  "keeps log_ok (auto_provision (logged E) tok)"
  "keeps log_ok (auto_provision_with_device_id (logged E) tok i n p)"
  unfolding auto_provision_def auto_provision_with_device_id_def Let_def
  by (intro keeps_intros consent_intros)+

lemma keeps_test [consent_intros]: "keeps log_ok (test_connection (logged E) c)"
  unfolding auth_ops by (intro keeps_intros) simp

lemma keeps_delete [consent_intros]: "keeps log_ok (delete_device (logged E) host user i tok)"
  unfolding auth_ops by (intro keeps_intros) simp

lemma keeps_list_items [consent_intros]: "keeps log_ok (list_items (logged E) url tok opn)"
  unfolding list_items_def by (intro keeps_intros) simp

lemma keeps_create_item [consent_intros]: "keeps log_ok (create_item (logged E) url tok j)"
  unfolding create_item_def by (intro keeps_intros) simp

lemma keeps_lists [consent_intros]:
  "keeps log_ok (list_products (logged E) host user tok)" "keeps log_ok (list_alarm_rules (logged E) host user tok)"
  "keeps log_ok (create_product (logged E) host user tok j)" "keeps log_ok (create_alarm_rule (logged E) host user tok j)"
  unfolding list_products_def list_alarm_rules_def create_product_def create_alarm_rule_def
  by (intro keeps_intros consent_intros)+

lemma keeps_delete_rule [consent_intros]: "keeps log_ok (delete_alarm_rule (logged E) host user tok r)"
  unfolding delete_alarm_rule_def by (intro keeps_intros) simp

lemma keeps_drop [consent_intros]: "keeps log_ok (drop_existing (logged E) host user tok rs ids)"
  by (induction rs arbitrary: ids) (auto intro!: keeps_intros consent_intros)

lemma keeps_create [consent_intros]: "keeps log_ok (create_missing (logged E) host user tok ids rs res)"
  by (induction rs arbitrary: res) (auto intro!: keeps_intros consent_intros)

lemma keeps_ensure [consent_intros]: "keeps log_ok (ensure_default_alarms (logged E) host user tok force)"
  unfolding ensure_default_alarms_def by (intro keeps_intros consent_intros)

lemma keeps_token [consent_intros]: "keeps log_ok (token_request (logged E) host client code)"
  unfolding token_request_def by (intro keeps_intros)

lemma poll_loop_log:
  assumes "poll_token_loop (logged E) host client code timeout interval start w = Some y" and "log_ok w"
  shows "log_ok (snd y)"
proof -
  have "logged E = logged E \<longrightarrow> log_ok w \<longrightarrow> log_ok (snd y)"
  proof (rule poll_token_loop.raw_induct [where P = "\<lambda>E' host client code timeout interval start w y.
      E' = logged E \<longrightarrow> log_ok w \<longrightarrow> log_ok (snd y)", OF _ assms(1)], intro impI)
    fix loop E' host client code timeout interval start w and y :: "auth_result \<times> 'a \<times> event list"
    assume IH: "\<And>E' host client code timeout interval start w y.
        loop E' host client code timeout interval start w = Some y \<Longrightarrow> E' = logged E \<longrightarrow> log_ok w \<longrightarrow> log_ok (snd y)"
      and step: "(if ae_now E' w - start > seconds timeout then
          Some (auth_failed Timeout 0 (''User did not authorize within '' @ show_int timeout @ '' seconds''), w)
        else (case token_request E' host client code w of
           (Inl e, w1) \<Rightarrow> Some (auth_failed (classify_exception E' e) 0 (what_of (ae_what E') e), w1)
         | (Inr rs, w1) \<Rightarrow> (case poll_verdict_of E' rs of PollDone r \<Rightarrow> Some (r, w1)
              | PollAgain \<Rightarrow> loop E' host client code timeout interval start (ae_sleep E' interval w1)
              | PollSlowDown \<Rightarrow> loop E' host client code timeout interval start (ae_sleep E' 5 w1)))) = Some y"
      and E: "E' = logged E" and ok: "log_ok w"
    obtain r w1 where t: "token_request (logged E) host client code w = (r, w1)" by (rule prod.exhaust)
    have ok1: "log_ok w1"
      using keeps_token [of E host client code] ok t unfolding keeps_def by (metis snd_conv)
    then have sl: "log_ok (ae_sleep (logged E) n w1)" for n
      by (cases w1) (simp add: logged_def log_ok_def)
    have again: "loop (logged E) host client code timeout interval start (ae_sleep (logged E) n w1) = Some y \<Longrightarrow>
        log_ok (snd y)" for n
      using IH sl by blast
    show "log_ok (snd y)"
      using step ok ok1 again by (auto simp: E t split: if_splits sum.splits poll_verdict.splits)
  qed
  with assms(2) show ?thesis by blast
qed

section \<open>What an action adds to the log\<close>

definition adds :: "(event \<Rightarrow> bool) \<Rightarrow> ('w \<times> event list, 'a) act \<Rightarrow> bool" where
  "adds P m \<longleftrightarrow> (\<forall>w l. \<exists>es. snd (snd (m (w, l))) = l @ es \<and> (\<forall>ev \<in> set es. P ev))"

named_theorems adds_intros \<open>bounds on what an action adds to the log\<close>

lemma addsE:
  assumes "adds P m" and "m (w, l) = (r, w', l')"
  obtains es where "l' = l @ es" "\<forall>ev \<in> set es. P ev"
proof -
  have "\<exists>es. snd (snd (m (w, l))) = l @ es \<and> (\<forall>ev \<in> set es. P ev)" using assms(1) by (simp add: adds_def)
  with assms(2) that show ?thesis by auto
qed

lemma adds_aret [adds_intros]: "adds P (aret x)" by (simp add: adds_def aret_def)
lemma adds_alift [adds_intros]: "adds P (alift r)" by (simp add: adds_def alift_def)

lemma adds_abind [adds_intros]:
  assumes "adds P m" and "\<And>x. adds P (f x)"
  shows "adds P (abind m f)"
  unfolding adds_def
proof (intro allI)
  fix w l
  obtain r w1 l1 where m: "m (w, l) = (r, w1, l1)" by (metis prod_cases3)
  obtain es where es: "l1 = l @ es" "\<forall>ev \<in> set es. P ev" by (rule addsE [OF assms(1) m])
  show "\<exists>es. snd (snd (abind m f (w, l))) = l @ es \<and> (\<forall>ev \<in> set es. P ev)"
  proof (cases r)
    case (Inl e)
    with m es show ?thesis by (simp add: abind_def)
  next
    case (Inr x)
    obtain r2 w2 l2 where f: "f x (w1, l1) = (r2, w2, l2)" by (metis prod_cases3)
    obtain es2 where "l2 = l1 @ es2" "\<forall>ev \<in> set es2. P ev" by (rule addsE [OF assms(2) f])
    with m f es Inr show ?thesis by (auto simp: abind_def)
  qed
qed

lemma adds_atry [adds_intros]: "adds P m \<Longrightarrow> adds P (atry m)"
  by (auto simp: adds_def atry_def split: prod.splits) (metis snd_conv)

lemma adds_if [adds_intros]: "adds P m \<Longrightarrow> adds P n \<Longrightarrow> adds P (if b then m else n)" by simp

lemma adds_res [adds_intros]:
  "(\<And>e. adds P (f e)) \<Longrightarrow> (\<And>x. adds P (g x)) \<Longrightarrow> adds P (case r of Inl e \<Rightarrow> f e | Inr x \<Rightarrow> g x)"
  by (cases r) simp_all

lemma adds_mono: "adds P m \<Longrightarrow> (\<And>ev. P ev \<Longrightarrow> Q ev) \<Longrightarrow> adds Q m"
  unfolding adds_def by meson

text \<open>The questions, and requests of one shape.\<close>

definition sent_as :: "(bool \<Rightarrow> http_request) \<Rightarrow> event \<Rightarrow> bool" where
  "sent_as Q ev \<longleftrightarrow> (case ev of Asked m b \<Rightarrow> True | Sent q out \<Rightarrow> \<exists>v. q = Q v)"

lemma request_events_sent: "request_events Q es \<Longrightarrow> \<forall>ev \<in> set es. sent_as Q ev"
  by (auto simp: request_events_def sent_as_def) (rule exI, rule refl)+

lemma request_logged:
  assumes "make_http_request_with_fallback (logged E) url meth payload au (w, l) = (r, w')"
    and "meth \<in> {''GET'', ''POST'', ''DELETE''}"
  obtains es w1 where "w' = (w1, l @ es)" "\<forall>ev \<in> set es. sent_as (json_request E url meth payload au) ev"
    "\<And>rs. r = Inr rs \<Longrightarrow> rs_success rs \<and>
      (\<exists>v. Sent (json_request E url meth payload au v) (HttpResponse (rs_status rs) (rs_body rs)) \<in> set es)"
proof -
  have "ssl_fallback (logged E) (\<lambda>v. exchange (logged E) (json_request E url meth payload au v)) (w, l) = (r, w')"
    using assms(1) unfolding make_http_request_with_fallback_def make_request_json [OF assms(2)] by simp
  from fallback_logged [OF this] show ?thesis using that request_events_sent by (elim exE conjE) blast
qed

lemma adds_request [adds_intros]:
  assumes "meth \<in> {''GET'', ''POST'', ''DELETE''}"
  shows "adds (sent_as (json_request E url meth payload au)) (make_http_request_with_fallback (logged E) url meth payload au)"
  unfolding adds_def
proof (intro allI)
  fix w l
  obtain r w' where run: "make_http_request_with_fallback (logged E) url meth payload au (w, l) = (r, w')" by (rule prod.exhaust)
  from request_logged [OF run assms] obtain es w1 where "w' = (w1, l @ es)"
    "\<forall>ev \<in> set es. sent_as (json_request E url meth payload au) ev" by metis
  with run show "\<exists>es. snd (snd (make_http_request_with_fallback (logged E) url meth payload au (w, l))) = l @ es \<and>
      (\<forall>ev \<in> set es. sent_as (json_request E url meth payload au) ev)" by simp
qed

lemma adds_create_item [adds_intros]: "adds (sent_as (json_request E url ''POST'' j (bearer tok))) (create_item (logged E) url tok j)"
  unfolding create_item_def by (intro adds_intros) simp

lemma list_items_logged:
  assumes "list_items (logged E) url tok opn (w, l) = (r, w')"
  obtains es w1 li where "w' = (w1, l @ es)" "r = Inr li" "\<forall>ev \<in> set es. sent_as (json_request E url ''GET'' JNull (bearer tok)) ev"
    "li_success li \<Longrightarrow> \<exists>v body. Sent (json_request E url ''GET'' JNull (bearer tok) v) (HttpResponse 200 body) \<in> set es \<and>
       ae_parse E body = Some (li_items li)"
proof -
  obtain r1 w2 where run: "make_http_request_with_fallback (logged E) url ''GET'' JNull (bearer tok) (w, l) = (r1, w2)"
    by (rule prod.exhaust)
  obtain es w1 where es: "w2 = (w1, l @ es)" "\<forall>ev \<in> set es. sent_as (json_request E url ''GET'' JNull (bearer tok)) ev"
    "\<And>rs. r1 = Inr rs \<Longrightarrow> rs_success rs \<and>
      (\<exists>v. Sent (json_request E url ''GET'' JNull (bearer tok) v) (HttpResponse (rs_status rs) (rs_body rs)) \<in> set es)"
    using request_logged [OF run] by blast
  have "\<exists>li. r = Inr li \<and> w' = (w1, l @ es) \<and> (li_success li \<longrightarrow> (\<exists>v body.
      Sent (json_request E url ''GET'' JNull (bearer tok) v) (HttpResponse 200 body) \<in> set es \<and> ae_parse E body = Some (li_items li)))"
  proof (cases r1)
    case (Inl e)
    with assms run es(1) show ?thesis by (auto simp: list_items_def abind_def atry_def aret_def)
  next
    case (Inr rs)
    with es(3) obtain v where v: "rs_success rs"
      "Sent (json_request E url ''GET'' JNull (bearer tok) v) (HttpResponse (rs_status rs) (rs_body rs)) \<in> set es" by blast
    show ?thesis
    proof (cases "rs_status rs = 200 \<and> ae_parse E (rs_body rs) \<noteq> None")
      case True
      then obtain j where "ae_parse E (rs_body rs) = Some j" by blast
      moreover from this True assms run es(1) Inr v(1)
      have "r = Inr \<lparr>li_success = True, li_status = 200, li_items = j\<rparr> \<and> w' = (w1, l @ es)"
        by (simp add: list_items_def abind_def atry_def aret_def alift_def parse_response_def)
      ultimately show ?thesis using True v(2) by (metis list_result.select_convs(3))
    next
      case False
      with assms run es(1) Inr v(1) show ?thesis
        by (auto simp: list_items_def abind_def atry_def aret_def alift_def parse_response_def split: if_splits option.splits)
    qed
  qed
  then show ?thesis using that es(2) by blast
qed


section \<open>The default rules\<close>

definition rules_url :: "string \<Rightarrow> string \<Rightarrow> string" where
  "rules_url host user = user_url host user ''/alarms/rules''"

text \<open>The creation of a rule that is not among the given identifiers.\<close>

definition creates_missing :: "'w auth_env \<Rightarrow> string \<Rightarrow> string \<Rightarrow> json list \<Rightarrow> string list \<Rightarrow> event \<Rightarrow> bool" where
  "creates_missing E url tok rs ids ev \<longleftrightarrow>
     (\<exists>r \<in> set rs. \<exists>i. jvalue get_string r ''rule'' [] = Inr i \<and> i \<noteq> [] \<and> i \<notin> set ids \<and>
        sent_as (json_request E url ''POST'' r (bearer tok)) ev) \<or> (case ev of Asked m b \<Rightarrow> True | Sent q out \<Rightarrow> False)"

lemma adds_create_missing:
  "adds (creates_missing E (rules_url host user) tok rs ids) (create_missing (logged E) host user tok ids rs res)"
proof (induction rs arbitrary: res)
  case Nil
  then show ?case by (simp add: adds_aret)
next
  case (Cons r rs)
  have tail: "adds (creates_missing E (rules_url host user) tok (r # rs) ids) (create_missing (logged E) host user tok ids rs res)" for res
    using Cons.IH by (rule adds_mono) (auto simp: creates_missing_def)
  show ?case
  proof (cases "jvalue get_string r ''rule'' []")
    case (Inl e)
    then show ?thesis by (simp add: athrow_def adds_def)
  next
    case (Inr i)
    have new: "adds (creates_missing E (rules_url host user) tok (r # rs) ids) (create_alarm_rule (logged E) host user tok r)"
      if "i \<noteq> []" "i \<notin> set ids"
      unfolding create_alarm_rule_def
      by (intro adds_intros, rule adds_mono [OF adds_create_item])
         (use Inr that in \<open>auto simp: creates_missing_def rules_url_def\<close>)
    show ?thesis
      unfolding create_missing.simps Inr abind_alift
      by (cases "i = [] \<or> i \<in> set ids") (auto intro!: adds_abind tail new)
  qed
qed

lemma create_missing_counts:
  assumes "create_missing E host user tok ids rs res w = (Inr res', w')"
    and "map (\<lambda>r. jvalue get_string r ''rule'' []) rs = map Inr names" and "[] \<notin> set names"
  shows "en_listed res' = en_listed res \<and>
    en_present res' = en_present res + int (length (filter (\<lambda>i. i \<in> set ids) names)) \<and>
    en_created res' + en_failed res' = en_created res + en_failed res + int (length (filter (\<lambda>i. i \<notin> set ids) names))"
  using assms
proof (induction rs arbitrary: res names w)
  case Nil
  then show ?case by (simp add: aret_def)
next
  case (Cons r rs)
  then obtain i js where i: "jvalue get_string r ''rule'' [] = Inr i" "names = i # js" "i \<noteq> []"
    "map (\<lambda>r. jvalue get_string r ''rule'' []) rs = map Inr js" "[] \<notin> set js"
    by (cases names) auto
  show ?case
  proof (cases "i \<in> set ids")
    case True
    with Cons.prems(1) i have "create_missing E host user tok ids rs (res\<lparr>en_present := en_present res + 1\<rparr>) w = (Inr res', w')"
      by (simp add: abind_def alift_def)
    from Cons.IH [OF this i(4,5)] True i show ?thesis by simp
  next
    case False
    with Cons.prems(1) i have "abind (create_alarm_rule E host user tok r) (\<lambda>c. create_missing E host user tok ids rs
        (if ct_success c then res\<lparr>en_created := en_created res + 1\<rparr> else res\<lparr>en_failed := en_failed res + 1\<rparr>)) w = (Inr res', w')"
      by simp
    then obtain c :: create_result and w1 where "create_missing E host user tok ids rs
        (if ct_success c then res\<lparr>en_created := en_created res + 1\<rparr> else res\<lparr>en_failed := en_failed res + 1\<rparr>) w1 = (Inr res', w')"
    proof (cases rule: abind_cases)
      case (thrown e)
      then show ?thesis by simp
    next
      case (returned c w1)
      from returned(2) show ?thesis by (rule that)
    qed
    from Cons.IH [OF this i(4,5)] False i show ?thesis by (auto split: if_splits)
  qed
qed


section \<open>A server for examples\<close>

text \<open>A server that lists no rules, accepts everything, and answers within a second.\<close>

definition demo_auth :: "int auth_env" where
  "demo_auth = \<lparr>ae_http = (\<lambda>q w. (HttpResponse 200 (rq_method q), w + 1)), ae_callback = None,
     ae_parse = (\<lambda>s. Some (if s = ''GET'' then JArr [] else jobj [(''access_token'', JStr ''tok'')])),
     ae_dump = ref_dump, ae_what = (\<lambda>_. []), ae_b64 = Some,
     ae_dice = (\<lambda>n w. (nat w mod n, w)), ae_now = (\<lambda>w. w), ae_sleep = (\<lambda>n w. w + seconds n),
     ae_hostname = ''box'', ae_os = ''linux''\<rparr>"

section \<open>Properties\<close>

text \<open>
  C18. No request leaves without certificate verification unless the callback has just
  accepted that very failure: every operation of the manager, run on any server with any
  callback, keeps this of the log of requests and questions.
\<close>

theorem insecure_requests_follow_consent:
  "keeps log_ok (oauth_password_flow (logged E) host user pw) \<and>
   keeps log_ok (start_device_flow (logged E) host client) \<and>
   keeps log_ok (provision_device (logged E) host user i n tok p) \<and>
   keeps log_ok (auto_provision (logged E) tok) \<and>
   keeps log_ok (auto_provision_with_device_id (logged E) tok i n p) \<and>
   keeps log_ok (test_connection (logged E) c) \<and>
   keeps log_ok (delete_device (logged E) host user i tok) \<and>
   keeps log_ok (list_products (logged E) host user tok) \<and>
   keeps log_ok (create_product (logged E) host user tok j) \<and>
   keeps log_ok (ensure_default_alarms (logged E) host user tok force) \<and>
   pred_option (\<lambda>(r, w, l). consented False l) (poll_device_token (logged E) host client code timeout interval (w, []))"
proof -
  have "pred_option (\<lambda>(r, w, l). consented False l) (poll_device_token (logged E) host client code timeout interval (w, []))"
    using poll_loop_log [of E host client code timeout interval _ "(w, [])"]
    by (auto simp: poll_device_token_def log_ok_def option.pred_set split: prod.splits)
  then show ?thesis by (intro conjI consent_intros)
qed

text \<open>
  C19. Seeding the default rules without force never deletes or replaces a rule: all it
  sends are the listing and creations of default rules whose identifier the server's listing
  does not contain, and the three counters account for exactly the six rules.
\<close>

theorem ensure_never_overwrites:
  assumes "ensure_default_alarms (logged E) host user tok False (w, []) = (Inr r, (w', l))" and "en_listed r"
  shows "\<exists>body items ids v.
    Sent (json_request E (rules_url host user) ''GET'' JNull (bearer tok) v) (HttpResponse 200 body) \<in> set l \<and>
    ae_parse E body = Some items \<and> existing_ids items = Inr ids \<and>
    (\<forall>ev \<in> set l. sent_as (json_request E (rules_url host user) ''GET'' JNull (bearer tok)) ev \<or>
       creates_missing E (rules_url host user) tok default_alarm_rules ids ev) \<and>
    en_present r = int (length (filter (\<lambda>i. i \<in> set ids) rule_names)) \<and>
    en_created r + en_failed r = 6 - en_present r"
proof -
  let ?url = "rules_url host user"
  obtain r1 w1 where run: "list_alarm_rules (logged E) host user tok (w, []) = (r1, w1)" by (rule prod.exhaust)
  then have "list_items (logged E) ?url tok ''List alarm rules'' (w, []) = (r1, w1)"
    by (simp add: list_alarm_rules_def rules_url_def)
  then obtain es w2 li where li: "w1 = (w2, es)" "r1 = Inr li"
    "\<forall>ev \<in> set es. sent_as (json_request E ?url ''GET'' JNull (bearer tok)) ev"
    "li_success li \<Longrightarrow> \<exists>v body. Sent (json_request E ?url ''GET'' JNull (bearer tok) v) (HttpResponse 200 body) \<in> set es \<and>
       ae_parse E body = Some (li_items li)"
    by (rule list_items_logged) simp
  have ok: "li_success li"
    using assms run li(1,2) by (auto simp: ensure_default_alarms_def abind_def aret_def nothing_ensured_def split: if_splits)
  obtain ids where ids: "existing_ids (li_items li) = Inr ids"
    using assms(1) run li(1,2) ok
    by (cases "existing_ids (li_items li)") (auto simp: ensure_default_alarms_def abind_def alift_def)
  have cm: "create_missing (logged E) host user tok ids default_alarm_rules (nothing_ensured\<lparr>en_listed := True\<rparr>) (w2, es) =
      (Inr r, (w', l))"
    using assms(1) run li(1,2) ok ids by (simp add: ensure_default_alarms_def abind_def alift_def aret_def)
  obtain es2 where es2: "l = es @ es2" "\<forall>ev \<in> set es2. creates_missing E ?url tok default_alarm_rules ids ev"
    by (rule addsE [OF adds_create_missing cm])
  have len: "length (filter (\<lambda>i. i \<in> set ids) rule_names) + length (filter (\<lambda>i. i \<notin> set ids) rule_names) = 6"
    using sum_length_filter_compl [of "\<lambda>i. i \<in> set ids" rule_names] rule_names_distinct(3) by simp
  have "en_present r = int (length (filter (\<lambda>i. i \<in> set ids) rule_names)) \<and>
      en_created r + en_failed r = int (length (filter (\<lambda>i. i \<notin> set ids) rule_names))"
    using create_missing_counts [OF cm default_rule_names rule_names_distinct(2)] by (simp add: nothing_ensured_def)
  then have "en_present r = int (length (filter (\<lambda>i. i \<in> set ids) rule_names))"
    "en_created r + en_failed r = 6 - en_present r" using len by linarith+
  moreover obtain v body where "Sent (json_request E ?url ''GET'' JNull (bearer tok) v) (HttpResponse 200 body) \<in> set es"
    "ae_parse E body = Some (li_items li)" using li(4) [OF ok] by (elim exE conjE)
  moreover have "\<forall>ev \<in> set l. sent_as (json_request E ?url ''GET'' JNull (bearer tok)) ev \<or>
      creates_missing E ?url tok default_alarm_rules ids ev" using es2 li(3) by auto
  ultimately show ?thesis using ids es2(1)
    by (intro exI [of _ body] exI [of _ "li_items li"] exI [of _ ids] exI [of _ v]) simp
qed

lemma rules_simps [simp]:
  "jvalue get_string high_cpu ''rule'' [] = Inr ''high_cpu''"
  "jvalue get_string high_memory ''rule'' [] = Inr ''high_memory''"
  "jvalue get_string high_disk ''rule'' [] = Inr ''high_disk''"
  "jvalue get_string high_swap ''rule'' [] = Inr ''high_swap''"
  "jvalue get_string high_cpu_temperature ''rule'' [] = Inr ''high_cpu_temperature''"
  "jvalue get_string missing_bucket_data ''rule'' [] = Inr ''missing_bucket_data''"
  by (simp_all add: rule_defs jvalue_present [OF rule_of_alarm_rule])

lemma demo_request: "meth \<in> {''GET'', ''POST'', ''DELETE''} \<Longrightarrow>
    make_http_request_with_fallback (logged demo_auth) url meth j au (w, l) =
      (Inr \<lparr>rs_status = 200, rs_body = meth, rs_success = True\<rparr>,
       (w + 1, l @ [Sent (json_request demo_auth url meth j au True) (HttpResponse 200 meth)]))"
  unfolding make_http_request_with_fallback_def make_request_json ssl_fallback_def acatch_def exchange_def
  by (simp add: make_request_json exchange_def) (simp add: logged_def demo_auth_def)

lemma demo_list: "list_items (logged demo_auth) url tok opn (w, l) =
    (Inr \<lparr>li_success = True, li_status = 200, li_items = JArr []\<rparr>,
     (w + 1, l @ [Sent (json_request demo_auth url ''GET'' JNull (bearer tok) True) (HttpResponse 200 ''GET'')]))"
proof -
  have "ae_parse demo_auth ''GET'' = Some (JArr [])" by (simp add: demo_auth_def)
  then show ?thesis
    by (simp add: list_items_def abind_def atry_def aret_def alift_def demo_request parse_response_def)
qed

lemma demo_create: "create_item (logged demo_auth) url tok j (w, l) =
    (Inr \<lparr>ct_success = True, ct_status = 200, ct_detail = []\<rparr>,
     (w + 1, l @ [Sent (json_request demo_auth url ''POST'' j (bearer tok) True) (HttpResponse 200 ''POST'')]))"
  by (simp add: create_item_def abind_def atry_def aret_def demo_request)

theorem ensure_never_overwrites_witness:
  "\<exists>r w' l. ensure_default_alarms (logged demo_auth) ''h'' ''u'' ''t'' False (0, []) = (Inr r, (w', l)) \<and>
     en_present r = 0 \<and> en_created r + en_failed r = 6"
proof -
  obtain r w' l where run: "ensure_default_alarms (logged demo_auth) ''h'' ''u'' ''t'' False (0, []) = (Inr r, (w', l))"
    and r: "en_listed r" "en_present r = 0"
    by (simp add: ensure_default_alarms_def list_alarm_rules_def abind_def demo_list aret_def existing_ids_def
        alift_def default_alarm_rules_def create_alarm_rule_def demo_create nothing_ensured_def)
  with ensure_never_overwrites [OF run r(1)] show ?thesis by auto
qed

text \<open>The laws of the clock: exchanges and questions take time, a sleep takes at least what it says.\<close>

definition clock_ok :: "'w auth_env \<Rightarrow> bool" where
  "clock_ok E \<longleftrightarrow>
     (\<forall>q w. ae_now E w \<le> ae_now E (snd (ae_http E q w))) \<and>
     (\<forall>ask m w. ae_callback E = Some ask \<longrightarrow> ae_now E w \<le> ae_now E (snd (ask m w))) \<and>
     (\<forall>n w. 0 \<le> n \<longrightarrow> ae_now E w + seconds n \<le> ae_now E (ae_sleep E n w))"

lemma exchange_clock: "clock_ok E \<Longrightarrow> exchange E q w = (r, w') \<Longrightarrow> ae_now E w \<le> ae_now E w'"
  unfolding clock_ok_def by (auto simp: exchange_def split: prod.splits http_out.splits) (metis snd_conv)+

lemma token_request_clock:
  assumes "clock_ok E" and "token_request E host client code w = (r, w')"
  shows "ae_now E w \<le> ae_now E w'"
proof -
  define send where "send = make_http_request_form E (ensure_https host @ ''/oauth/token'') ''POST''
    (smap_of [(''grant_type'', ''urn:ietf:params:oauth:grant-type:device_code''), (''client_id'', client), (''device_code'', code)]) []"
  have send: "send v w = (r, w') \<Longrightarrow> ae_now E w \<le> ae_now E w'" for v w r w'
    unfolding send_def make_http_request_form_def using exchange_clock [OF assms(1)] by simp
  have "ssl_fallback E send w = (r, w')"
    using assms(2) by (simp add: token_request_def make_http_request_form_with_fallback_def send_def)
  then show ?thesis
    unfolding ssl_fallback_def
  proof (cases rule: acatch_cases)
    case (thrown e w1)
    have le: "ae_now E w \<le> ae_now E w1" by (rule send [OF thrown(1)])
    have ask: "ae_callback E = Some ask \<Longrightarrow> ask m w1 = (b, w2) \<Longrightarrow> ae_now E w1 \<le> ae_now E w2" for ask m b w2
      using assms(1) unfolding clock_ok_def by (metis snd_conv)
    show ?thesis
      using thrown(2) le
      by (auto simp: athrow_def split: if_splits option.splits prod.splits bool.splits dest!: ask send)
  next
    case (returned x)
    then show ?thesis using send by blast
  qed
qed

text \<open>
  C21. Polling for the device token always ends: with a clock that advances and an interval
  of at least one second the loop returns a result for every server, however often it
  answers pending or slow down.
\<close>

theorem poll_device_token_returns:
  assumes "clock_ok E" and "1 \<le> interval"
  shows "\<exists>r w'. poll_device_token E host client code timeout interval w = Some (r, w')"
proof -
  have "\<exists>y. poll_token_loop E host client code timeout interval start w = Some y" for start w
  proof (induction "nat (start + seconds timeout + 1 - ae_now E w)" arbitrary: w rule: less_induct)
    case less
    show ?case
    proof (cases "ae_now E w - start > seconds timeout")
      case True
      then show ?thesis by (subst poll_token_loop.simps) simp
    next
      case False
      obtain r w1 where t: "token_request E host client code w = (r, w1)" by (rule prod.exhaust)
      have le: "ae_now E w \<le> ae_now E w1" by (rule token_request_clock [OF assms(1) t])
      have again: "\<exists>y. poll_token_loop E host client code timeout interval start (ae_sleep E n w1) = Some y" if "1 \<le> n" for n
      proof (rule less)
        have "ae_now E w1 + seconds n \<le> ae_now E (ae_sleep E n w1)"
          using assms(1) that by (simp add: clock_ok_def)
        moreover have "1 \<le> seconds n" using that by (simp add: seconds_def)
        ultimately show "nat (start + seconds timeout + 1 - ae_now E (ae_sleep E n w1)) <
            nat (start + seconds timeout + 1 - ae_now E w)" using le False by linarith
      qed
      from again [of 5] again [OF assms(2)] t False show ?thesis
        by (subst poll_token_loop.simps) (auto split: sum.splits poll_verdict.splits)
    qed
  qed
  then show ?thesis by (simp add: poll_device_token_def)
qed

theorem poll_device_token_returns_witness:
  "\<exists>r w'. poll_device_token demo_auth ''h'' ''c'' ''d'' 300 5 0 = Some (r, w')"
proof -
  have "clock_ok demo_auth" by (simp add: clock_ok_def demo_auth_def)
  then show ?thesis by (rule poll_device_token_returns) simp
qed

text \<open>An answer of \<open>slow_down\<close> waits five seconds once; the interval stays what it was.\<close>

lemma slow_down_keeps_interval:
  assumes "token_request E host client code w = (Inr rs, w1)" and "poll_verdict_of E rs = PollSlowDown"
    and "ae_now E w - start \<le> seconds timeout"
  shows "poll_token_loop E host client code timeout interval start w =
    poll_token_loop E host client code timeout interval start (ae_sleep E 5 w1)"
  using assms by (subst poll_token_loop.simps) simp


text \<open>
  The standard's reading of a form body: pairs between \<open>&\<close>, the name up to the first
  \<open>=\<close>, a plus for a space, a percent sign before two hexadecimal digits for a byte.
\<close>

fun decode_value :: "string \<Rightarrow> string" where
  "decode_value [] = []"
| "decode_value (c # cs) =
     (if c = CHR ''+'' then CHR '' '' # decode_value cs
      else if c = CHR ''%'' then
        (case cs of
           a # b # rest \<Rightarrow>
             (case (hex_value a, hex_value b) of
                (Some x, Some y) \<Rightarrow> char_of (16 * x + y) # decode_value rest
              | _ \<Rightarrow> c # decode_value cs)
         | _ \<Rightarrow> c # decode_value cs)
      else c # decode_value cs)"

definition decode_pair :: "string \<Rightarrow> string \<times> string" where
  "decode_pair p =
     (let k = takeWhile (\<lambda>c. c \<noteq> CHR ''='') p in (decode_value k, decode_value (drop (Suc (length k)) p)))"

definition decode_form :: "string \<Rightarrow> (string \<times> string) list" where
  "decode_form s = map decode_pair (split_on (CHR ''&'') s)"

definition form_safe :: "string \<Rightarrow> bool" where
  "form_safe s \<longleftrightarrow> CHR ''&'' \<notin> set s \<and> CHR ''+'' \<notin> set s \<and> CHR ''%'' \<notin> set s"

lemma decode_safe: "form_safe s \<Longrightarrow> decode_value s = s"
  by (induction s rule: decode_value.induct) (auto simp: form_safe_def)

lemma decode_encode: "form_safe s \<Longrightarrow> decode_value (encode_value s) = s"
  by (induction s) (auto simp: form_safe_def encode_value_def)

lemma split_on_none: "c \<notin> set s \<Longrightarrow> split_on c s = [s]"
  by (induction s) auto

lemma split_on_append: "c \<notin> set s \<Longrightarrow> split_on c (s @ c # t) = s # split_on c t"
  by (induction s) auto

lemma decode_pair_form:
  assumes "form_safe k" and "form_safe v" and "CHR ''='' \<notin> set k"
  shows "decode_pair (k @ ''='' @ encode_value v) = (k, v)"
proof -
  have "takeWhile (\<lambda>c. c \<noteq> CHR ''='') (k @ ''='' @ encode_value v) = k"
    using assms(3) by (subst takeWhile_append2) auto
  then show ?thesis using assms by (simp add: decode_pair_def decode_safe decode_encode)
qed

lemma encode_amp: "CHR ''&'' \<in> set (encode_value v) \<longleftrightarrow> CHR ''&'' \<in> set v"
  by (auto simp: encode_value_def image_iff)

text \<open>
  The form bodies of the OAuth requests read back, by the standard's decoding, as the
  fields that were put in, spaces included, as long as no field holds one of the three
  characters the code leaves unescaped and no name an equals sign.
\<close>

theorem form_body_roundtrip:
  assumes "kvs \<noteq> []" and "\<forall>(k, v) \<in> set kvs. form_safe k \<and> form_safe v \<and> CHR ''='' \<notin> set k"
  shows "decode_form (form_body kvs) = kvs"
  using assms
proof (induction kvs rule: form_body.induct)
  case 1
  then show ?case by simp
next
  case (2 k v)
  then have "CHR ''&'' \<notin> set (k @ ''='' @ encode_value v)" by (auto simp: form_safe_def encode_amp)
  from split_on_none [OF this]
  have "decode_form (form_body [(k, v)]) = [decode_pair (k @ ''='' @ encode_value v)]"
    by (simp only: decode_form_def form_body.simps list.map)
  moreover have "decode_pair (k @ ''='' @ encode_value v) = (k, v)" using 2 by (intro decode_pair_form) auto
  ultimately show ?case by simp
next
  case (3 k v kv kvs)
  then have "CHR ''&'' \<notin> set (k @ ''='' @ encode_value v)" by (auto simp: form_safe_def encode_amp)
  from split_on_append [OF this, of "form_body (kv # kvs)"]
  have "split_on (CHR ''&'') (form_body ((k, v) # kv # kvs)) =
      (k @ ''='' @ encode_value v) # split_on (CHR ''&'') (form_body (kv # kvs))" by simp
  moreover have "decode_form (form_body (kv # kvs)) = kv # kvs" using 3 by auto
  moreover have "decode_pair (k @ ''='' @ encode_value v) = (k, v)" using 3 by (intro decode_pair_form) auto
  ultimately show ?case by (simp add: decode_form_def)
qed

theorem form_body_roundtrip_witness:
  "decode_form (form_body [(''password'', ''my pass=word''), (''username'', ''joe'')]) =
     [(''password'', ''my pass=word''), (''username'', ''joe'')]"
  by (rule form_body_roundtrip) (auto simp: form_safe_def)

text \<open>A password with an ampersand becomes another field.\<close>

lemma form_body_injects:
  "decode_form (form_body [(''password'', ''a&grant_type=b'')]) = [(''password'', ''a''), (''grant_type'', ''b'')]"
  by code_simp

lemma length_draw: "length (fst (draw E n w)) = n"
  by (induction n arbitrary: w) (auto simp: split_def Let_def)

text \<open>Each character of a drawn string is the one a draw of its own has chosen, one after the other.\<close>

definition drawn_in_turn :: "'w auth_env \<Rightarrow> 'w \<Rightarrow> string \<Rightarrow> bool" where
  "drawn_in_turn E w cs \<longleftrightarrow> (\<exists>ws. ws 0 = w \<and> (\<forall>k < length cs. \<exists>j < length credential_chars.
     ae_dice E (length credential_chars) (ws k) = (j, ws (Suc k)) \<and> cs ! k = credential_chars ! j))"

lemma draw_in_turn:
  assumes "\<And>m w. 0 < m \<Longrightarrow> fst (ae_dice E m w) < m"
  shows "drawn_in_turn E w (fst (draw E n w))"
proof (induction n arbitrary: w)
  case 0
  show ?case by (auto simp: drawn_in_turn_def intro: exI [of _ "\<lambda>_. w"])
next
  case (Suc n)
  obtain j w1 where d: "ae_dice E (length credential_chars) w = (j, w1)" by (rule prod.exhaust)
  have "0 < length credential_chars" by (simp add: credential_chars_def)
  from assms [OF this, of w] have j: "j < length credential_chars" by (simp add: d)
  from Suc.IH [of w1] obtain ws where ws: "ws 0 = w1" "\<And>k. k < n \<Longrightarrow> \<exists>j < length credential_chars.
      ae_dice E (length credential_chars) (ws k) = (j, ws (Suc k)) \<and> fst (draw E n w1) ! k = credential_chars ! j"
    by (auto simp: drawn_in_turn_def length_draw)
  have f: "fst (draw E (Suc n) w) = credential_chars ! j # fst (draw E n w1)" by (simp add: d split_def Let_def)
  have "\<exists>i < length credential_chars. ae_dice E (length credential_chars) (case_nat w ws k) = (i, case_nat w ws (Suc k)) \<and>
      fst (draw E (Suc n) w) ! k = credential_chars ! i" if "k < Suc n" for k
    using that d j ws unfolding f by (cases k) auto
  moreover have "length (fst (draw E (Suc n) w)) = Suc n" by (rule length_draw)
  ultimately show ?case unfolding drawn_in_turn_def by (intro exI [of _ "case_nat w ws"]) simp
qed

lemma draw_logged: "draw (logged E) n (w, l) = (fst (draw E n w), (snd (draw E n w), l))"
  by (induction n arbitrary: w) (simp_all add: logged_def split_def Let_def)

lemma device_payload_logged [simp]: "device_payload (logged E) = device_payload E"
  by (intro ext) (simp add: device_payload_def)

text \<open>
  C20. Credentials that provisioning reports are complete and are the registered ones: the host
  and user it was asked for, an identifier, verification on, and as their secret sixteen
  characters of the alphabet drawn for this device, one after the other. It is this secret, and
  no other, that every request sent registers the device with, and one of them the server has
  accepted with the reported status. Every other outcome carries no credentials.
\<close>

theorem provisioned_credentials_complete:
  assumes "provision_device (logged E) host user i n tok p (w, l) = (Inr r, (w', l'))"
    and "\<And>m w. 0 < m \<Longrightarrow> fst (ae_dice E m w) < m"
  shows "if pv_success r
    then cr_is_valid (pv_credentials r) \<and> cr_host (pv_credentials r) = host \<and> cr_user (pv_credentials r) = user \<and>
      cr_name (pv_credentials r) = n \<and> cr_verify_ssl (pv_credentials r) \<and> pv_status r \<in> {200, 201} \<and>
      length (cr_token (pv_credentials r)) = 16 \<and> drawn_in_turn E w (cr_token (pv_credentials r)) \<and>
      (\<exists>es payload. l' = l @ es \<and> jfind payload ''credentials'' = Some (JStr (cr_token (pv_credentials r))) \<and>
         (\<forall>q out. Sent q out \<in> set es \<longrightarrow> rq_url q = user_url host user ''/devices'' \<and> rq_body q = ae_dump E payload) \<and>
         (\<exists>q body. Sent q (HttpResponse (pv_status r) body) \<in> set es))
    else pv_credentials r = no_credentials"
proof -
  let ?secret = "fst (draw E 16 w)" and ?w = "snd (draw E 16 w)" and ?url = "user_url host user ''/devices''"
  let ?payload = "device_payload E i n ?secret p"
  have d: "generate_device_credentials (logged E) (w, l) = (Inr ?secret, (?w, l))"
    by (simp add: generate_device_credentials_def draw_logged)
  obtain rs w2 where run: "make_http_request_with_fallback (logged E) ?url ''POST'' ?payload (bearer tok) (?w, l) = (Inr rs, w2)"
    using assms(1) by (cases "make_http_request_with_fallback (logged E) ?url ''POST'' ?payload (bearer tok) (?w, l)")
      (auto simp: provision_device_def abind_def d split: sum.splits)
  from run obtain es w1 v where es: "w2 = (w1, l @ es)"
    "\<forall>ev \<in> set es. sent_as (json_request E ?url ''POST'' ?payload (bearer tok)) ev"
    "Sent (json_request E ?url ''POST'' ?payload (bearer tok) v) (HttpResponse (rs_status rs) (rs_body rs)) \<in> set es"
    by (rule request_logged) auto
  have body: "jfind ?payload ''credentials'' = Some (JStr ?secret)" by (simp add: device_payload_def)
  then have full: "\<not> jempty ?payload" by (cases ?payload) (auto simp: smap_get_def)
  have sent: "\<forall>q out. Sent q out \<in> set es \<longrightarrow> rq_url q = ?url \<and> rq_body q = ae_dump E ?payload"
    using es(2) full by (fastforce simp: sent_as_def json_request_def)
  have l': "w2 = (w', l')"
    using assms(1) by (auto simp: provision_device_def abind_def d run alift_def aret_def not_provisioned_def Let_def
        split: if_splits sum.splits prod.splits)
  show ?thesis
  proof (cases "pv_success r")
    case True
    then have r: "cr_is_valid (pv_credentials r)" "cr_host (pv_credentials r) = host" "cr_user (pv_credentials r) = user"
      "cr_name (pv_credentials r) = n" "cr_verify_ssl (pv_credentials r)" "pv_status r \<in> {200, 201}"
      "cr_token (pv_credentials r) = ?secret" "pv_status r = rs_status rs"
      using assms(1) by (auto simp: provision_device_def abind_def d run alift_def aret_def not_provisioned_def Let_def
          split: if_splits sum.splits prod.splits)
    have "\<exists>es payload. l' = l @ es \<and> jfind payload ''credentials'' = Some (JStr ?secret) \<and>
        (\<forall>q out. Sent q out \<in> set es \<longrightarrow> rq_url q = ?url \<and> rq_body q = ae_dump E payload) \<and>
        (\<exists>q body. Sent q (HttpResponse (rs_status rs) body) \<in> set es)"
      using es(1,3) l' sent body by (intro exI [of _ es] exI [of _ ?payload]) auto
    with True r length_draw [of E 16 w] draw_in_turn [OF assms(2), of w 16] show ?thesis by simp
  next
    case False
    with assms(1) show ?thesis
      by (auto simp: provision_device_def abind_def d run alift_def aret_def not_provisioned_def Let_def
          split: if_splits sum.splits prod.splits)
  qed
qed

theorem provisioned_credentials_complete_witness:
  "drawn_in_turn demo_auth 0 (cr_token (pv_credentials
     (case provision_device (logged demo_auth) ''h'' ''u'' ''d'' ''n'' ''t'' [] (0, []) of (Inr r, w) \<Rightarrow> r)))"
proof -
  have dice: "\<And>m w. 0 < m \<Longrightarrow> fst (ae_dice demo_auth m w) < m" by (simp add: demo_auth_def)
  have parse: "ae_parse demo_auth ''POST'' = Some (jobj [(''access_token'', JStr ''tok'')])" by (simp add: demo_auth_def)
  have "fst (draw demo_auth 16 0) \<noteq> []" using length_draw [of demo_auth 16 0] by auto
  then obtain r w' l' where run: "provision_device (logged demo_auth) ''h'' ''u'' ''d'' ''n'' ''t'' [] (0, []) = (Inr r, (w', l'))"
    and "pv_success r"
    by (simp add: provision_device_def generate_device_credentials_def draw_logged abind_def demo_request parse_response_def parse
        alift_def aret_def Let_def cr_is_valid_def)
  with provisioned_credentials_complete [OF run dice] show ?thesis by simp
qed

end
