(* ===== verification/Console.thy ===== *)
theory Console
  imports Actions
begin

text \<open>
  Actions that may never return, and the menus of the terminal
  (\<open>src/thinr/utils/console.cpp\<close>): the arrow-key menu, the numbered menu it falls back to and
  the yes/no question. The loops read until they are satisfied, so they are partial functions;
  \<open>None\<close> is a loop that never ends. What is printed is left out.
\<close>

section \<open>Actions that may not return\<close>

type_synonym ('w, 'a) iact = "'w \<Rightarrow> ('a res \<times> 'w) option"

definition iret :: "'a \<Rightarrow> ('w, 'a) iact" where
  "iret x = (\<lambda>w. Some (Inr x, w))"

definition ithrow :: "exn \<Rightarrow> ('w, 'a) iact" where
  "ithrow e = (\<lambda>w. Some (Inl e, w))"

definition ilift :: "('w, 'a) act \<Rightarrow> ('w, 'a) iact" where
  "ilift m = (\<lambda>w. Some (m w))"

definition ires :: "'a res \<Rightarrow> ('w, 'a) iact" where
  "ires r = (\<lambda>w. Some (r, w))"

definition ibind :: "('w, 'a) iact \<Rightarrow> ('a \<Rightarrow> ('w, 'b) iact) \<Rightarrow> ('w, 'b) iact" where
  "ibind m f = (\<lambda>w. Option.bind (m w) (\<lambda>(r, w'). case r of Inl e \<Rightarrow> Some (Inl e, w') | Inr x \<Rightarrow> f x w'))"

definition icatch :: "('w, 'a) iact \<Rightarrow> (exn \<Rightarrow> ('w, 'a) iact) \<Rightarrow> ('w, 'a) iact" where
  "icatch m f = (\<lambda>w. Option.bind (m w) (\<lambda>(r, w'). case r of Inl e \<Rightarrow> f e w' | Inr x \<Rightarrow> Some (Inr x, w')))"

text \<open>A recursive call below a sequence or a handler keeps the functional monotone.\<close>

lemma ibind_mono [partial_function_mono]:
  assumes m: "\<And>w. mono_option (\<lambda>f. m f w)" and g: "\<And>x w. mono_option (\<lambda>f. g f x w)"
  shows "mono_option (\<lambda>f. ibind (m f) (g f) w)"
  unfolding ibind_def
  apply (rule bind_mono [OF m])
  subgoal for p by (cases "fst p"; cases p) (auto intro: g option.const_mono)
  done

lemma icatch_mono [partial_function_mono]:
  assumes m: "\<And>w. mono_option (\<lambda>f. m f w)" and g: "\<And>e w. mono_option (\<lambda>f. g f e w)"
  shows "mono_option (\<lambda>f. icatch (m f) (g f) w)"
  unfolding icatch_def
  apply (rule bind_mono [OF m])
  subgoal for p by (cases "fst p"; cases p) (auto intro: g option.const_mono)
  done

lemma iif_mono [partial_function_mono]:
  assumes "mono_option (\<lambda>f. m f w)" and "mono_option (\<lambda>f. n f w)"
  shows "mono_option (\<lambda>f. (if b then m f else n f) w)"
  using assms by (cases b) simp_all

lemma iact_app [act_simps]: "iret x w = Some (Inr x, w)" "ithrow e w = Some (Inl e, w)" "ilift m w = Some (m w)" "ires r w = Some (r, w)"
  by (simp_all add: iret_def ithrow_def ilift_def ires_def)

lemma ibind_run [act_simps]:
  "m w = Some (Inr x, w') \<Longrightarrow> ibind m f w = f x w'" "m w = Some (Inl e, w') \<Longrightarrow> ibind m f w = Some (Inl e, w')"
  "m w = None \<Longrightarrow> ibind m f w = None"
  by (simp_all add: ibind_def)

lemma icatch_run [act_simps]:
  "m w = Some (Inr x, w') \<Longrightarrow> icatch m f w = Some (Inr x, w')" "m w = Some (Inl e, w') \<Longrightarrow> icatch m f w = f e w'"
  "m w = None \<Longrightarrow> icatch m f w = None"
  by (simp_all add: icatch_def)

lemma ibind_iret [simp]: "ibind (iret x) f = f x" "ibind (ithrow e) f = ithrow e"
  by (simp_all add: ibind_def iret_def ithrow_def)

lemma ibind_cases:
  assumes "ibind m f w = Some (r, w')"
  obtains (thrown) e where "m w = Some (Inl e, w')" "r = Inl e"
  | (returned) x w1 where "m w = Some (Inr x, w1)" "f x w1 = Some (r, w')"
proof -
  from assms obtain r' w1 where m: "m w = Some (r', w1)" by (auto simp: ibind_def bind_eq_Some_conv)
  with assms show ?thesis by (cases r') (auto simp: ibind_def intro: thrown returned)
qed

lemma icatch_cases:
  assumes "icatch m f w = Some (r, w')"
  obtains (thrown) e w1 where "m w = Some (Inl e, w1)" "f e w1 = Some (r, w')"
  | (returned) x where "m w = Some (Inr x, w')" "r = Inr x"
proof -
  from assms obtain r' w1 where m: "m w = Some (r', w1)" by (auto simp: icatch_def bind_eq_Some_conv)
  with assms show ?thesis by (cases r') (auto simp: icatch_def intro: thrown returned)
qed

text \<open>What every run that returns keeps, and what its result satisfies.\<close>

definition ikeeps :: "('w \<Rightarrow> bool) \<Rightarrow> ('w, 'a) iact \<Rightarrow> bool" where
  "ikeeps I m \<longleftrightarrow> (\<forall>w r w'. m w = Some (r, w') \<longrightarrow> I w \<longrightarrow> I w')"

named_theorems ikeeps_intros \<open>preservation of invariants by actions that may not return\<close>

lemma ikeeps_basic [ikeeps_intros]: "ikeeps I (iret x)" "ikeeps I (ithrow e)" "ikeeps I (ires r)"
  by (simp_all add: ikeeps_def act_simps)

lemma ikeeps_ilift [ikeeps_intros]: "keeps I m \<Longrightarrow> ikeeps I (ilift m)"
  unfolding ikeeps_def keeps_def ilift_def by (metis option.inject snd_conv)

lemma ikeeps_ibind [ikeeps_intros]: "ikeeps I m \<Longrightarrow> (\<And>x. ikeeps I (f x)) \<Longrightarrow> ikeeps I (ibind m f)"
  unfolding ikeeps_def by (metis ibind_cases)

lemma ikeeps_icatch [ikeeps_intros]: "ikeeps I m \<Longrightarrow> (\<And>e. ikeeps I (f e)) \<Longrightarrow> ikeeps I (icatch m f)"
  unfolding ikeeps_def by (metis icatch_cases)

lemma ikeeps_if [ikeeps_intros]: "ikeeps I m \<Longrightarrow> ikeeps I n \<Longrightarrow> ikeeps I (if b then m else n)"
  by simp

lemma ikeepsD: "ikeeps I m \<Longrightarrow> m w = Some (r, w') \<Longrightarrow> I w \<Longrightarrow> I w'"
  unfolding ikeeps_def by blast

section \<open>Menus\<close>

text \<open>
  A terminal: whether both ends are one, whether raw mode can be set, the next byte (\<open>None\<close>
  when \<open>read\<close> does not deliver one) and the next line.
\<close>

record 'w tty =
  te_interactive :: bool
  te_raw_ok :: bool
  te_key :: "'w \<Rightarrow> char option \<times> 'w"
  te_line :: "'w \<Rightarrow> string \<times> 'w"

datatype menu_key = KeyUp | KeyDown | KeyEnter | KeyCancel | KeyOther

text \<open>One turn of the loop: the bytes of one key.\<close>

definition read_key :: "'w tty \<Rightarrow> 'w \<Rightarrow> menu_key \<times> 'w" where
  "read_key T w = (case te_key T w of
     (None, w1) \<Rightarrow> (KeyOther, w1)
   | (Some c, w1) \<Rightarrow>
       if c = CHR 0x1B then
         (case te_key T w1 of
            (Some c2, w2) \<Rightarrow>
              if c2 = CHR ''['' then
                (case te_key T w2 of
                   (Some c3, w3) \<Rightarrow> (if c3 = CHR ''A'' then KeyUp else if c3 = CHR ''B'' then KeyDown else KeyOther, w3)
                 | (None, w3) \<Rightarrow> (KeyOther, w3))
              else (KeyCancel, w2)
          | (None, w2) \<Rightarrow> (KeyCancel, w2))
       else if c = CHR 0x0D \<or> c = CHR 0x0A then (KeyEnter, w1)
       else if c = CHR 0x03 then (KeyCancel, w1)
       else (KeyOther, w1))"

partial_function (option) select_loop :: "'w tty \<Rightarrow> nat \<Rightarrow> nat \<Rightarrow> 'w \<Rightarrow> (int \<times> 'w) option" where
  "select_loop T n selected w =
     (case read_key T w of (key, w') \<Rightarrow>
        (case key of
           KeyUp \<Rightarrow> select_loop T n (if 0 < selected then selected - 1 else n - 1) w'
         | KeyDown \<Rightarrow> select_loop T n (if selected < n - 1 then selected + 1 else 0) w'
         | KeyEnter \<Rightarrow> Some (int selected, w')
         | KeyCancel \<Rightarrow> Some (- 1, w')
         | KeyOther \<Rightarrow> select_loop T n selected w'))"

definition select_option :: "'w tty \<Rightarrow> string list \<Rightarrow> int \<Rightarrow> 'w \<Rightarrow> (int \<times> 'w) option" where
  "select_option T options default_selected w =
     (if options = [] then Some (- 1, w)
      else if \<not> te_interactive T \<or> \<not> te_raw_ok T then Some (- 1, w)
      else select_loop T (length options)
             (if 0 \<le> default_selected \<and> default_selected < int (length options) then nat default_selected else 0) w)"

text \<open>\<open>std::stoi\<close> on a line: leading space and sign, then digits; what follows is ignored.\<close>

definition stoi :: "string \<Rightarrow> int option" where
  "stoi s = (case take_number s of
     None \<Rightarrow> None
   | Some (sg, n, rest) \<Rightarrow> let v = sg * n in if - 2147483648 \<le> v \<and> v \<le> 2147483647 then Some v else None)"

partial_function (option) ask_number :: "'w tty \<Rightarrow> nat \<Rightarrow> 'w \<Rightarrow> (int \<times> 'w) option" where
  "ask_number T n w =
     (case te_line T w of (input, w') \<Rightarrow>
        (case stoi input of
           None \<Rightarrow> ask_number T n w'
         | Some choice \<Rightarrow> if choice < 1 \<or> int n < choice then ask_number T n w' else Some (choice, w')))"

definition get_user_choice :: "'w tty \<Rightarrow> string list \<Rightarrow> 'w \<Rightarrow> (int \<times> 'w) option" where
  "get_user_choice T options w =
     (if te_interactive T then
        (case select_option T options 0 w of
           None \<Rightarrow> None
         | Some (selected, w') \<Rightarrow>
             if 0 \<le> selected \<and> selected < int (length options) then Some (selected + 1, w')
             else ask_number T (length options) w')
      else ask_number T (length options) w)"

definition confirm :: "'w tty \<Rightarrow> bool \<Rightarrow> 'w \<Rightarrow> (bool \<times> 'w) option" where
  "confirm T default_yes w =
     (case get_user_choice T [''Yes'', ''No''] w of
        None \<Rightarrow> None
      | Some (choice, w') \<Rightarrow> Some (if choice = 1 then True else if choice = 2 then False else default_yes, w'))"

section \<open>Menus as actions\<close>

definition ichoice :: "'w tty \<Rightarrow> string list \<Rightarrow> ('w, int) iact" where
  "ichoice T options = (\<lambda>w. map_option (\<lambda>(c, w'). (Inr c, w')) (get_user_choice T options w))"

definition iconfirm :: "'w tty \<Rightarrow> bool \<Rightarrow> ('w, bool) iact" where
  "iconfirm T default_yes = (\<lambda>w. map_option (\<lambda>(c, w'). (Inr c, w')) (confirm T default_yes w))"

definition iline :: "'w tty \<Rightarrow> ('w, string) iact" where
  "iline T = (\<lambda>w. case te_line T w of (s, w') \<Rightarrow> Some (Inr s, w'))"

section \<open>Properties\<close>

lemma select_loop_range:
  assumes "select_loop T n selected w = Some (r, w')" and "selected < n"
  shows "r = - 1 \<or> 0 \<le> r \<and> r < int n"
proof -
  have "selected < n \<longrightarrow> fst (r, w') = - 1 \<or> 0 \<le> fst (r, w') \<and> fst (r, w') < int n"
  proof (rule select_loop.raw_induct [where P = "\<lambda>T n selected w y. selected < n \<longrightarrow>
      fst y = - 1 \<or> 0 \<le> fst y \<and> fst y < int n", OF _ assms(1)])
    fix loop and T :: "'a tty" and n selected :: nat and w and y :: "int \<times> 'a"
    assume IH: "\<And>T n selected w y. loop T n selected w = Some y \<Longrightarrow>
        selected < n \<longrightarrow> fst y = - 1 \<or> 0 \<le> fst y \<and> fst y < int n"
      and step: "(case read_key T w of (key, w') \<Rightarrow>
        (case key of
           KeyUp \<Rightarrow> loop T n (if 0 < selected then selected - 1 else n - 1) w'
         | KeyDown \<Rightarrow> loop T n (if selected < n - 1 then selected + 1 else 0) w'
         | KeyEnter \<Rightarrow> Some (int selected, w')
         | KeyCancel \<Rightarrow> Some (- 1, w')
         | KeyOther \<Rightarrow> loop T n selected w')) = Some y"
    obtain key w1 where k: "read_key T w = (key, w1)" by (rule prod.exhaust)
    show "selected < n \<longrightarrow> fst y = - 1 \<or> 0 \<le> fst y \<and> fst y < int n"
    proof
      assume n: "selected < n"
      have up: "(if 0 < selected then selected - 1 else n - 1) < n" "(if selected < n - 1 then selected + 1 else 0) < n"
        using n by auto
      from step k n show "fst y = - 1 \<or> 0 \<le> fst y \<and> fst y < int n"
        using IH [of T n "if 0 < selected then selected - 1 else n - 1" w1 y]
          IH [of T n "if selected < n - 1 then selected + 1 else 0" w1 y] IH [of T n selected w1 y] up
        by (cases key) (auto split del: if_split)
    qed
  qed
  with assms(2) show ?thesis by simp
qed

lemma ask_number_range:
  assumes "ask_number T n w = Some (c, w')"
  shows "1 \<le> c \<and> c \<le> int n"
proof -
  have "1 \<le> fst (c, w') \<and> fst (c, w') \<le> int n"
    by (rule ask_number.raw_induct [where P = "\<lambda>T n w y. 1 \<le> fst y \<and> fst y \<le> int n", OF _ assms])
      (auto split: prod.splits option.splits if_splits)
  then show ?thesis by simp
qed

text \<open>
  Whatever is typed, a menu that returns delivers a number of one of its options, whether by
  the arrow keys (which wrap around at both ends), by the numbered fallback or after cancelling
  the former: the default branches of the switches that follow it are never taken.
\<close>
theorem user_choice_in_range:
  assumes "get_user_choice T options w = Some (choice, w')"
  shows "1 \<le> choice \<and> choice \<le> int (length options)"
proof -
  have sel: "r = - 1 \<or> 0 \<le> r \<and> r < int (length options)" if "select_option T options 0 w = Some (r, v)" for r v
    using that select_loop_range [of T "length options" 0 w r v]
    by (auto simp: select_option_def split: if_splits)
  show ?thesis
    using assms sel ask_number_range by (fastforce simp: get_user_choice_def split: if_splits option.splits)
qed

text \<open>A terminal fed from a string: keys byte by byte, lines up to the newline.\<close>

definition demo_tty :: "bool \<Rightarrow> string tty" where
  "demo_tty on = \<lparr>te_interactive = on, te_raw_ok = True,
     te_key = (\<lambda>s. case s of [] \<Rightarrow> (None, []) | c # cs \<Rightarrow> (Some c, cs)),
     te_line = (\<lambda>s. (takeWhile (\<lambda>c. c \<noteq> CHR 0x0A) s, drop 1 (dropWhile (\<lambda>c. c \<noteq> CHR 0x0A) s)))\<rparr>"

lemma demo_choice: "get_user_choice (demo_tty True) [''a'', ''b'', ''c''] [CHR 0x1B, CHR ''['', CHR ''A'', CHR 0x0A] = Some (3, [])"
  by (simp add: get_user_choice_def select_option_def demo_tty_def select_loop.simps read_key_def)

theorem user_choice_in_range_witness:
  "\<exists>c s. get_user_choice (demo_tty True) [''a'', ''b'', ''c''] [CHR 0x1B, CHR ''['', CHR ''A'', CHR 0x0A] = Some (c, s) \<and> 1 \<le> c \<and> c \<le> 3"
  using user_choice_in_range [OF demo_choice] demo_choice by simp

text \<open>
  A menu never returns once its input has ended: when neither a byte nor a line comes any
  more (the terminal is gone, or the input is a closed pipe), both loops keep reading for ever,
  because neither looks at the state of the stream.
\<close>
theorem menu_spins_at_end_of_input:
  assumes "te_key T w = (None, w)" and "te_line T w = ([], w)" and "options \<noteq> []"
  shows "get_user_choice T options w = None"
proof -
  have key: "read_key T w = (KeyOther, w)" by (simp add: read_key_def assms(1))
  have "select_loop T n k w \<noteq> Some y" for n k and y :: "int \<times> 'a"
  proof
    assume "select_loop T n k w = Some y"
    then have "(T, w) = (T, w) \<longrightarrow> False"
      by (rule select_loop.raw_induct [where P = "\<lambda>T' n k w' y. (T', w') = (T, w) \<longrightarrow> False", rotated])
        (fastforce simp: key)
    then show False by simp
  qed
  then have 1: "select_loop T n k w = None" for n k by (cases "select_loop T n k w") auto
  have empty: "stoi [] = None" by (simp add: stoi_def take_number_def)
  have "ask_number T n w \<noteq> Some y" for n and y :: "int \<times> 'a"
  proof
    assume "ask_number T n w = Some y"
    then have "(T, w) = (T, w) \<longrightarrow> False"
      by (rule ask_number.raw_induct [where P = "\<lambda>T' n w' y. (T', w') = (T, w) \<longrightarrow> False", rotated])
        (fastforce simp: assms(2) empty)
    then show False by simp
  qed
  then have 2: "ask_number T n w = None" for n by (cases "ask_number T n w") auto
  show ?thesis by (simp add: get_user_choice_def select_option_def 1 2)
qed

theorem menu_spins_at_end_of_input_witness:
  "get_user_choice (demo_tty False) [''Yes'', ''No''] [] = None"
  by (rule menu_spins_at_end_of_input) (simp_all add: demo_tty_def)

lemma ichoice_range:
  "ichoice T options w = Some (Inr choice, w') \<Longrightarrow> 1 \<le> choice \<and> choice \<le> int (length options)"
  using select_loop_range ask_number_range
  by (fastforce simp: ichoice_def get_user_choice_def select_option_def split: if_splits option.splits)

section \<open>What reading from the terminal keeps\<close>

definition tty_keeps :: "('w \<Rightarrow> bool) \<Rightarrow> 'w tty \<Rightarrow> bool" where
  "tty_keeps I T \<longleftrightarrow> (\<forall>w. I w \<longrightarrow> I (snd (te_key T w)) \<and> I (snd (te_line T w)))"

lemma tty_keepsD:
  assumes "tty_keeps I T" and "I w"
  shows "te_key T w = (k, w1) \<Longrightarrow> I w1" "te_line T w = (l, w2) \<Longrightarrow> I w2"
  using assms unfolding tty_keeps_def by (metis snd_conv)+

lemma read_key_keeps: "tty_keeps I T \<Longrightarrow> I w \<Longrightarrow> I (snd (read_key T w))"
  unfolding read_key_def by (auto split: prod.splits option.splits dest: tty_keepsD(1)) 

lemma select_loop_keeps:
  assumes "select_loop T n k w = Some (r, w')" and "tty_keeps I T" and "I w"
  shows "I w'"
proof -
  have "tty_keeps I T \<longrightarrow> I w \<longrightarrow> I (snd (r, w'))"
  proof (rule select_loop.raw_induct [where P = "\<lambda>T n k w y. tty_keeps I T \<longrightarrow> I w \<longrightarrow> I (snd y)", OF _ assms(1)], intro impI)
    fix loop and T :: "'a tty" and n k :: nat and w and y :: "int \<times> 'a"
    assume IH: "\<And>T n k w y. loop T n k w = Some y \<Longrightarrow> tty_keeps I T \<longrightarrow> I w \<longrightarrow> I (snd y)"
      and step: "(case read_key T w of (key, w') \<Rightarrow>
        (case key of
           KeyUp \<Rightarrow> loop T n (if 0 < k then k - 1 else n - 1) w'
         | KeyDown \<Rightarrow> loop T n (if k < n - 1 then k + 1 else 0) w'
         | KeyEnter \<Rightarrow> Some (int k, w')
         | KeyCancel \<Rightarrow> Some (- 1, w')
         | KeyOther \<Rightarrow> loop T n k w')) = Some y"
      and T: "tty_keeps I T" and w: "I w"
    obtain key w1 where key: "read_key T w = (key, w1)" by (rule prod.exhaust)
    then have w1: "I w1" using read_key_keeps [OF T w] by simp
    have again: "loop T n m w1 = Some y \<Longrightarrow> I (snd y)" for m using IH T w1 by blast
    from step w1 again show "I (snd y)" by (cases key) (auto simp: key split del: if_split)
  qed
  with assms(2,3) show ?thesis by simp
qed

lemma ask_number_keeps:
  assumes "ask_number T n w = Some (r, w')" and "tty_keeps I T" and "I w"
  shows "I w'"
proof -
  have "tty_keeps I T \<longrightarrow> I w \<longrightarrow> I (snd (r, w'))"
  proof (rule ask_number.raw_induct [where P = "\<lambda>T n w y. tty_keeps I T \<longrightarrow> I w \<longrightarrow> I (snd y)", OF _ assms(1)], intro impI)
    fix loop and T :: "'a tty" and n :: nat and w and y :: "int \<times> 'a"
    assume IH: "\<And>T n w y. loop T n w = Some y \<Longrightarrow> tty_keeps I T \<longrightarrow> I w \<longrightarrow> I (snd y)"
      and step: "(case te_line T w of (input, w') \<Rightarrow>
        (case stoi input of
           None \<Rightarrow> loop T n w'
         | Some choice \<Rightarrow> if choice < 1 \<or> int n < choice then loop T n w' else Some (choice, w'))) = Some y"
      and T: "tty_keeps I T" and w: "I w"
    obtain l w1 where l: "te_line T w = (l, w1)" by (rule prod.exhaust)
    then have w1: "I w1" by (rule tty_keepsD(2) [OF T w])
    have again: "loop T n w1 = Some y \<Longrightarrow> I (snd y)" using IH T w1 by blast
    from step w1 again show "I (snd y)" by (auto simp: l split: option.splits if_splits)
  qed
  with assms(2,3) show ?thesis by simp
qed

lemma user_choice_keeps:
  assumes "get_user_choice T options w = Some (c, w')" and "tty_keeps I T" and "I w"
  shows "I w'"
proof -
  have "I v" if "select_option T options 0 w = Some (r, v)" for r v
    using that assms(2,3) select_loop_keeps by (auto simp: select_option_def split: if_splits)
  with assms show ?thesis using ask_number_keeps
    by (auto simp: get_user_choice_def split: if_splits option.splits)
qed

lemma ikeeps_menus [ikeeps_intros]:
  assumes "tty_keeps I T"
  shows "ikeeps I (ichoice T options)" "ikeeps I (iconfirm T d)" "ikeeps I (iline T)"
proof -
  have c: "I w'" if "get_user_choice T os w = Some (c, w')" "I w" for os w c w'
    using user_choice_keeps [OF that(1) assms that(2)] .
  show "ikeeps I (ichoice T options)" unfolding ikeeps_def ichoice_def by (auto intro: c)
  show "ikeeps I (iconfirm T d)" unfolding ikeeps_def iconfirm_def confirm_def by (auto split: option.splits intro: c)
  show "ikeeps I (iline T)" unfolding ikeeps_def iline_def by (auto split: prod.splits dest: tty_keepsD(2) [OF assms])
qed

end
