(* ===== verification/Store.thy ===== *)
theory Store
  imports Console Config Service_Installer
begin

text \<open>
  The configuration manager as actions on the machine of the installers: the file is one of the
  machine's files, each operation is the one of \<open>Config\<close> on the history that starts there, and
  the last state of that history is the machine's. A write that never ends does not return. The
  text is parsed whole, or from the front of a stream where the credentials are loaded.
\<close>

record 'w store =
  st_parse :: "string \<Rightarrow> json option"
  st_stream :: "string \<Rightarrow> json option"
  st_dump :: "json \<Rightarrow> string"
  st_env :: "'w world \<Rightarrow> cfg_env"
  st_path :: string

definition on_files :: "(history \<Rightarrow> (history \<times> 'a res) option) \<Rightarrow> ('w world, 'a) iact" where
  "on_files f = (\<lambda>w. map_option (\<lambda>(h, r). (r, w\<lparr>wo_fs := hd h\<rparr>)) (f [wo_fs w]))"

definition config_exists :: "'w store \<Rightarrow> ('w world, bool) act" where
  "config_exists St = (\<lambda>w. (cfg_exists (st_env St w) (wo_fs w) (st_path St), w))"

definition config_load :: "'w store \<Rightarrow> ('w world, credentials) act" where
  "config_load St = (\<lambda>w. (load (st_stream St) (st_env St w) (wo_fs w) (st_path St), w))"

definition config_update_section :: "'w store \<Rightarrow> ('w world, json) act" where
  "config_update_section St = (\<lambda>w. (Inr (read_update_section (st_parse St) (st_env St w) (wo_fs w) (st_path St)), w))"

definition config_save :: "'w store \<Rightarrow> credentials \<Rightarrow> ('w world, unit) iact" where
  "config_save St c = (\<lambda>w. on_files (save (st_parse St) (st_dump St) (st_env St w) (st_path St) c) w)"

definition config_write_update :: "'w store \<Rightarrow> json \<Rightarrow> ('w world, unit) iact" where
  "config_write_update St j = (\<lambda>w. on_files (write_update_section (st_parse St) (st_dump St) (st_env St w) (st_path St) j) w)"

definition config_remove :: "'w store \<Rightarrow> ('w world, unit) iact" where
  "config_remove St = (\<lambda>w. on_files (\<lambda>h. Some (remove_config (st_env St w) (st_path St) h)) w)"

text \<open>Reading leaves everything as it is.\<close>

lemma keeps_config_reads [keeps_intros]: "keeps I (config_exists St)" "keeps I (config_load St)" "keeps I (config_update_section St)"
  by (simp_all add: keeps_def config_exists_def config_load_def config_update_section_def)

end
