(* ===== verification/Auth_Frame.thy ===== *)
theory Auth_Frame
  imports Auth
begin

text \<open>
  What the manager's operations leave alone: an invariant of the world that the outside (the
  HTTP client, the callback, the random numbers, the clock) keeps is kept by every operation of
  \<open>Http\<close> and \<open>Auth\<close>. The dialogs and commands build on these rules.
\<close>

definition undisturbed :: "('w \<Rightarrow> bool) \<Rightarrow> 'w auth_env \<Rightarrow> bool" where
  "undisturbed I E \<longleftrightarrow> (\<forall>w. I w \<longrightarrow>
     (\<forall>q. I (snd (ae_http E q w))) \<and> (\<forall>ask m. ae_callback E = Some ask \<longrightarrow> I (snd (ask m w))) \<and>
     (\<forall>n. I (snd (ae_dice E n w))) \<and> (\<forall>n. I (ae_sleep E n w)))"

lemma undisturbedD:
  assumes "undisturbed I E" and "I w"
  shows "ae_http E q w = (out, w1) \<Longrightarrow> I w1" "ae_callback E = Some ask \<Longrightarrow> ask m w = (b, w2) \<Longrightarrow> I w2"
    "ae_dice E n w = (k, w3) \<Longrightarrow> I w3" "I (ae_sleep E t w)"
  using assms unfolding undisturbed_def by (metis snd_conv)+

named_theorems frame_intros \<open>operations that keep what the outside keeps\<close>

lemma frame_exchange [frame_intros]: "undisturbed I E \<Longrightarrow> keeps I (exchange E q)"
  unfolding keeps_def exchange_def by (auto split: prod.splits http_out.splits dest: undisturbedD(1))

lemma frame_send [frame_intros]:
  "undisturbed I E \<Longrightarrow> keeps I (make_http_request E url meth j au v)"
  "undisturbed I E \<Longrightarrow> keeps I (make_http_request_form E url meth form au v)"
  unfolding make_http_request_def make_http_request_form_def Let_def
  by (intro keeps_if keeps_athrow frame_exchange, assumption+)+

lemma frame_ssl [frame_intros]:
  assumes "undisturbed I E" and send: "\<And>v. keeps I (send v)"
  shows "keeps I (ssl_fallback E send)"
proof -
  have ask: "keeps I (\<lambda>w. case ask m w of (True, w') \<Rightarrow> send False w' | (False, w') \<Rightarrow> (Inl x, w'))"
    if "ae_callback E = Some ask" for ask m x
    using send undisturbedD(2) [OF assms(1) _ that] unfolding keeps_def by (auto split: prod.splits bool.splits)
  show ?thesis
    unfolding ssl_fallback_def
    by (intro keeps_acatch keeps_if keeps_athrow send) (auto split: option.splits intro: ask keeps_athrow)
qed

lemma frame_fallback [frame_intros]:
  "undisturbed I E \<Longrightarrow> keeps I (make_http_request_with_fallback E url meth j au)"
  "undisturbed I E \<Longrightarrow> keeps I (make_http_request_form_with_fallback E url meth form au)"
  unfolding make_http_request_with_fallback_def make_http_request_form_with_fallback_def
  by (intro frame_intros, assumption+)+

lemma frame_draw: "undisturbed I E \<Longrightarrow> I w \<Longrightarrow> I (snd (draw E n w))"
proof (induction n arbitrary: w)
  case (Suc n)
  obtain i w1 where d: "ae_dice E (length credential_chars) w = (i, w1)" by (rule prod.exhaust)
  then have "I w1" by (rule undisturbedD(3) [OF Suc.prems])
  then show ?case using Suc.IH [OF Suc.prems(1)] by (simp add: d Let_def split_def)
qed simp

lemma frame_generate [frame_intros]: "undisturbed I E \<Longrightarrow> keeps I (generate_device_credentials E)"
  unfolding keeps_def generate_device_credentials_def 
  by (auto simp: Let_def split_def intro: frame_draw)

lemma frame_ops [frame_intros]:
  assumes "undisturbed I E"
  shows "keeps I (oauth_password_flow E host user pw)" "keeps I (start_device_flow E host client)"
    "keeps I (provision_device E host user i n tok p)" "keeps I (delete_device E host user i tok)"
    "keeps I (list_items E url tok opn)" "keeps I (create_item E url tok j)" "keeps I (delete_alarm_rule E host user tok r)"
    "keeps I (token_request E host client code)"
  unfolding oauth_password_flow_def start_device_flow_def provision_device_def delete_device_def list_items_def
    create_item_def delete_alarm_rule_def token_request_def Let_def
  by (intro keeps_intros frame_intros assms)+

lemma frame_items [frame_intros]:
  assumes "undisturbed I E"
  shows "keeps I (list_products E host user tok)" "keeps I (list_alarm_rules E host user tok)"
    "keeps I (create_product E host user tok j)" "keeps I (create_alarm_rule E host user tok j)"
    "keeps I (auto_provision_with_device_id E tok i n p)"
  unfolding list_products_def list_alarm_rules_def create_product_def create_alarm_rule_def auto_provision_with_device_id_def
  by (intro keeps_intros frame_intros assms)+

lemma frame_drop [frame_intros]: "undisturbed I E \<Longrightarrow> keeps I (drop_existing E host user tok rs ids)"
  by (induction rs arbitrary: ids) (auto intro!: keeps_intros frame_intros)

lemma frame_create [frame_intros]: "undisturbed I E \<Longrightarrow> keeps I (create_missing E host user tok ids rs res)"
  by (induction rs arbitrary: res) (auto intro!: keeps_intros frame_intros)

lemma frame_ensure [frame_intros]: "undisturbed I E \<Longrightarrow> keeps I (ensure_default_alarms E host user tok force)"
  unfolding ensure_default_alarms_def by (intro keeps_intros frame_intros)

lemma frame_poll:
  assumes I: "undisturbed I E" and run: "poll_device_token E host client code timeout interval w = Some (r, w')" and w: "I w"
  shows "I w'"
proof -
  have "E = E \<longrightarrow> I w \<longrightarrow> I (snd (r, w'))"
  proof (rule poll_token_loop.raw_induct [where P = "\<lambda>E' host client code timeout interval start w y.
      E' = E \<longrightarrow> I w \<longrightarrow> I (snd y)", OF _ run [unfolded poll_device_token_def]], intro impI)
    fix loop E' host client code timeout interval start w and y :: "auth_result \<times> 'a"
    assume IH: "\<And>E' host client code timeout interval start w y.
        loop E' host client code timeout interval start w = Some y \<Longrightarrow> E' = E \<longrightarrow> I w \<longrightarrow> I (snd y)"
      and step: "(if ae_now E' w - start > seconds timeout then
          Some (auth_failed Timeout 0 (''User did not authorize within '' @ show_int timeout @ '' seconds''), w)
        else (case token_request E' host client code w of
           (Inl e, w1) \<Rightarrow> Some (auth_failed (classify_exception E' e) 0 (what_of (ae_what E') e), w1)
         | (Inr rs, w1) \<Rightarrow> (case poll_verdict_of E' rs of PollDone r \<Rightarrow> Some (r, w1)
              | PollAgain \<Rightarrow> loop E' host client code timeout interval start (ae_sleep E' interval w1)
              | PollSlowDown \<Rightarrow> loop E' host client code timeout interval start (ae_sleep E' 5 w1)))) = Some y"
      and E: "E' = E" and ok: "I w"
    obtain q w1 where t: "token_request E host client code w = (q, w1)" by (rule prod.exhaust)
    have ok1: "I w1" using frame_ops(8) [OF I, of host client code] ok t unfolding keeps_def by (metis snd_conv)
    then have "loop E host client code timeout interval start (ae_sleep E n w1) = Some y \<Longrightarrow> I (snd y)" for n
      using IH undisturbedD(4) [OF I] by blast
    with step ok ok1 show "I (snd y)" by (auto simp: E t split: if_splits sum.splits poll_verdict.splits)
  qed
  with w show ?thesis by simp
qed

text \<open>What a successful provisioning reports.\<close>

lemma provision_success:
  assumes "provision_device E host user i n tok p w = (Inr r, w')" and "pv_success r"
  shows "cr_is_valid (pv_credentials r) \<and> cr_host (pv_credentials r) = host \<and> cr_user (pv_credentials r) = user \<and>
    cr_verify_ssl (pv_credentials r)"
  using assms by (auto simp: provision_device_def abind_def alift_def aret_def not_provisioned_def Let_def
      split: if_splits sum.splits prod.splits)

end
