(* ===== verification/Setup.thy ===== *)
theory Setup
  imports Store Auth_Frame Device_Id
begin

text \<open>
  The interactive setup (\<open>src/thinr/installer/interactive_setup.cpp\<close>): the menus, the four ways to
  authenticate, the choice of a product, provisioning with its conflict dialog, and what is
  saved and installed in the end. The object's one piece of state, the remembered answer about
  certificate verification, is part of the world; output on the terminal is left out.
\<close>

section \<open>State and environment\<close>

datatype ssl_decision = NOT_ASKED | VERIFY | NO_VERIFY

datatype main_menu_option = INSTALL_SERVICE | CONFIGURE_STANDALONE | TEST_CONNECTION | EXIT_MENU

datatype auth_method = PASSWORD_FLOW | AUTO_PROVISION | DEVICE_FLOW | DIRECT_CREDENTIALS

datatype conflict_resolution = CHOOSE_NEW_ID | OVERWRITE | GO_BACK

record 'r dialog =
  dg_decision :: ssl_decision
  dg_rest :: 'r

type_synonym 'r desk = "'r dialog world"

definition decision :: "'r desk \<Rightarrow> ssl_decision" where
  "decision w = dg_decision (wo_rest w)"

definition decide :: "ssl_decision \<Rightarrow> 'r desk \<Rightarrow> 'r desk" where
  "decide d w = w\<lparr>wo_rest := (wo_rest w)\<lparr>dg_decision := d\<rparr>\<rparr>"

text \<open>
  The connection test runs an agent for up to thirty seconds: its outcome is a parameter. So is
  the answer to the question of the certificate callback, a \<open>confirm\<close> that returns, and the
  clearing of pending input.
\<close>

datatype live_out = Live | NotLive | LiveThrows exn

record 'r setup_env =
  su_host :: "'r dialog host"
  su_init :: "'r dialog init_impl"
  su_auth :: "'r desk auth_env"
  su_tty :: "'r desk tty"
  su_store :: "'r dialog store"
  su_machine :: machine
  su_host_name :: "string option"
  su_answer :: "'r desk \<Rightarrow> bool \<times> 'r desk"
  su_live :: "credentials \<Rightarrow> 'r desk \<Rightarrow> live_out \<times> 'r desk"
  su_flush :: "'r desk \<Rightarrow> 'r desk"

text \<open>The callback of the constructor: it asks once, then repeats the answer.\<close>

definition ssl_callback :: "'r setup_env \<Rightarrow> string \<Rightarrow> 'r desk \<Rightarrow> bool \<times> 'r desk" where
  "ssl_callback S msg w =
     (if decision w = NOT_ASKED then
        (case su_answer S w of (allow, w') \<Rightarrow> (allow, decide (if allow then NO_VERIFY else VERIFY) w'))
      else (decision w = NO_VERIFY, w))"

definition setup_auth :: "'r setup_env \<Rightarrow> 'r desk auth_env" where
  "setup_auth S = (su_auth S)\<lparr>ae_callback := Some (ssl_callback S)\<rparr>"

definition read_input :: "'r setup_env \<Rightarrow> ('r desk, string) iact" where
  "read_input S = iline (su_tty S)"

section \<open>Menus\<close>

definition show_main_menu :: "'r setup_env \<Rightarrow> ('r desk, main_menu_option) iact" where
  "show_main_menu S =
     ibind (ichoice (su_tty S) [''Install as a service'', ''Configure for standalone execution'',
              ''Test connection without installing'', ''Exit'']) (\<lambda>choice.
       iret (if choice = 1 then INSTALL_SERVICE else if choice = 2 then CONFIGURE_STANDALONE
             else if choice = 3 then TEST_CONNECTION else EXIT_MENU))"

definition select_auth_method :: "'r setup_env \<Rightarrow> ('r desk, auth_method) iact" where
  "select_auth_method S =
     ibind (ichoice (su_tty S) [''Browser authentication (recommended)'', ''Username and password'',
              ''Auto-provisioning token'', ''Direct device credentials'']) (\<lambda>choice.
       iret (if choice = 2 then PASSWORD_FLOW else if choice = 3 then AUTO_PROVISION
             else if choice = 4 then DIRECT_CREDENTIALS else DEVICE_FLOW))"

definition handle_device_conflict :: "'r setup_env \<Rightarrow> ('r desk, conflict_resolution) iact" where
  "handle_device_conflict S =
     ibind (ichoice (su_tty S) [''Choose different identifier'', ''Overwrite (delete existing device)'', ''Go back'']) (\<lambda>choice.
       iret (if choice = 1 then CHOOSE_NEW_ID else if choice = 2 then OVERWRITE else GO_BACK))"

section \<open>Device and product\<close>

definition get_default_device_id :: "machine \<Rightarrow> string" where
  "get_default_device_id m =
     map (\<lambda>c. if is_alnum c \<or> c = CHR ''-'' \<or> c = CHR ''_'' then c else CHR ''-'') (take 32 (generate m))"

definition strip_local :: "string \<Rightarrow> string" where
  "strip_local name =
     (if length ''.local'' < length name \<and> ends_with ''.local'' name then take (length name - length ''.local'') name else name)"

definition get_default_device_name :: "string option \<Rightarrow> string" where
  "get_default_device_name host_name =
     (let hostname = (case host_name of Some h \<Rightarrow> if h = [] then ''ThinRemote Device'' else h | None \<Rightarrow> ''ThinRemote Device'')
      in map to_lower (strip_local hostname))"

definition or_default :: "string \<Rightarrow> string \<Rightarrow> string" where
  "or_default s d = (if s = [] then d else s)"

definition prompt_device_info :: "'r setup_env \<Rightarrow> ('r desk, string \<times> string) iact" where
  "prompt_device_info S =
     ibind (iline (su_tty S)) (\<lambda>device_id.
     ibind (iline (su_tty S)) (\<lambda>device_name.
       iret (or_default device_id (get_default_device_id (su_machine S)),
             or_default device_name (get_default_device_name (su_host_name S)))))"

text \<open>The identifier, name and type of a listed product.\<close>

definition product_type :: "json \<Rightarrow> string res" where
  "product_type p =
     (case jfind p ''config'' of
        None \<Rightarrow> Inr []
      | Some c \<Rightarrow> (case jfind c ''type'' of None \<Rightarrow> Inr [] | Some t \<Rightarrow> get_string t))"

fun thinremote_products :: "json list \<Rightarrow> (string \<times> string) list res" where
  "thinremote_products [] = Inr []"
| "thinremote_products (p # ps) =
     rbind (jvalue get_string p ''product'' []) (\<lambda>i.
     rbind (jvalue get_string p ''name'' i) (\<lambda>name.
     rbind (product_type p) (\<lambda>type.
     rbind (thinremote_products ps) (\<lambda>rest.
       Inr (if i \<noteq> [] \<and> type = ''thinremote'' then (i, name) # rest else rest)))))"

definition listed_products :: "json \<Rightarrow> (string \<times> string) list res" where
  "listed_products items = (case items of JArr ps \<Rightarrow> thinremote_products ps | _ \<Rightarrow> Inr [])"

definition seed_alarms :: "'r setup_env \<Rightarrow> string \<Rightarrow> string \<Rightarrow> string \<Rightarrow> ('r desk, unit) iact" where
  "seed_alarms S host username tok =
     ilift (abind (ensure_default_alarms (setup_auth S) host username tok False) (\<lambda>r. aret ()))"

definition create_and_seed :: "'r setup_env \<Rightarrow> string \<Rightarrow> string \<Rightarrow> string \<Rightarrow> string \<Rightarrow> string \<Rightarrow> ('r desk, string) iact" where
  "create_and_seed S host username tok product_id product_name =
     ibind (ilift (create_product (setup_auth S) host username tok (build_default_product product_id product_name))) (\<lambda>created.
       if ct_success created then ibind (seed_alarms S host username tok) (\<lambda>_. iret product_id) else iret [])"

definition select_or_create_product :: "'r setup_env \<Rightarrow> string \<Rightarrow> string \<Rightarrow> string \<Rightarrow> ('r desk, string) iact" where
  "select_or_create_product S host username tok =
     ibind (ilift (list_products (setup_auth S) host username tok)) (\<lambda>l.
     if \<not> li_success l then iret [] else
     ibind (ires (listed_products (li_items l))) (\<lambda>products.
     if products = [] then create_and_seed S host username tok ''thinremote'' ''ThinRemote''
     else if length products = 1 then ibind (seed_alarms S host username tok) (\<lambda>_. iret (fst (products ! 0)))
     else
       ibind (ichoice (su_tty S) (map (\<lambda>(i, name). name @ '' ('' @ i @ '')'') products @
                [''Create new product'', ''Skip (no product association)''])) (\<lambda>choice.
       if 1 \<le> choice \<and> choice \<le> int (length products) then
         ibind (seed_alarms S host username tok) (\<lambda>_. iret (fst (products ! nat (choice - 1))))
       else if choice = int (length products) + 1 then
         ibind (read_input S) (\<lambda>product_id.
         if product_id = [] then iret [] else
         ibind (read_input S) (\<lambda>product_name.
           create_and_seed S host username tok product_id (or_default product_name product_id)))
       else iret [])))"

section \<open>Provisioning\<close>

text \<open>
  The loop around provisioning: an empty identifier is asked for again, a conflict (409) is
  decided by the user, everything else throws.
\<close>

partial_function (option) conflict_loop ::
    "'r setup_env \<Rightarrow> string \<Rightarrow> (string \<Rightarrow> string \<Rightarrow> ('r desk, provision_result) act) \<Rightarrow> (string \<Rightarrow> ('r desk, bool) act)
      \<Rightarrow> string \<Rightarrow> 'r desk \<Rightarrow> (credentials res \<times> 'r desk) option" where
  "conflict_loop S device_name provision_fn delete_fn initial_id w =
     ibind (if initial_id = [] then ibind (iline (su_tty S)) (\<lambda>s. iret (or_default s ''thinremote-device'')) else iret initial_id) (\<lambda>device_id.
     ibind (ilift (provision_fn device_id device_name)) (\<lambda>result.
     if pv_success result then iret (pv_credentials result)
     else if pv_status result \<noteq> 409 then ithrow (RuntimeError (''Device provisioning failed (HTTP '' @ show_int (pv_status result) @ '')''))
     else
       ibind (handle_device_conflict S) (\<lambda>resolution.
       if resolution = CHOOSE_NEW_ID then conflict_loop S device_name provision_fn delete_fn []
       else if resolution = GO_BACK then ithrow SetupCancelled
       else
           ibind (ilift (delete_fn device_id)) (\<lambda>deleted.
           if deleted then
             ibind (ilift (provision_fn device_id device_name)) (\<lambda>retry.
             if pv_success retry then iret (pv_credentials retry)
             else conflict_loop S device_name provision_fn delete_fn [])
           else conflict_loop S device_name provision_fn delete_fn [])))) w"

definition provision_with_conflict_resolution ::
    "'r setup_env \<Rightarrow> string \<Rightarrow> string \<Rightarrow> string \<Rightarrow> string \<Rightarrow> string \<Rightarrow> string \<Rightarrow> ('r desk, credentials) iact" where
  "provision_with_conflict_resolution S host username initial_id device_name tok product =
     conflict_loop S device_name
       (\<lambda>i name. provision_device (setup_auth S) host username i name tok product)
       (\<lambda>i. delete_device (setup_auth S) host username i tok) initial_id"

text \<open>The members \<open>svr\<close> and \<open>usr\<close> of a token, empty when absent.\<close>

definition token_owner :: "'r setup_env \<Rightarrow> string \<Rightarrow> (string \<times> string) res" where
  "token_owner S tok =
     rbind (decode_jwt_payload (setup_auth S) tok) (\<lambda>payload.
     rbind (jvalue get_string payload ''svr'' []) (\<lambda>host.
     rbind (jvalue get_string payload ''usr'' []) (\<lambda>username. Inr (host, username))))"

definition auto_provision_with_conflict_resolution ::
    "'r setup_env \<Rightarrow> string \<Rightarrow> string \<Rightarrow> string \<Rightarrow> string \<Rightarrow> ('r desk, credentials) iact" where
  "auto_provision_with_conflict_resolution S tok initial_id device_name product =
     conflict_loop S device_name
       (\<lambda>i name. auto_provision_with_device_id (setup_auth S) tok i name product)
       (\<lambda>i. abind (alift (token_owner S tok)) (\<lambda>(host, username).
          if host = [] \<or> username = [] then aret False else delete_device (setup_auth S) host username i tok))
       initial_id"

section \<open>The ways to authenticate\<close>

definition OAUTH2_CLIENT_ID :: string where "OAUTH2_CLIENT_ID = ''3b40164d28730e416cbc''"

definition password_flow_auth :: "'r setup_env \<Rightarrow> ('r desk, credentials) iact" where
  "password_flow_auth S =
     ibind (read_input S) (\<lambda>host.
     ibind (read_input S) (\<lambda>username.
     ibind (read_input S) (\<lambda>password.
     ibind (ilift (oauth_password_flow (setup_auth S) host username password)) (\<lambda>result.
     if \<not> au_success result then ithrow (RuntimeError ''Authentication failed'') else
     ibind (prompt_device_info S) (\<lambda>(device_id, device_name).
     ibind (select_or_create_product S host username (au_token result)) (\<lambda>product_id.
       provision_with_conflict_resolution S host username device_id device_name (au_token result) product_id))))))"

definition auto_provision_auth :: "'r setup_env \<Rightarrow> ('r desk, credentials) iact" where
  "auto_provision_auth S =
     ibind (read_input S) (\<lambda>tok.
     case decode_jwt_payload (setup_auth S) tok of
       Inl e \<Rightarrow> ithrow (RuntimeError ''Auto-provisioning failed'')
     | Inr payload \<Rightarrow>
         ibind (prompt_device_info S) (\<lambda>(device_id, device_name).
         ibind (icatch
                 (ibind (ires (token_owner S tok)) (\<lambda>(host, username).
                    if host \<noteq> [] \<and> username \<noteq> [] then select_or_create_product S host username tok else iret []))
                 (\<lambda>e. iret [])) (\<lambda>product_id.
           auto_provision_with_conflict_resolution S tok device_id device_name product_id)))"

definition token_user :: "'r setup_env \<Rightarrow> string \<Rightarrow> string res" where
  "token_user S tok =
     (case rbind (decode_jwt_payload (setup_auth S) tok) (\<lambda>payload.
             case jfind payload ''usr'' of
               Some u \<Rightarrow> get_string u
             | None \<Rightarrow> Inl (RuntimeError ''JWT token missing 'usr' field'')) of
        Inr u \<Rightarrow> Inr u
      | Inl e \<Rightarrow> Inl (RuntimeError (''Failed to extract username from access token: '' @ what_of (ae_what (setup_auth S)) e)))"

definition device_flow_auth :: "'r setup_env \<Rightarrow> ('r desk, credentials) iact" where
  "device_flow_auth S =
     ibind (read_input S) (\<lambda>host.
     ibind (ilift (start_device_flow (setup_auth S) host OAUTH2_CLIENT_ID)) (\<lambda>flow.
     if \<not> fl_success flow then ithrow (RuntimeError ''Device flow authentication failed'') else
     ibind (\<lambda>w. map_option (\<lambda>(r, w'). (Inr r, w'))
              (poll_device_token (setup_auth S) host OAUTH2_CLIENT_ID (da_device_code (fl_response flow))
                 (da_expires_in (fl_response flow)) (da_interval (fl_response flow)) w)) (\<lambda>poll.
     if \<not> au_success poll then ithrow (RuntimeError ''Device flow authentication failed'') else
     ibind (prompt_device_info S) (\<lambda>(device_id, device_name).
     ibind (ires (token_user S (au_token poll))) (\<lambda>username.
     ibind (select_or_create_product S host username (au_token poll)) (\<lambda>product_id.
       provision_with_conflict_resolution S host username device_id device_name (au_token poll) product_id))))))"

definition direct_credentials_auth :: "'r setup_env \<Rightarrow> ('r desk, credentials) iact" where
  "direct_credentials_auth S =
     ibind (read_input S) (\<lambda>host.
     ibind (read_input S) (\<lambda>user.
     ibind (read_input S) (\<lambda>device_id.
     ibind (read_input S) (\<lambda>tok.
       iret (no_credentials\<lparr>cr_host := host, cr_user := user, cr_id := device_id, cr_token := tok, cr_version := ''1.0.0''\<rparr>)))))"

definition run_method :: "'r setup_env \<Rightarrow> auth_method \<Rightarrow> ('r desk, credentials) iact" where
  "run_method S m =
     (case m of
        PASSWORD_FLOW \<Rightarrow> password_flow_auth S
      | AUTO_PROVISION \<Rightarrow> auto_provision_auth S
      | DEVICE_FLOW \<Rightarrow> device_flow_auth S
      | DIRECT_CREDENTIALS \<Rightarrow> direct_credentials_auth S)"

partial_function (option) authenticate_loop ::
    "'r setup_env \<Rightarrow> auth_method \<Rightarrow> bool \<Rightarrow> 'r desk \<Rightarrow> (credentials res \<times> 'r desk) option" where
  "authenticate_loop S previous first_time w =
     ibind (if first_time then select_auth_method S else iret previous) (\<lambda>m.
       icatch (run_method S m) (\<lambda>e.
         if e = SetupCancelled then ithrow e
         else
           ibind (ichoice (su_tty S) [''Try again with same method'', ''Choose different authentication method'', ''Exit setup'']) (\<lambda>choice.
             if choice = 3 then ithrow SetupCancelled
             else authenticate_loop S m (choice = 2)))) w"

definition authenticate :: "'r setup_env \<Rightarrow> ('r desk, credentials) iact" where
  "authenticate S = authenticate_loop S PASSWORD_FLOW True"

section \<open>Saving and installing\<close>

text \<open>The remembered answer goes into the credentials.\<close>

definition final_credentials :: "credentials \<Rightarrow> 'r desk \<Rightarrow> credentials" where
  "final_credentials c w = (if decision w = NO_VERIFY then c\<lparr>cr_verify_ssl := False\<rparr> else c)"

definition save_configuration_only :: "'r setup_env \<Rightarrow> credentials \<Rightarrow> ('r desk, bool) iact" where
  "save_configuration_only S c = (\<lambda>w.
     icatch (ibind (config_save (su_store S) (final_credentials c w)) (\<lambda>_. iret True)) (\<lambda>e. iret False) w)"

definition install_as_service :: "'r setup_env \<Rightarrow> credentials \<Rightarrow> ('r desk, bool) iact" where
  "install_as_service S c =
     ibind (save_configuration_only S c) (\<lambda>saved.
     if \<not> saved then iret False else
     ibind (ilift (install_service (su_host S) (su_init S) AUTO)) (\<lambda>installed.
     if installed then ibind (ilift (start_service (su_init S))) (\<lambda>started. iret True)
     else iret False))"

text \<open>Once connected, the test waits for a line.\<close>

definition setup_test_connection :: "'r setup_env \<Rightarrow> credentials \<Rightarrow> ('r desk, bool) iact" where
  "setup_test_connection S c = (\<lambda>w. case su_live S c w of
     (Live, w') \<Rightarrow> ibind (iline (su_tty S)) (\<lambda>dummy. iret True) w'
   | (NotLive, w') \<Rightarrow> Some (Inr False, w')
   | (LiveThrows e, w') \<Rightarrow> Some (Inr False, w'))"

definition offer_service_installation :: "'r setup_env \<Rightarrow> credentials \<Rightarrow> ('r desk, bool \<times> bool) iact" where
  "offer_service_installation S c =
     ibind (ilift (get_service_status (su_host S) (su_init S))) (\<lambda>status.
     if status = INSTALLED_RUNNING then iret (True, True)
     else if status = INSTALLED_STOPPED then
       ibind (iconfirm (su_tty S) True) (\<lambda>yes.
       ibind (if yes then ilift (start_service (su_init S)) else iret False) (\<lambda>started. iret (True, True)))
     else
       ibind (ichoice (su_tty S) [''Install as service'', ''Save configuration'', ''Don't save configuration'']) (\<lambda>choice.
       if choice = 1 then ibind (install_as_service S c) (\<lambda>ok. iret (ok, ok))
       else if choice = 2 then ibind (save_configuration_only S c) (\<lambda>ok. iret (ok, False))
       else iret (False, False)))"

definition after_test :: "'r setup_env \<Rightarrow> credentials \<Rightarrow> ('r desk, bool) iact" where
  "after_test S c =
     ibind (ichoice (su_tty S) [''Install as a service'', ''Save configuration for standalone use'', ''Exit without saving'']) (\<lambda>choice.
       if choice = 1 then install_as_service S c
       else if choice = 2 then save_configuration_only S c
       else iret True)"

definition setup_flow :: "'r setup_env \<Rightarrow> ('r desk, bool) iact" where
  "setup_flow S =
     ibind (show_main_menu S) (\<lambda>menu_choice.
     if menu_choice = EXIT_MENU then iret False
     else
       ibind (authenticate S) (\<lambda>c.
       if \<not> cr_is_valid c then iret False
       else if menu_choice = INSTALL_SERVICE then install_as_service S c
       else if menu_choice = CONFIGURE_STANDALONE then save_configuration_only S c
       else ibind (setup_test_connection S c) (\<lambda>ok. if ok then after_test S c else iret False)))"

text \<open>\<open>run\<close> of a fresh object.\<close>

definition setup_run :: "'r setup_env \<Rightarrow> ('r desk, bool) iact" where
  "setup_run S = (\<lambda>w. icatch (setup_flow S) (\<lambda>e. iret False) (su_flush S (decide NOT_ASKED w)))"

section \<open>What leaves the setup\<close>

lemma confirm_no_throw: "iconfirm T d w \<noteq> Some (Inl e, w')" "ichoice T os w \<noteq> Some (Inl e, w')" "iline T w \<noteq> Some (Inl e, w')"
  by (auto simp: iconfirm_def ichoice_def iline_def split: prod.splits)

lemma conflict_loop_result:
  assumes "conflict_loop S name prov del i w = Some (r, w')"
  shows "\<forall>c. r = Inr c \<longrightarrow> (\<exists>d v p. prov d name v = (Inr p, w') \<and> pv_success p \<and> c = pv_credentials p \<and> d \<noteq> [])"
proof -
  let ?P = "\<lambda>S name prov (del :: string \<Rightarrow> ('a desk, bool) act) i w y. \<forall>c. fst y = Inr c \<longrightarrow>
      (\<exists>d v p. prov d name v = (Inr p, snd y) \<and> pv_success p \<and> c = pv_credentials p \<and> d \<noteq> [])"
  have "?P S name prov del i w (r, w')"
  proof (rule conflict_loop.raw_induct [where P = ?P, OF _ assms])
    fix loop and S :: "'a setup_env" and name prov i w and y :: "credentials res \<times> 'a desk"
      and del :: "string \<Rightarrow> ('a desk, bool) act"
    assume IH: "\<And>S name prov del i w y. loop S name prov del i w = Some y \<Longrightarrow> ?P S name prov del i w y"
      and step: "ibind (if i = [] then ibind (iline (su_tty S)) (\<lambda>s. iret (or_default s ''thinremote-device'')) else iret i) (\<lambda>device_id.
         ibind (ilift (prov device_id name)) (\<lambda>result.
         if pv_success result then iret (pv_credentials result)
         else if pv_status result \<noteq> 409 then ithrow (RuntimeError (''Device provisioning failed (HTTP '' @ show_int (pv_status result) @ '')''))
         else ibind (handle_device_conflict S) (\<lambda>resolution.
           if resolution = CHOOSE_NEW_ID then loop S name prov del []
           else if resolution = GO_BACK then ithrow SetupCancelled
           else ibind (ilift (del device_id)) (\<lambda>deleted.
             if deleted then ibind (ilift (prov device_id name)) (\<lambda>retry.
               if pv_success retry then iret (pv_credentials retry) else loop S name prov del [])
             else loop S name prov del [])))) w = Some y"
    show "?P S name prov del i w y"
    proof (intro allI impI)
      fix c assume "fst y = Inr c"
      then obtain v where y: "y = (Inr c, v)" by (cases y) simp
      from step [unfolded y] obtain d w1 where
        first: "(if i = [] then ibind (iline (su_tty S)) (\<lambda>s. iret (or_default s ''thinremote-device'')) else iret i) w = Some (Inr d, w1)"
        and 1: "ibind (ilift (prov d name)) (\<lambda>result.
           if pv_success result then iret (pv_credentials result)
           else if pv_status result \<noteq> 409 then ithrow (RuntimeError (''Device provisioning failed (HTTP '' @ show_int (pv_status result) @ '')''))
           else ibind (handle_device_conflict S) (\<lambda>resolution.
             if resolution = CHOOSE_NEW_ID then loop S name prov del []
             else if resolution = GO_BACK then ithrow SetupCancelled
             else ibind (ilift (del d)) (\<lambda>deleted.
               if deleted then ibind (ilift (prov d name)) (\<lambda>retry.
                 if pv_success retry then iret (pv_credentials retry) else loop S name prov del [])
               else loop S name prov del []))) w1 = Some (Inr c, v)"
        by (cases rule: ibind_cases) auto
      from first have d: "d \<noteq> []"
        by (auto simp: act_simps or_default_def elim!: ibind_cases split: if_splits)
      have again: "loop S name prov del [] u = Some (Inr c, v) \<Longrightarrow>
          \<exists>d u p. prov d name u = (Inr p, v) \<and> pv_success p \<and> c = pv_credentials p \<and> d \<noteq> []" for u
        using IH [of S name prov del "[]" u "(Inr c, v)"] by simp
      from 1 have "\<exists>d u p. prov d name u = (Inr p, v) \<and> pv_success p \<and> c = pv_credentials p \<and> d \<noteq> []"
      proof (cases rule: ibind_cases)
        case (thrown e)
        then show ?thesis by simp
      next
        case (returned p w2)
        then have p: "prov d name w1 = (Inr p, w2)" by (simp add: act_simps)
        show ?thesis
        proof (cases "pv_success p")
          case True
          with returned p d show ?thesis by (auto simp: act_simps)
        next
          case False
          with returned(2) show ?thesis using again d
            by (auto simp: act_simps elim!: ibind_cases split: if_splits) blast
        qed
      qed
      then show "\<exists>d u p. prov d name u = (Inr p, snd y) \<and> pv_success p \<and> c = pv_credentials p \<and> d \<noteq> []"
        by (simp add: y)
    qed
  qed
  then show ?thesis by simp
qed

end
