(* ===== verification/Setup_Props.thy ===== *)
theory Setup_Props
  imports Setup
begin

text \<open>
  What a run of the interactive setup passes through before it saves, and what it saves: the
  frame of the dialogs over an invariant of the world, the consent to unverified connections,
  the results of the ways to authenticate, and the properties of the whole run.
\<close>

section \<open>The worlds of a run\<close>

text \<open>
  What the outside does to the world while the dialogs run: the server, random numbers, waiting,
  the terminal, the connection test and the clearing of pending input.
\<close>

inductive outside_step :: "'r setup_env \<Rightarrow> 'r desk \<Rightarrow> 'r desk \<Rightarrow> bool" for S where
  http: "outside_step S w (snd (ae_http (su_auth S) q w))"
| dice: "outside_step S w (snd (ae_dice (su_auth S) n w))"
| sleep: "outside_step S w (ae_sleep (su_auth S) t w)"
| key: "outside_step S w (snd (te_key (su_tty S) w))"
| line: "outside_step S w (snd (te_line (su_tty S) w))"
| live: "outside_step S w (snd (su_live S c w))"
| flush: "outside_step S w (su_flush S w)"

text \<open>
  The worlds a run can pass through from \<open>w0\<close>: besides the outside only the question about
  certificates changes them, which is asked while there is no answer and remembers the answer.
\<close>

inductive run_reaches :: "'r setup_env \<Rightarrow> 'r desk \<Rightarrow> 'r desk \<Rightarrow> bool" for S w0 where
  begins: "run_reaches S w0 w0"
| moves: "run_reaches S w0 w \<Longrightarrow> outside_step S w w' \<Longrightarrow> run_reaches S w0 w'"
| asks: "run_reaches S w0 w \<Longrightarrow> decision w = NOT_ASKED \<Longrightarrow> su_answer S w = (allow, w') \<Longrightarrow>
    run_reaches S w0 (decide (if allow then NO_VERIFY else VERIFY) w')"

text \<open>Somewhere on the way from \<open>w0\<close> to \<open>w\<close> the question was asked and answered with yes.\<close>

definition accepted :: "'r setup_env \<Rightarrow> 'r desk \<Rightarrow> 'r desk \<Rightarrow> bool" where
  "accepted S w0 w \<longleftrightarrow> (\<exists>u u'. run_reaches S w0 u \<and> decision u = NOT_ASKED \<and> su_answer S u = (True, u') \<and>
     run_reaches S (decide NO_VERIFY u') w)"

text \<open>The answer is remembered in the object, out of reach of the outside.\<close>

definition private_answer :: "'r setup_env \<Rightarrow> bool" where
  "private_answer S \<longleftrightarrow> (\<forall>w w'. outside_step S w w' \<longrightarrow> decision w' = decision w)"

lemma decision_decide [simp]: "decision (decide d w) = d"
  by (simp add: decision_def decide_def)

lemma answered_stays:
  assumes "private_answer S" and "run_reaches S w0 w" and "decision w0 \<noteq> NOT_ASKED"
  shows "decision w = decision w0"
  using assms(2)
proof (induction rule: run_reaches.induct)
  case (moves w w')
  with assms(1) show ?case by (simp add: private_answer_def)
next
  case (asks w allow w')
  with assms(3) show ?case by simp
qed simp

lemma accepted_iff:
  assumes "private_answer S" and "run_reaches S w0 w" and "decision w0 = NOT_ASKED"
  shows "accepted S w0 w \<longleftrightarrow> decision w = NO_VERIFY"
proof
  assume "accepted S w0 w"
  then obtain u' where "run_reaches S (decide NO_VERIFY u') w" by (auto simp: accepted_def)
  from answered_stays [OF assms(1) this] show "decision w = NO_VERIFY" by simp
next
  from assms(2) have "decision w = NO_VERIFY \<longrightarrow> accepted S w0 w"
  proof (induction rule: run_reaches.induct)
    case begins
    with assms(3) show ?case by simp
  next
    case (moves w w')
    with assms(1) show ?case unfolding accepted_def private_answer_def by (metis run_reaches.moves)
  next
    case (asks w allow w')
    show ?case
    proof (cases allow)
      case True
      with asks(3) have "su_answer S w = (True, w')" by simp
      with asks(1,2) have "accepted S w0 (decide NO_VERIFY w')" unfolding accepted_def by (blast intro: run_reaches.begins)
      with True show ?thesis by simp
    qed simp
  qed
  then show "decision w = NO_VERIFY \<Longrightarrow> accepted S w0 w" by simp
qed

section \<open>What the dialogs keep\<close>

definition spares :: "('r desk \<Rightarrow> bool) \<Rightarrow> 'r setup_env \<Rightarrow> bool" where
  "spares I S \<longleftrightarrow> undisturbed I (setup_auth S) \<and> tty_keeps I (su_tty S) \<and>
     (\<forall>w. I w \<longrightarrow> I (su_flush S w) \<and> (\<forall>c. I (snd (su_live S c w))))"

lemma spares_tty: "spares I S \<Longrightarrow> tty_keeps I (su_tty S)"
  by (simp add: spares_def)

lemma spares_auth: "spares I S \<Longrightarrow> undisturbed I (setup_auth S)"
  by (simp add: spares_def)

text \<open>
  An invariant the outside and the question keep is one the dialogs keep: that the world is one
  of the run, and that the configuration file is as it was.
\<close>

lemma sparesI:
  assumes "\<And>w w'. I w \<Longrightarrow> outside_step S w w' \<Longrightarrow> I w'"
    and "\<And>w allow w'. I w \<Longrightarrow> decision w = NOT_ASKED \<Longrightarrow> su_answer S w = (allow, w') \<Longrightarrow>
      I (decide (if allow then NO_VERIFY else VERIFY) w')"
  shows "spares I S"
  unfolding spares_def undisturbed_def tty_keeps_def setup_auth_def
  using assms(1) outside_step.intros [of S]
  by (auto simp: ssl_callback_def split: prod.splits dest: assms(2))

lemma spares_run: "spares (run_reaches S w0) S"
  by (rule sparesI) (blast intro: run_reaches.intros)+

lemma spares_menus [ikeeps_intros]:
  assumes "spares I S"
  shows "ikeeps I (ichoice (su_tty S) os)" "ikeeps I (iline (su_tty S))" "ikeeps I (read_input S)"
    "ikeeps I (select_auth_method S)" "ikeeps I (show_main_menu S)"
    "ikeeps I (handle_device_conflict S)" "ikeeps I (prompt_device_info S)"
  unfolding read_input_def select_auth_method_def show_main_menu_def handle_device_conflict_def prompt_device_info_def
  by (intro ikeeps_intros spares_tty assms)+

lemma spares_product [ikeeps_intros]:
  assumes "spares I S"
  shows "ikeeps I (seed_alarms S host user tok)" "ikeeps I (create_and_seed S host user tok i n)"
    "ikeeps I (select_or_create_product S host user tok)"
proof -
  note auth = spares_auth [OF assms]
  show 1: "ikeeps I (seed_alarms S host user tok)"
    unfolding seed_alarms_def by (intro ikeeps_intros keeps_intros frame_intros auth)
  show 2: "ikeeps I (create_and_seed S host user tok i n)" for i n
    unfolding create_and_seed_def by (intro ikeeps_intros keeps_intros frame_intros auth 1)
  show "ikeeps I (select_or_create_product S host user tok)"
    unfolding select_or_create_product_def by (intro ikeeps_intros keeps_intros frame_intros auth 1 2 assms)
qed

lemma conflict_loop_keeps:
  assumes S: "spares I S" and "\<And>i n. keeps I (prov i n)" "\<And>i. keeps I (del i)"
  shows "ikeeps I (conflict_loop S name prov del i)"
proof -
  have "spares I S \<longrightarrow> (\<forall>i n. keeps I (prov i n)) \<longrightarrow> (\<forall>i. keeps I (del i)) \<longrightarrow> I w \<longrightarrow> I (snd y)"
    if "conflict_loop S name prov del i w = Some y" for i w y
  proof (rule conflict_loop.raw_induct [where P = "\<lambda>S name prov del i w y. spares I S \<longrightarrow>
      (\<forall>i n. keeps I (prov i n)) \<longrightarrow> (\<forall>i. keeps I (del i)) \<longrightarrow> I w \<longrightarrow> I (snd y)", OF _ that], intro impI)
    fix loop :: "'a setup_env \<Rightarrow> string \<Rightarrow> (string \<Rightarrow> string \<Rightarrow> ('a desk, provision_result) act) \<Rightarrow> (string \<Rightarrow> ('a desk, bool) act)
      \<Rightarrow> string \<Rightarrow> 'a desk \<Rightarrow> (credentials res \<times> 'a desk) option"
      and S :: "'a setup_env" and name prov i w and y :: "credentials res \<times> 'a desk" and del
    assume IH: "\<And>S name prov del i w y. loop S name prov del i w = Some y \<Longrightarrow> spares I S \<longrightarrow>
        (\<forall>i n. keeps I (prov i n)) \<longrightarrow> (\<forall>i. keeps I (del i)) \<longrightarrow> I w \<longrightarrow> I (snd y)"
      and step: "ibind (if i = [] then ibind (iline (su_tty S)) (\<lambda>s. iret (or_default s ''thinremote-device'')) else iret i) (\<lambda>device_id.
         ibind (ilift (prov device_id name)) (\<lambda>result.
         if pv_success result then iret (pv_credentials result)
         else if pv_status result \<noteq> 409 then ithrow (RuntimeError (''Device provisioning failed (HTTP '' @ show_int (pv_status result) @ '')''))
         else ibind (handle_device_conflict S) (\<lambda>resolution.
           if resolution = CHOOSE_NEW_ID then loop S name prov del []
           else if resolution = GO_BACK then ithrow SetupCancelled
           else ibind (ilift (del device_id)) (\<lambda>deleted.
             if deleted then ibind (ilift (prov device_id name)) (\<lambda>retry.
               if pv_success retry then iret (pv_credentials retry) else loop S name prov del [])
             else loop S name prov del [])))) w = Some y"
      and S: "spares I S" and prov: "\<forall>i n. keeps I (prov i n)" and del: "\<forall>i. keeps I (del i)" and w: "I w"
    have loop: "ikeeps I (loop S name prov del [])"
      unfolding ikeeps_def using IH [of S name prov del "[]"] S prov del by fastforce
    obtain r w' where y: "y = (r, w')" by (rule prod.exhaust)
    from step [unfolded y] w have "I w'"
      by (rule ikeepsD [where I = "I", rotated])
        (intro ikeeps_intros loop S prov [rule_format] del [rule_format])
    then show "I (snd y)" by (simp add: y)
  qed
  with assms show ?thesis unfolding ikeeps_def by (metis snd_conv)
qed

lemma spares_methods [ikeeps_intros]:
  assumes "spares I S"
  shows "ikeeps I (provision_with_conflict_resolution S host user i n tok q)"
    "ikeeps I (auto_provision_with_conflict_resolution S tok i n q)"
    "ikeeps I (run_method S m)"
proof -
  note auth = spares_auth [OF assms]
  show 1: "ikeeps I (provision_with_conflict_resolution S host user i n tok q)" for host user i n tok q
    unfolding provision_with_conflict_resolution_def
    by (intro conflict_loop_keeps assms frame_intros auth)
  show 2: "ikeeps I (auto_provision_with_conflict_resolution S tok i n q)" for tok i n q
    unfolding auto_provision_with_conflict_resolution_def
    by (intro conflict_loop_keeps assms frame_intros keeps_intros auth)
  have poll: "ikeeps I (\<lambda>w. map_option (\<lambda>(r, w'). (Inr r, w')) (poll_device_token (setup_auth S) h c d t k w))" for h c d t k
    unfolding ikeeps_def using frame_poll [OF auth] by fastforce
  have pair: "ikeeps I (case q of (a, b) \<Rightarrow> f a b)" if "\<And>a b. ikeeps I (f a b)" for q :: "string \<times> string" and f :: "string \<Rightarrow> string \<Rightarrow> ('a desk, 'c) iact"
    using that by (cases q) simp
  have sum: "ikeeps I (case q of Inl e \<Rightarrow> f e | Inr x \<Rightarrow> g x)" if "\<And>e. ikeeps I (f e)" "\<And>x. ikeeps I (g x)" for q :: "json res" and f and g :: "json \<Rightarrow> ('a desk, 'c) iact"
    using that by (cases q) simp_all
  show "ikeeps I (run_method S m)"
    unfolding run_method_def
  proof (cases m)
    case PASSWORD_FLOW
    then show "ikeeps I (case m of PASSWORD_FLOW \<Rightarrow> password_flow_auth S | AUTO_PROVISION \<Rightarrow> auto_provision_auth S
        | DEVICE_FLOW \<Rightarrow> device_flow_auth S | DIRECT_CREDENTIALS \<Rightarrow> direct_credentials_auth S)"
      by simp (unfold password_flow_auth_def, intro ikeeps_intros pair frame_intros auth assms 1)
  next
    case AUTO_PROVISION
    then show "ikeeps I (case m of PASSWORD_FLOW \<Rightarrow> password_flow_auth S | AUTO_PROVISION \<Rightarrow> auto_provision_auth S
        | DEVICE_FLOW \<Rightarrow> device_flow_auth S | DIRECT_CREDENTIALS \<Rightarrow> direct_credentials_auth S)"
      by simp (unfold auto_provision_auth_def, intro ikeeps_intros pair sum frame_intros auth assms 2)
  next
    case DEVICE_FLOW
    then show "ikeeps I (case m of PASSWORD_FLOW \<Rightarrow> password_flow_auth S | AUTO_PROVISION \<Rightarrow> auto_provision_auth S
        | DEVICE_FLOW \<Rightarrow> device_flow_auth S | DIRECT_CREDENTIALS \<Rightarrow> direct_credentials_auth S)"
      by simp (unfold device_flow_auth_def, intro ikeeps_intros pair frame_intros auth assms 1 poll)
  next
    case DIRECT_CREDENTIALS
    then show "ikeeps I (case m of PASSWORD_FLOW \<Rightarrow> password_flow_auth S | AUTO_PROVISION \<Rightarrow> auto_provision_auth S
        | DEVICE_FLOW \<Rightarrow> device_flow_auth S | DIRECT_CREDENTIALS \<Rightarrow> direct_credentials_auth S)"
      by simp (unfold direct_credentials_auth_def, intro ikeeps_intros assms)
  qed
qed

lemma authenticate_keeps:
  assumes "spares I S"
  shows "ikeeps I (authenticate_loop S m first)"
proof -
  have "spares I S \<longrightarrow> I w \<longrightarrow> I (snd y)" if "authenticate_loop S m first w = Some y" for m first w y
  proof (rule authenticate_loop.raw_induct [where P = "\<lambda>S m first w y. spares I S \<longrightarrow> I w \<longrightarrow> I (snd y)", OF _ that], intro impI)
    fix loop :: "'a setup_env \<Rightarrow> auth_method \<Rightarrow> bool \<Rightarrow> 'a desk \<Rightarrow> (credentials res \<times> 'a desk) option"
      and S :: "'a setup_env" and previous first_time w and y :: "credentials res \<times> 'a desk"
    assume IH: "\<And>S m first w y. loop S m first w = Some y \<Longrightarrow> spares I S \<longrightarrow> I w \<longrightarrow> I (snd y)"
      and step: "ibind (if first_time then select_auth_method S else iret previous) (\<lambda>m. icatch (run_method S m) (\<lambda>e.
        if e = SetupCancelled then ithrow e
        else ibind (ichoice (su_tty S) [''Try again with same method'', ''Choose different authentication method'', ''Exit setup'']) (\<lambda>choice.
          if choice = 3 then ithrow SetupCancelled else loop S m (choice = 2)))) w = Some y"
      and S: "spares I S" and w: "I w"
    have loop: "ikeeps I (loop S m b)" for m b
      unfolding ikeeps_def using IH S by fastforce
    obtain r w' where y: "y = (r, w')" by (rule prod.exhaust)
    from step [unfolded y] w have "I w'"
      by (rule ikeepsD [where I = "I", rotated]) (intro ikeeps_intros loop S)
    then show "I (snd y)" by (simp add: y)
  qed
  with assms show ?thesis unfolding ikeeps_def by (metis snd_conv)
qed

section \<open>What authentication yields\<close>

lemma provisioned_verifies:
  "provision_with_conflict_resolution S host user i n tok q w = Some (Inr c, w') \<Longrightarrow> cr_verify_ssl c \<and> cr_is_valid c"
  "auto_provision_with_conflict_resolution S tok i n q w = Some (Inr c, w') \<Longrightarrow> cr_verify_ssl c \<and> cr_is_valid c"
proof -
  assume "provision_with_conflict_resolution S host user i n tok q w = Some (Inr c, w')"
  from conflict_loop_result [OF this [unfolded provision_with_conflict_resolution_def]]
  obtain d u r where "provision_device (setup_auth S) host user d n tok q u = (Inr r, w')" "pv_success r" "c = pv_credentials r"
    by blast
  with provision_success [OF this(1)] show "cr_verify_ssl c \<and> cr_is_valid c" by simp
next
  assume "auto_provision_with_conflict_resolution S tok i n q w = Some (Inr c, w')"
  from conflict_loop_result [OF this [unfolded auto_provision_with_conflict_resolution_def]]
  obtain d u r where "auto_provision_with_device_id (setup_auth S) tok d n q u = (Inr r, w')" "pv_success r" "c = pv_credentials r"
    by blast
  then show "cr_verify_ssl c \<and> cr_is_valid c"
    by (auto dest!: provision_success simp: auto_provision_with_device_id_def abind_def alift_def aret_def not_provisioned_def split: option.splits sum.splits prod.splits)
qed

lemma run_method_verifies:
  assumes "run_method S m w = Some (Inr c, w')"
  shows "cr_verify_ssl c"
proof (cases m)
  case PASSWORD_FLOW
  with assms show ?thesis
    by (auto simp: run_method_def password_flow_auth_def act_simps elim!: ibind_cases split: if_splits prod.splits
        dest!: provisioned_verifies(1))
next
  case AUTO_PROVISION
  with assms show ?thesis
    by (auto simp: run_method_def auto_provision_auth_def act_simps elim!: ibind_cases split: if_splits prod.splits sum.splits
        dest!: provisioned_verifies(2))
next
  case DEVICE_FLOW
  with assms show ?thesis
    by (auto simp: run_method_def device_flow_auth_def act_simps elim!: ibind_cases split: if_splits prod.splits
        dest!: provisioned_verifies(1))
next
  case DIRECT_CREDENTIALS
  with assms show ?thesis
    by (auto simp: run_method_def direct_credentials_auth_def no_credentials_def act_simps elim!: ibind_cases)
qed

text \<open>
  How authentication ends: with the credentials a method yielded, with the cancellation a method
  ended in, or with the exit entry of the menu that follows any other error.
\<close>

definition authentication_ended :: "'r setup_env \<Rightarrow> 'r desk \<Rightarrow> credentials res \<Rightarrow> 'r desk \<Rightarrow> bool" where
  "authentication_ended S w0 r w' \<longleftrightarrow> (\<exists>m v. run_reaches S w0 v \<and>
     ((\<exists>c. r = Inr c \<and> cr_verify_ssl c \<and> run_method S m v = Some (Inr c, w')) \<or>
      (r = Inl SetupCancelled \<and> run_method S m v = Some (Inl SetupCancelled, w')) \<or>
      (r = Inl SetupCancelled \<and> (\<exists>e u. e \<noteq> SetupCancelled \<and> run_method S m v = Some (Inl e, u) \<and>
         ichoice (su_tty S) [''Try again with same method'', ''Choose different authentication method'', ''Exit setup''] u =
           Some (Inr 3, w')))))"

lemma select_auth_method_returns: "select_auth_method S w \<noteq> Some (Inl e, w')"
  by (auto simp: select_auth_method_def act_simps confirm_no_throw elim!: ibind_cases)

lemma authenticate_loop_result:
  assumes "authenticate_loop S m first w = Some (r, w')" and "run_reaches S w0 w"
  shows "authentication_ended S w0 r w'"
proof -
  have "run_reaches S w0 w \<longrightarrow> authentication_ended S w0 (fst (r, w')) (snd (r, w'))"
  proof (rule authenticate_loop.raw_induct [where P = "\<lambda>S m first w y. run_reaches S w0 w \<longrightarrow>
      authentication_ended S w0 (fst y) (snd y)", OF _ assms(1)], intro impI)
    fix loop :: "'a setup_env \<Rightarrow> auth_method \<Rightarrow> bool \<Rightarrow> 'a desk \<Rightarrow> (credentials res \<times> 'a desk) option"
      and S :: "'a setup_env" and previous first_time w and y :: "credentials res \<times> 'a desk"
    let ?menu = "ichoice (su_tty S) [''Try again with same method'', ''Choose different authentication method'', ''Exit setup'']"
    assume IH: "\<And>S m first w y. loop S m first w = Some y \<Longrightarrow> run_reaches S w0 w \<longrightarrow> authentication_ended S w0 (fst y) (snd y)"
      and step: "ibind (if first_time then select_auth_method S else iret previous) (\<lambda>m. icatch (run_method S m) (\<lambda>e.
        if e = SetupCancelled then ithrow e
        else ibind ?menu (\<lambda>choice. if choice = 3 then ithrow SetupCancelled else loop S m (choice = 2)))) w = Some y"
      and w: "run_reaches S w0 w"
    note kept = spares_methods(3) [OF spares_run] spares_menus(1,4) [OF spares_run]
    obtain r w' where y: "y = (r, w')" by (rule prod.exhaust)
    from step [unfolded y] show "authentication_ended S w0 (fst y) (snd y)"
    proof (cases rule: ibind_cases)
      case (thrown e)
      then show ?thesis by (simp add: select_auth_method_returns act_simps split: if_splits)
    next
      case (returned m v)
      have v: "run_reaches S w0 v"
        using returned(1) w ikeepsD [OF kept(3)] by (auto simp: act_simps split: if_splits)
      from returned(2) show ?thesis
      proof (cases rule: icatch_cases)
        case (returned c)
        then have "cr_verify_ssl c" "run_method S m v = Some (Inr c, w')" "r = Inr c" using run_method_verifies by auto
        with v show ?thesis unfolding y authentication_ended_def fst_conv snd_conv by blast
      next
        case (thrown e u)
        have u: "run_reaches S w0 u" using ikeepsD [OF kept(1) thrown(1) v] .
        show ?thesis
        proof (cases "e = SetupCancelled")
          case True
          with thrown v show ?thesis unfolding authentication_ended_def by (auto simp: y act_simps)
        next
          case False
          with thrown(2) have "ibind ?menu (\<lambda>choice. if choice = 3 then ithrow SetupCancelled else loop S m (choice = 2)) u = Some (r, w')"
            by simp
          then show ?thesis
          proof (cases rule: ibind_cases)
            case (thrown e2)
            then show ?thesis by (simp add: confirm_no_throw)
          next
            case (returned choice x)
            have x: "run_reaches S w0 x" using ikeepsD [OF kept(2) returned(1) u] .
            show ?thesis
            proof (cases "choice = 3")
              case True
              with returned have "?menu u = Some (Inr 3, w')" "r = Inl SetupCancelled" by (simp_all add: act_simps)
              with False v thrown(1) show ?thesis unfolding y authentication_ended_def by auto
            next
              case False
              with returned(2) x show ?thesis using IH [of S m "choice = 2" x y] by (simp add: y)
            qed
          qed
        qed
      qed
    qed
  qed
  with assms(2) show ?thesis by simp
qed

lemma authenticate_verifies:
  assumes "authenticate_loop S m first w = Some (Inr c, w')"
  shows "cr_verify_ssl c"
  using authenticate_loop_result [OF assms run_reaches.begins] by (auto simp: authentication_ended_def)

section \<open>What a run leaves behind\<close>

text \<open>
  The outside and the question leave the configuration file alone, and so do the installation
  and the start of the service; the remembered answer is the object's.
\<close>

definition settled :: "'r setup_env \<Rightarrow> bool" where
  "settled S \<longleftrightarrow> private_answer S \<and>
     (\<forall>w w'. outside_step S w w' \<or> w' = snd (su_answer S w) \<longrightarrow>
        wo_fs w' (st_path (su_store S)) = wo_fs w (st_path (su_store S))) \<and>
     keeps_file (st_path (su_store S)) (install_service (su_host S) (su_init S) AUTO) \<and>
     keeps_file (st_path (su_store S)) (start_service (su_init S))"

text \<open>Before a save: a world of the run, the file as it was at its beginning.\<close>

definition unsaved :: "'r setup_env \<Rightarrow> 'r desk \<Rightarrow> 'r desk \<Rightarrow> bool" where
  "unsaved S w0 w \<longleftrightarrow> run_reaches S w0 w \<and> wo_fs w (st_path (su_store S)) = wo_fs w0 (st_path (su_store S))"

lemma file_decide [simp]: "wo_fs (decide d w) = wo_fs w"
  by (simp add: decide_def)

lemma spares_unsaved:
  assumes "settled S"
  shows "spares (unsaved S w0) S"
proof (rule sparesI)
  fix w w' assume "unsaved S w0 w" "outside_step S w w'"
  with assms show "unsaved S w0 w'" unfolding unsaved_def settled_def by (metis run_reaches.moves)
next
  fix w allow w' assume a: "unsaved S w0 w" "decision w = NOT_ASKED" "su_answer S w = (allow, w')"
  then have "wo_fs w' (st_path (su_store S)) = wo_fs w (st_path (su_store S))"
    using assms unfolding settled_def by (metis snd_conv)
  with a show "unsaved S w0 (decide (if allow then NO_VERIFY else VERIFY) w')"
    unfolding unsaved_def file_decide by (metis run_reaches.asks)
qed

text \<open>
  After it: the file is as it was, or holds what one save of verified credentials left:
  verification is switched off in them only by the remembered answer.
\<close>

definition outcome_ok :: "'r setup_env \<Rightarrow> 'r desk \<Rightarrow> 'r desk \<Rightarrow> bool" where
  "outcome_ok S w0 w' \<longleftrightarrow>
     wo_fs w' (st_path (su_store S)) = wo_fs w0 (st_path (su_store S)) \<or>
     (\<exists>c w1 r w2. unsaved S w0 w1 \<and> cr_verify_ssl c \<and> cr_is_valid c \<and>
        config_save (su_store S) (if decision w1 = NO_VERIFY then c\<lparr>cr_verify_ssl := False\<rparr> else c) w1 = Some (r, w2) \<and>
        wo_fs w' (st_path (su_store S)) = wo_fs w2 (st_path (su_store S)))"

lemma saved_outcome:
  assumes "save_configuration_only S c w = Some (r, w')" and "cr_verify_ssl c" "cr_is_valid c" and "unsaved S w0 w"
  shows "outcome_ok S w0 w'"
proof -
  from assms(1) obtain r2 where "config_save (su_store S) (final_credentials c w) w = Some (r2, w')"
    unfolding save_configuration_only_def by (auto simp: act_simps elim!: icatch_cases ibind_cases)
  with assms(2-4) show ?thesis unfolding outcome_ok_def final_credentials_def by blast
qed

lemma kept_outcome:
  assumes "outcome_ok S w0 w" and "wo_fs w' (st_path (su_store S)) = wo_fs w (st_path (su_store S))"
  shows "outcome_ok S w0 w'"
  using assms unfolding outcome_ok_def by (elim disjE) metis+

lemma installed_outcome:
  assumes run: "install_as_service S c w = Some (r, w')" and c: "cr_verify_ssl c" "cr_is_valid c"
    and w: "unsaved S w0 w" and S: "settled S"
  shows "outcome_ok S w0 w'"
  using run unfolding install_as_service_def
proof (cases rule: ibind_cases)
  case (thrown e)
  then show ?thesis using saved_outcome [OF _ c w] by blast
next
  case (returned saved w1)
  from saved_outcome [OF returned(1) c w] have 1: "outcome_ok S w0 w1" .
  have keep: "ikeeps (outcome_ok S w0) (ilift (install_service (su_host S) (su_init S) AUTO))"
    "ikeeps (outcome_ok S w0) (ilift (start_service (su_init S)))"
    using S kept_outcome unfolding settled_def keeps_file_def ikeeps_def ilift_def by (metis option.inject snd_conv)+
  from returned(2) 1 show ?thesis
    by (rule ikeepsD [where I = "outcome_ok S w0", rotated]) (intro ikeeps_intros keep)
qed

lemma tested_same:
  assumes "setup_test_connection S c w = Some (r, w')" and "spares I S" "I w"
  shows "I w'"
proof -
  obtain out w1 where l: "su_live S c w = (out, w1)" by (rule prod.exhaust)
  then have "I w1" using assms(2,3) unfolding spares_def by (metis snd_conv)
  with assms(1) l show ?thesis
    using ikeepsD [OF spares_menus(2) [OF assms(2)]]
    by (cases out) (auto simp: setup_test_connection_def act_simps elim!: ibind_cases)
qed

lemma flow_outcome:
  assumes run: "setup_flow S w = Some (r, w')" and w: "unsaved S w0 w" and S: "settled S"
  shows "outcome_ok S w0 w'"
proof -
  let ?same = "unsaved S w0"
  have sp: "spares (unsaved S w0) S" using S by (rule spares_unsaved)
  have id: "?same u \<Longrightarrow> outcome_ok S w0 u" for u by (simp add: outcome_ok_def unsaved_def)
  from run [unfolded setup_flow_def] show ?thesis
  proof (cases rule: ibind_cases)
    case (thrown e)
    with ikeepsD [OF spares_menus(5) [OF sp] _ w] id show ?thesis by blast
  next
    case (returned choice w1)
    then have w1: "?same w1" using ikeepsD [OF spares_menus(5) [OF sp] _ w] by blast
    show ?thesis
    proof (cases "choice = EXIT_MENU")
      case True
      with returned(2) w1 id show ?thesis by (simp add: act_simps)
    next
      case False
      from returned(2) [unfolded if_not_P [OF False]] show ?thesis
      proof (cases rule: ibind_cases)
        case (thrown e)
        then show ?thesis using ikeepsD [OF authenticate_keeps [OF sp] _ w1] id unfolding authenticate_def by blast
      next
        case (returned c w2)
        then have w2: "?same w2" and verify: "cr_verify_ssl c"
          using ikeepsD [OF authenticate_keeps [OF sp] _ w1] authenticate_verifies unfolding authenticate_def by blast+
        consider "\<not> cr_is_valid c" "w' = w2" | "cr_is_valid c" "install_as_service S c w2 = Some (r, w')"
          | "cr_is_valid c" "save_configuration_only S c w2 = Some (r, w')"
          | "cr_is_valid c" "ibind (setup_test_connection S c) (\<lambda>ok. if ok then after_test S c else iret False) w2 = Some (r, w')"
          using returned(2) by (auto simp: act_simps split: if_splits)
        then show ?thesis
        proof cases
          case 1
          with w2 id show ?thesis by simp
        next
          case 2
          with installed_outcome [OF _ verify _ w2 S] show ?thesis by blast
        next
          case 3
          with saved_outcome [OF _ verify _ w2] show ?thesis by blast
        next
          case 4
          from 4(2) show ?thesis
          proof (cases rule: ibind_cases)
            case (thrown e)
            then show ?thesis using tested_same [OF _ sp w2] id by blast
          next
            case (returned ok w3)
            then have w3: "?same w3" using tested_same [OF _ sp w2] by blast
            show ?thesis
            proof (cases ok)
              case False
              with returned(2) w3 id show ?thesis by (simp add: act_simps)
            next
              case True
              with returned(2) have "after_test S c w3 = Some (r, w')" by simp
              then show ?thesis
                unfolding after_test_def
              proof (cases rule: ibind_cases)
                case (thrown e)
                then show ?thesis by (simp add: confirm_no_throw)
              next
                case (returned k w4)
                then have w4: "?same w4" using ikeepsD [OF spares_menus(1) [OF sp] _ w3] by blast
                with returned(2) id installed_outcome [OF _ verify 4(1) w4 S] saved_outcome [OF _ verify 4(1) w4]
                show ?thesis by (auto simp: act_simps split: if_splits)
              qed
            qed
          qed
        qed
      qed
    qed
  qed
qed

text \<open>
  C13. The interactive setup never stores a configuration that switches certificate
  verification off unless the user accepted that in the same run: whatever is chosen in its
  menus, whatever the server answers and whichever step fails, the configuration file ends up
  as it was before, or as one save of valid credentials left it, made in a world the run
  reached from a fresh object; and the flag in them is false exactly if on the way there the
  question of the certificate callback, not asked before, was answered with yes.
\<close>
theorem setup_verifies_unless_declined:
  assumes "setup_run S w = Some (r, w')" and "settled S"
  shows "wo_fs w' (st_path (su_store S)) = wo_fs w (st_path (su_store S)) \<or>
    (\<exists>c w1 r' w2. run_reaches S (decide NOT_ASKED w) w1 \<and>
       wo_fs w1 (st_path (su_store S)) = wo_fs w (st_path (su_store S)) \<and> cr_is_valid c \<and>
       (\<not> cr_verify_ssl c \<longleftrightarrow> accepted S (decide NOT_ASKED w) w1) \<and> config_save (su_store S) c w1 = Some (r', w2) \<and>
       wo_fs w' (st_path (su_store S)) = wo_fs w2 (st_path (su_store S)))"
proof -
  let ?p = "st_path (su_store S)" and ?w = "decide NOT_ASKED w"
  have "unsaved S ?w (su_flush S ?w)"
    using spares_unsaved [OF assms(2), of ?w] by (simp add: spares_def unsaved_def run_reaches.begins)
  moreover from assms(1) obtain r2 where "setup_flow S (su_flush S ?w) = Some (r2, w')"
    unfolding setup_run_def by (auto simp: act_simps elim!: icatch_cases)
  ultimately have "outcome_ok S ?w w'" using flow_outcome assms(2) by blast
  then consider "wo_fs w' ?p = wo_fs w ?p"
    | c w1 r' w2 where "unsaved S ?w w1" "cr_verify_ssl c" "cr_is_valid c"
      "config_save (su_store S) (if decision w1 = NO_VERIFY then c\<lparr>cr_verify_ssl := False\<rparr> else c) w1 = Some (r', w2)"
      "wo_fs w' ?p = wo_fs w2 ?p"
    unfolding outcome_ok_def by auto
  then show ?thesis
  proof cases
    case 1
    then show ?thesis by blast
  next
    case (2 c w1 r' w2)
    let ?c = "if decision w1 = NO_VERIFY then c\<lparr>cr_verify_ssl := False\<rparr> else c"
    have u: "run_reaches S ?w w1" "wo_fs w1 ?p = wo_fs w ?p" using 2(1) by (simp_all add: unsaved_def)
    have "private_answer S" using assms(2) by (simp add: settled_def)
    from accepted_iff [OF this u(1)] 2(2) have "\<not> cr_verify_ssl ?c \<longleftrightarrow> accepted S ?w w1" by simp
    moreover have "cr_is_valid ?c" using 2(3) by (auto simp: cr_is_valid_def)
    ultimately show ?thesis using 2 u by blast
  qed
qed

text \<open>A user at a plain terminal who types the lines the world holds.\<close>

definition typed_credentials :: credentials where
  "typed_credentials = no_credentials\<lparr>cr_host := ''h'', cr_user := ''u'', cr_id := ''d'', cr_token := ''t'', cr_version := ''1.0.0''\<rparr>"

definition lines_tty :: "string list desk tty" where
  "lines_tty = \<lparr>te_interactive = False, te_raw_ok = False, te_key = (\<lambda>w. (None, w)),
     te_line = (\<lambda>w. case dg_rest (wo_rest w) of
        [] \<Rightarrow> ([], w) | l # ls \<Rightarrow> (l, w\<lparr>wo_rest := (wo_rest w)\<lparr>dg_rest := ls\<rparr>\<rparr>))\<rparr>"

definition quiet_auth :: "string list desk auth_env" where
  "quiet_auth = \<lparr>ae_http = (\<lambda>q w. (HttpError ''down'', w)), ae_callback = None, ae_parse = ref_parse, ae_dump = ref_dump,
     ae_what = (\<lambda>_. []), ae_b64 = Some, ae_dice = (\<lambda>n w. (0, w)), ae_now = (\<lambda>w. 0), ae_sleep = (\<lambda>n w. w),
     ae_hostname = ''box'', ae_os = ''linux''\<rparr>"

definition desk_host :: "string list dialog host" where
  "desk_host = \<lparr>ho_session = \<lparr>se_euid_root = True, se_uid_root = True, se_home = None, se_pw_dir = None, se_path = None\<rparr>,
     ho_user = None, ho_pw_name = None, ho_group = (\<lambda>_. []), ho_exe = None, ho_dir = (\<lambda>_. False),
     ho_system = (\<lambda>_ w. (0, w)), ho_open = (\<lambda>_. True), ho_short = (\<lambda>_. None), ho_remove = (\<lambda>_. True),
     ho_copy = (\<lambda>_. CopyWhole), ho_chmod = (\<lambda>_. True), ho_list = (\<lambda>_ _. None)\<rparr>"

definition nop_init :: "string list dialog init_impl" where
  "nop_init = \<lparr>im_name = ''OpenRC'', im_path = (\<lambda>_. []), im_install = (\<lambda>_. aret False), im_uninstall = (\<lambda>_. aret True),
     im_start = aret True, im_stop = aret True, im_status = (\<lambda>_. aret NOT_INSTALLED), im_generate = (\<lambda>_. []), im_user = aret False\<rparr>"

definition demo_setup :: "string list setup_env" where
  "demo_setup = \<lparr>su_host = desk_host, su_init = nop_init, su_auth = quiet_auth, su_tty = lines_tty,
     su_store = \<lparr>st_parse = ref_parse, st_stream = ref_parse, st_dump = ref_dump,
       st_env = (\<lambda>_. demo_cfg (ref_dump (JObj (put_credentials typed_credentials [])))), st_path = ''/etc/c''\<rparr>,
     su_machine = demo_machine, su_host_name = None, su_answer = (\<lambda>w. (False, w)), su_live = (\<lambda>_ w. (NotLive, w)),
     su_flush = (\<lambda>w. w)\<rparr>"

definition demo_desk :: "string list \<Rightarrow> string list desk" where
  "demo_desk ls = \<lparr>wo_fs = \<lambda>_. None, wo_rest = \<lparr>dg_decision = NOT_ASKED, dg_rest = ls\<rparr>\<rparr>"

lemma demo_settled: "settled demo_setup"
proof -
  have "keeps_file ''/etc/c'' (install_service desk_host nop_init AUTO)"
    by (auto simp: keeps_file_def install_service_def copy_binary_to_install_path_def copy_file_def set_permissions_def abind_def acatch_def aret_def Let_def
        get_recommended_install_mode_def can_install_system_service_def is_running_as_root_def desk_host_def nop_init_def
        binary_path_def get_binary_install_path_def BINARY_NAME_def get_current_binary_path_def split: option.splits)
  moreover have "keeps_file ''/etc/c'' (start_service nop_init)"
    by (simp add: keeps_file_def start_service_def nop_init_def acatch_def aret_def)
  moreover have "decision w' = decision w \<and> wo_fs w' = wo_fs w" if "outside_step demo_setup w w'" for w w'
    using that by cases (auto simp: demo_setup_def quiet_auth_def lines_tty_def decision_def split: list.splits)
  moreover have "snd (su_answer demo_setup w) = w" for w by (simp add: demo_setup_def)
  ultimately show ?thesis by (auto simp: settled_def private_answer_def) (simp_all add: demo_setup_def)
qed

lemma stoi_digits: "stoi ''1'' = Some 1" "stoi ''2'' = Some 2" "stoi ''3'' = Some 3" "stoi ''4'' = Some 4"
  by code_simp+

lemma typed_line: "iline lines_tty (demo_desk (l # ls)) = Some (Inr l, demo_desk ls)"
  by (simp add: iline_def lines_tty_def demo_desk_def)

lemma typed_choice:
  "stoi l = Some k \<Longrightarrow> 1 \<le> k \<Longrightarrow> k \<le> int (length os) \<Longrightarrow> ichoice lines_tty os (demo_desk (l # ls)) = Some (Inr k, demo_desk ls)"
  by (simp add: ichoice_def get_user_choice_def lines_tty_def ask_number.simps demo_desk_def)

lemma demo_authenticate: "authenticate demo_setup (demo_desk [''4'', ''h'', ''u'', ''d'', ''t'']) = Some (Inr typed_credentials, demo_desk [])"
proof -
  have tty: "su_tty demo_setup = lines_tty" by (simp add: demo_setup_def)
  have m: "select_auth_method demo_setup (demo_desk [''4'', ''h'', ''u'', ''d'', ''t'']) = Some (Inr DIRECT_CREDENTIALS, demo_desk [''h'', ''u'', ''d'', ''t''])"
    by (simp add: select_auth_method_def tty ibind_run typed_choice stoi_digits act_simps)
  have r: "run_method demo_setup DIRECT_CREDENTIALS (demo_desk [''h'', ''u'', ''d'', ''t'']) = Some (Inr typed_credentials, demo_desk [])"
    by (simp add: run_method_def direct_credentials_auth_def read_input_def tty ibind_run typed_line act_simps typed_credentials_def)
  show ?thesis by (simp add: authenticate_def authenticate_loop.simps ibind_run m icatch_run r)
qed

theorem setup_verifies_unless_declined_witness:
  "\<exists>w'. setup_run demo_setup (demo_desk [''2'', ''4'', ''h'', ''u'', ''d'', ''t'']) = Some (Inr True, w') \<and>
     (wo_fs w' ''/etc/c'' = None \<or> (\<exists>c w1 r w2. cr_is_valid c \<and>
        (\<not> cr_verify_ssl c \<longleftrightarrow> accepted demo_setup (decide NOT_ASKED (demo_desk [''2'', ''4'', ''h'', ''u'', ''d'', ''t''])) w1) \<and>
        config_save (su_store demo_setup) c w1 = Some (r, w2) \<and> wo_fs w' ''/etc/c'' = wo_fs w2 ''/etc/c''))"
proof -
  have v: "cr_is_valid typed_credentials" by (simp add: cr_is_valid_def typed_credentials_def no_credentials_def)
  obtain h where h: "save ref_parse ref_dump (demo_cfg (ref_dump (JObj (put_credentials typed_credentials [])))) ''/etc/c''
      typed_credentials [\<lambda>_. None] = Some (h, Inr ())" using valid_save [OF v le_refl, of "\<lambda>_. None"] by blast
  have s: "save_configuration_only demo_setup typed_credentials (demo_desk []) = Some (Inr True, (demo_desk [])\<lparr>wo_fs := hd h\<rparr>)"
    by (simp add: save_configuration_only_def final_credentials_def decision_def icatch_def ibind_def iret_def config_save_def
        on_files_def demo_desk_def demo_setup_def h)
  have tty: "su_tty demo_setup = lines_tty" by (simp add: demo_setup_def)
  have menu: "show_main_menu demo_setup (demo_desk [''2'', ''4'', ''h'', ''u'', ''d'', ''t'']) =
      Some (Inr CONFIGURE_STANDALONE, demo_desk [''4'', ''h'', ''u'', ''d'', ''t''])"
    by (simp add: show_main_menu_def tty ibind_run typed_choice stoi_digits act_simps)
  have "setup_flow demo_setup (demo_desk [''2'', ''4'', ''h'', ''u'', ''d'', ''t'']) = Some (Inr True, (demo_desk [])\<lparr>wo_fs := hd h\<rparr>)"
    by (simp add: setup_flow_def ibind_run menu demo_authenticate v s)
  moreover have "su_flush demo_setup (decide NOT_ASKED (demo_desk ls)) = demo_desk ls" for ls
    by (simp add: demo_setup_def decide_def demo_desk_def)
  ultimately have run: "setup_run demo_setup (demo_desk [''2'', ''4'', ''h'', ''u'', ''d'', ''t'']) = Some (Inr True, (demo_desk [])\<lparr>wo_fs := hd h\<rparr>)"
    by (simp add: setup_run_def icatch_run)
  have path: "st_path (su_store demo_setup) = ''/etc/c''" "wo_fs (demo_desk ls) ''/etc/c'' = None" for ls
    by (simp_all add: demo_setup_def demo_desk_def)
  from setup_verifies_unless_declined [OF run demo_settled] run show ?thesis unfolding path by blast
qed

text \<open>
  C37. Authentication in the setup ends in only three ways, each of them in the run itself: with
  the credentials a chosen method has just yielded, by the cancellation a method ended in, or by
  the exit entry of the menu shown after a method failed with any other error. So no error of the
  server, of a token or of the terminal leaves the loop: each leads back to the menu, and only
  its third entry ends the setup.
\<close>
theorem authentication_ends_by_success_or_cancel:
  assumes "authenticate S w = Some (r, w')"
  shows "\<exists>m v. run_reaches S w v \<and>
     ((\<exists>c. r = Inr c \<and> cr_verify_ssl c \<and> run_method S m v = Some (Inr c, w')) \<or>
      (r = Inl SetupCancelled \<and> run_method S m v = Some (Inl SetupCancelled, w')) \<or>
      (r = Inl SetupCancelled \<and> (\<exists>e u. e \<noteq> SetupCancelled \<and> run_method S m v = Some (Inl e, u) \<and>
         ichoice (su_tty S) [''Try again with same method'', ''Choose different authentication method'', ''Exit setup''] u =
           Some (Inr 3, w'))))"
  using authenticate_loop_result [OF assms [unfolded authenticate_def] run_reaches.begins]
  unfolding authentication_ended_def .

theorem authentication_ends_by_success_or_cancel_witness:
  "\<exists>m v. run_reaches demo_setup (demo_desk [''4'', ''h'', ''u'', ''d'', ''t'']) v \<and>
     run_method demo_setup m v = Some (Inr typed_credentials, demo_desk [])"
  using authentication_ends_by_success_or_cancel [OF demo_authenticate] by auto

end
