(* ===== verification/Service_Manager.thy ===== *)
theory Service_Manager
  imports Store Sysv
begin

text \<open>
  The management menu of an installed agent (\<open>src/thinr/cli/service_manager.cpp\<close>): status, start,
  stop, restart, logs, the update of the installed binary from the running one, and the complete
  uninstallation. Messages are left out, and with them the removal of directories that are empty.
\<close>

record 'w manager =
  mg_host :: "'w host"
  mg_init :: "'w init_impl"
  mg_tty :: "'w world tty"
  mg_store :: "'w store"
  mg_version :: string
  mg_popen :: "string \<Rightarrow> 'w world \<Rightarrow> string option \<times> 'w world"
  mg_self :: "string option"
  mg_sleep :: "'w world \<Rightarrow> 'w world"

section \<open>Starting and stopping\<close>

definition mg_status :: "'w manager \<Rightarrow> ('w world, service_status) act" where
  "mg_status M = get_service_status (mg_host M) (mg_init M)"

definition mg_start_service :: "'w manager \<Rightarrow> ('w world, bool) act" where
  "mg_start_service M = abind (start_service (mg_init M)) (\<lambda>started. aret True)"

definition mg_stop_service :: "'w manager \<Rightarrow> ('w world, bool) act" where
  "mg_stop_service M = abind (stop_service (mg_init M)) (\<lambda>stopped. aret True)"

definition mg_restart_service :: "'w manager \<Rightarrow> ('w world, bool) act" where
  "mg_restart_service M =
     abind (stop_service (mg_init M)) (\<lambda>stopped.
     abind (if stopped then start_service (mg_init M) else aret False) (\<lambda>started. aret True))"

definition view_logs :: "'w manager \<Rightarrow> ('w world, bool) act" where
  "view_logs M =
     (let H = mg_host M; service_name = SERVICE_NAME in
      if ho_dir H ''/bin/logread'' \<or> ho_dir H ''/sbin/logread'' then
        abind (execute_system_command H (''logread | grep -i '' @ service_name @ '' | tail -30'')) (\<lambda>_. aret True)
      else if ho_dir H ''/bin/journalctl'' \<or> ho_dir H ''/usr/bin/journalctl'' then
        abind (execute_system_command H (''journalctl -u '' @ service_name @ '' -n 30 --no-pager'')) (\<lambda>_. aret True)
      else
        abind (file_there H (''/var/log/'' @ service_name @ ''.log'')) (\<lambda>there.
          if there then abind (execute_system_command H (''tail -30 /var/log/'' @ service_name @ ''.log'')) (\<lambda>_. aret True)
          else aret True))"

section \<open>The installed version\<close>

definition version_prefix :: string where "version_prefix = ''thinr-agent version ''"

definition version_of_output :: "string \<Rightarrow> string" where
  "version_of_output output =
     (case find_sub version_prefix output of
        None \<Rightarrow> []
      | Some p \<Rightarrow> rtrim (drop (p + length version_prefix) output))"

definition get_installed_version :: "'w manager \<Rightarrow> ('w world, string) act" where
  "get_installed_version M =
     (let path = binary_path (mg_host M) (se_euid_root (ho_session (mg_host M))) in
      abind (file_there (mg_host M) path) (\<lambda>there.
      if \<not> there then aret [] else (\<lambda>w. case mg_popen M (path @ '' --version 2>/dev/null'') w of
          (None, w') \<Rightarrow> (Inr [], w')
        | (Some output, w') \<Rightarrow> (Inr (version_of_output output), w'))))"

definition has_update_available :: "'w manager \<Rightarrow> ('w world, bool) act" where
  "has_update_available M =
     abind (get_installed_version M) (\<lambda>installed. aret (installed \<noteq> [] \<and> installed \<noteq> mg_version M))"

text \<open>
  The update from the running binary. \<open>equivalent\<close> throws when one of them does not exist; without links
  two paths are the same file exactly when they are the same path.
\<close>

definition replace_binary :: "'w manager \<Rightarrow> string \<Rightarrow> string \<Rightarrow> ('w world, unit) act" where
  "replace_binary M current target =
     abind (copy_file (mg_host M) current target) (\<lambda>_. set_permissions (mg_host M) target 493)"

definition equivalent :: "'w host \<Rightarrow> string \<Rightarrow> string \<Rightarrow> ('w world, bool) act" where
  "equivalent H p q = (\<lambda>w.
     if \<not> hexists H p w \<or> \<not> hexists H q w then (Inl (FilesystemError ''equivalent''), w) else (Inr (p = q), w))"

definition update_service :: "'w manager \<Rightarrow> ('w world, bool) iact" where
  "update_service M =
     ibind (ilift (get_installed_version M)) (\<lambda>installed.
     ibind (iconfirm (mg_tty M) True) (\<lambda>proceed.
     if \<not> proceed then iret True else
     ilift (
       abind (stop_service (mg_init M)) (\<lambda>stopped.
       if \<not> stopped then aret True else
       case mg_self M of
         None \<Rightarrow> mg_start_service M
       | Some current \<Rightarrow>
           let target = binary_path (mg_host M) (se_euid_root (ho_session (mg_host M))) in
           abind (equivalent (mg_host M) current target) (\<lambda>same.
           if same then mg_start_service M
           else abind (atry (replace_binary M current target)) (\<lambda>copied. mg_start_service M))))))"

section \<open>The complete uninstallation\<close>

text \<open>\<open>remove_all\<close> with an error code that is only looked at for a message: files may be left.\<close>

definition remove_tree :: "'w host \<Rightarrow> string \<Rightarrow> 'w world \<Rightarrow> 'w world" where
  "remove_tree H d w =
     (if ho_dir H d then
        w\<lparr>wo_fs := (\<lambda>p. if (p = d \<or> starts_with (d @ ''/'') p) \<and> ho_remove H p then None else wo_fs w p)\<rparr>
      else w)"

definition data_directories :: "session \<Rightarrow> string list" where
  "data_directories se =
     (if se_euid_root se then [''/var/log/thinr-agent'']
      else case se_home se of
        None \<Rightarrow> []
      | Some home \<Rightarrow> if home = [] then [] else
          [path_join home ''.local/share/thinr-agent/logs'', path_join home ''.cache/thinr-agent''])"

definition cleanup_directories :: "'w host \<Rightarrow> ('w world, unit) act" where
  "cleanup_directories H = (\<lambda>w. (Inr (), fold (remove_tree H) (data_directories (ho_session H)) w))"

definition remove_configuration_and_data :: "'w manager \<Rightarrow> ('w world, bool) iact" where
  "remove_configuration_and_data M =
     icatch
       (ibind (ilift (config_exists (mg_store M))) (\<lambda>there.
        ibind (if there then config_remove (mg_store M) else iret ()) (\<lambda>_.
        ibind (ilift (cleanup_directories (mg_host M))) (\<lambda>_. iret True))))
       (\<lambda>e. iret False)"

text \<open>The three steps, and whether all of them worked (which is printed).\<close>

definition uninstall_steps :: "'w manager \<Rightarrow> ('w world, bool) iact" where
  "uninstall_steps M =
     ibind (ilift (mg_status M)) (\<lambda>status.
     ibind (ilift (if status = INSTALLED_RUNNING then stop_service (mg_init M) else aret True)) (\<lambda>stopped.
     ibind (ilift (uninstall_service (mg_host M) (mg_init M))) (\<lambda>removed.
     ibind (remove_configuration_and_data M) (\<lambda>cleaned.
       iret (stopped \<and> removed \<and> cleaned)))))"

definition uninstall_completely :: "'w manager \<Rightarrow> ('w world, bool) iact" where
  "uninstall_completely M =
     ibind (iconfirm (mg_tty M) False) (\<lambda>yes.
     if \<not> yes then iret True else ibind (uninstall_steps M) (\<lambda>success. iret True))"

section \<open>The menus\<close>

definition handle_running_service_choice :: "'w manager \<Rightarrow> int \<Rightarrow> ('w world, bool) iact" where
  "handle_running_service_choice M choice =
     (if choice = 1 then update_service M
      else if choice = 2 then ilift (view_logs M)
      else if choice = 3 then ilift (mg_restart_service M)
      else if choice = 4 then
        ibind (ilift (stop_service (mg_init M))) (\<lambda>stopped.
        if stopped then
          ibind (\<lambda>w. iret () (mg_sleep M w)) (\<lambda>_.
          ibind (ilift (mg_status M)) (\<lambda>new_status. iret False))
        else iret True)
      else if choice = 5 then uninstall_completely M
      else iret True)"

definition handle_stopped_service_choice :: "'w manager \<Rightarrow> int \<Rightarrow> ('w world, bool) iact" where
  "handle_stopped_service_choice M choice =
     (if choice = 1 then ilift (mg_start_service M)
      else if choice = 2 then iret False
      else if choice = 3 then uninstall_completely M
      else iret True)"

definition show_service_status :: "'w manager \<Rightarrow> ('w world, unit) act" where
  "show_service_status M = abind (mg_status M) (\<lambda>status. abind (get_installed_version M) (\<lambda>v. aret ()))"

definition show_management_menu :: "'w manager \<Rightarrow> ('w world, bool) iact" where
  "show_management_menu M =
     ibind (ilift (mg_status M)) (\<lambda>status.
     ibind (ilift (show_service_status M)) (\<lambda>_.
     if status = INSTALLED_RUNNING then
       ibind (ilift (has_update_available M)) (\<lambda>update_available.
       ibind (ichoice (mg_tty M)
               ((if update_available then [''Update service to '' @ mg_version M] else []) @
                [''View service logs'', ''Restart service'', ''Stop service and run manually'',
                 ''Uninstall service and remove configuration'', ''Exit''])) (\<lambda>choice.
         handle_running_service_choice M (if update_available then choice else choice + 1)))
     else if status = INSTALLED_STOPPED then
       ibind (ichoice (mg_tty M) [''Start service'', ''Run manually (one-time)'',
                ''Uninstall service and remove configuration'', ''Exit'']) (\<lambda>choice.
         handle_stopped_service_choice M choice)
     else iret False))"

section \<open>Nothing is left\<close>

lemma cleanup_removes_only: "wo_fs w p = None \<Longrightarrow> wo_fs (fold (remove_tree H) ds w) p = None"
  by (induction ds arbitrary: w) (simp_all add: remove_tree_def)

lemma remove_configuration_effect:
  assumes "remove_configuration_and_data M w = Some (Inr True, w')"
  shows "wo_fs w' (st_path (mg_store M)) = None \<and> (\<forall>p. wo_fs w p = None \<longrightarrow> wo_fs w' p = None)"
proof -
  from assms obtain there w1 w2 where ex: "config_exists (mg_store M) w = (Inr there, w1)"
    and rem: "(if there then config_remove (mg_store M) else iret ()) w1 = Some (Inr (), w2)"
    and cl: "cleanup_directories (mg_host M) w2 = (Inr (), w')"
    unfolding remove_configuration_and_data_def by (auto simp: act_simps elim!: icatch_cases ibind_cases)
  from ex have w1: "w1 = w" and there: "there \<longleftrightarrow> fexists (wo_fs w) (st_path (mg_store M))"
    by (auto simp: config_exists_def cfg_exists_def split: if_splits)
  have "wo_fs w2 (st_path (mg_store M)) = None \<and> (\<forall>p. wo_fs w p = None \<longrightarrow> wo_fs w2 p = None)"
  proof (cases there)
    case True
    with rem w1 there show ?thesis
      by (auto simp: config_remove_def on_files_def remove_config_def cfg_exists_def hstep_def fremove_def
          split: sum.splits bool.splits if_splits)
  next
    case False
    with rem w1 there show ?thesis by (auto simp: act_simps fexists_def)
  qed
  with cl show ?thesis using cleanup_removes_only by (auto simp: cleanup_directories_def)
qed

lemma uninstall_steps_cases:
  assumes "uninstall_steps M w = Some (Inr True, w')"
  obtains w1 w2 where "uninstall_service (mg_host M) (mg_init M) w1 = (Inr True, w2)"
    "remove_configuration_and_data M w2 = Some (Inr True, w')"
  using assms unfolding uninstall_steps_def by (auto simp: act_simps elim!: ibind_cases)

text \<open>
  C35. When the complete uninstallation reports that everything worked, the service file and
  the installed binary of the scope of its effective user (the system's for root, the user's
  otherwise) and the configuration are gone, on systemd, launchd and SysV machines, as long as
  the system's own commands do not write the service file back.
\<close>
theorem complete_uninstall_removes_all:
  assumes "uninstall_steps M w = Some (Inr True, w')"
    and "mg_init M \<in> {systemd_impl (mg_host M), launchd_impl (mg_host M), sysv_impl (mg_host M)}"
    and "sw = se_euid_root (ho_session (mg_host M))" and "leaves (mg_host M) (im_path (mg_init M) sw)"
  shows "wo_fs w' (im_path (mg_init M) sw) = None \<and> wo_fs w' (binary_path (mg_host M) sw) = None \<and>
    wo_fs w' (st_path (mg_store M)) = None"
proof -
  from assms(1) obtain w1 w2 where u: "uninstall_service (mg_host M) (mg_init M) w1 = (Inr True, w2)"
    and r: "remove_configuration_and_data M w2 = Some (Inr True, w')" by (rule uninstall_steps_cases)
  from uninstalled_any [OF assms(2) u assms(3,4)] remove_configuration_effect [OF r] show ?thesis by blast
qed

definition demo_manager :: "unit manager" where
  "demo_manager = \<lparr>mg_host = demo_host, mg_init = systemd_impl demo_host,
     mg_tty = \<lparr>te_interactive = False, te_raw_ok = False, te_key = (\<lambda>w. (None, w)), te_line = (\<lambda>w. (''1'', w))\<rparr>,
     mg_store = \<lparr>st_parse = ref_parse, st_stream = ref_parse, st_dump = ref_dump, st_env = (\<lambda>_. demo_cfg []), st_path = ''/etc/thinr-agent/config.json''\<rparr>,
     mg_version = ''1.2.0'', mg_popen = (\<lambda>_ w. (Some ''thinr-agent version 1.1.0'', w)), mg_self = Some ''/tmp/thinr'',
     mg_sleep = (\<lambda>w. w)\<rparr>"

theorem complete_uninstall_removes_all_witness:
  "\<exists>w'. uninstall_steps demo_manager \<lparr>wo_fs = [''/etc/thinr-agent/config.json'' \<mapsto> \<lparr>f_data = ''{}'', f_mode = 384\<rparr>], wo_rest = ()\<rparr> =
     Some (Inr True, w') \<and> wo_fs w' ''/etc/thinr-agent/config.json'' = None"
proof -
  let ?w = "\<lparr>wo_fs = [''/etc/thinr-agent/config.json'' \<mapsto> \<lparr>f_data = ''{}'', f_mode = 384\<rparr>], wo_rest = ()\<rparr> :: unit world"
  let ?v = "\<lparr>wo_fs = fremove ''/etc/thinr-agent/config.json'' (wo_fs ?w), wo_rest = ()\<rparr> :: unit world"
  have user: "systemd_path demo_host False = ''/root/.config/systemd/user/thinr-agent.service''"
    by (simp add: systemd_path_def demo_host_def get_systemd_service_path_def get_home_directory_def SERVICE_NAME_def)
  have uid: "can_install_system_service demo_host"
    by (simp add: can_install_system_service_def is_running_as_root_def demo_host_def)
  have st: "mg_status demo_manager ?w = (Inr NOT_INSTALLED, ?w)"
    by (simp add: mg_status_def demo_manager_def get_service_status_def acatch_def abind_def aret_def systemd_impl_def
        systemd_status_def systemd_user_def execute_system_command_def file_there_def hexists_def fexists_def demo_paths user
        demo_host_simps uid Let_def)
  have un: "uninstall_service demo_host (systemd_impl demo_host) ?w = (Inr True, ?w)"
    by (simp add: uninstall_service_def acatch_def abind_def aret_def systemd_impl_def systemd_uninstall_def
        file_there_def hexists_def fexists_def demo_paths demo_host_simps Let_def)
  have rem: "remove_configuration_and_data demo_manager ?w = Some (Inr True, ?v)"
    by (simp add: remove_configuration_and_data_def demo_manager_def config_exists_def cfg_exists_def demo_cfg_def
        fexists_def config_remove_def on_files_def remove_config_def hstep_def cleanup_directories_def data_directories_def
        remove_tree_def demo_host_simps icatch_def ibind_def ilift_def iret_def)
  have sel: "mg_host demo_manager = demo_host" "mg_init demo_manager = systemd_impl demo_host"
    "st_path (mg_store demo_manager) = ''/etc/thinr-agent/config.json''"
    by (simp_all add: demo_manager_def)
  have run: "uninstall_steps demo_manager ?w = Some (Inr True, ?v)"
    by (simp add: uninstall_steps_def sel ibind_run ilift_def st un aret_def rem iret_def)
  have root: "True = se_euid_root (ho_session (mg_host demo_manager))" by (simp add: sel demo_host_simps)
  from complete_uninstall_removes_all [OF run _ root] have "wo_fs ?v ''/etc/thinr-agent/config.json'' = None"
    by (simp add: sel demo_leaves)
  with run show ?thesis by blast
qed

end
