(* ===== verification/Commands.thy ===== *)
theory Commands
  imports Setup_Props Service_Manager Arg_Parser Updater
begin

text \<open>
  The command handler (\<open>src/thinr/cli/command_handler.cpp\<close>) and \<open>main\<close> (\<open>src/main.cpp\<close>): which
  command runs, the installation with a token or a password, what is saved and installed, the
  update and bootstrap commands, and the mode chosen when there is no command. The result is the
  exit code. Messages are left out; the run of the agent itself is a parameter that says how it
  ended.
\<close>

section \<open>Environment\<close>

datatype agent_end = AgentReturned | AgentThrew exn

record 'r command_env =
  cm_setup :: "'r setup_env"
  cm_manager :: "'r dialog manager"
  cm_android :: bool
  cm_build :: build
  cm_sha :: sha256
  cm_update :: "'r desk \<Rightarrow> run_env"
  cm_agent :: "credentials \<Rightarrow> string \<Rightarrow> 'r desk \<Rightarrow> agent_end \<times> 'r desk"
  cm_ssl :: "'r desk \<Rightarrow> 'r desk"

abbreviation cm_host :: "'r command_env \<Rightarrow> 'r dialog host" where
  "cm_host C \<equiv> su_host (cm_setup C)"

abbreviation cm_session :: "'r command_env \<Rightarrow> session" where
  "cm_session C \<equiv> ho_session (cm_host C)"

definition cm_tty :: "'r command_env \<Rightarrow> 'r desk tty" where
  "cm_tty C = su_tty (cm_setup C)"

definition is_interactive_terminal :: "'r command_env \<Rightarrow> bool" where
  "is_interactive_terminal C = te_interactive (cm_tty C)"

text \<open>The handler's own manager has no certificate callback.\<close>

definition cm_auth :: "'r command_env \<Rightarrow> 'r desk auth_env" where
  "cm_auth C = (su_auth (cm_setup C))\<lparr>ae_callback := None\<rparr>"

definition store_at :: "'r command_env \<Rightarrow> string \<Rightarrow> 'r dialog store" where
  "store_at C path = (su_store (cm_setup C))\<lparr>st_path := path\<rparr>"

text \<open>The setup and the service manager use the default path.\<close>

definition run_setup :: "'r command_env \<Rightarrow> ('r desk, bool) iact" where
  "run_setup C =
     ibind (ires (default_config_path (cm_session C))) (\<lambda>path.
       setup_run ((cm_setup C)\<lparr>su_store := store_at C path\<rparr>))"

section \<open>Installation\<close>

definition determine_device_id :: "'r command_env \<Rightarrow> string \<Rightarrow> string" where
  "determine_device_id C provided = (if provided \<noteq> [] then provided else generate (su_machine (cm_setup C)))"

definition determine_device_name :: "string option \<Rightarrow> string \<Rightarrow> string \<Rightarrow> string" where
  "determine_device_name hostname requested fallback =
     (if requested \<noteq> [] then requested
      else let name = map to_lower (strip_local (case hostname of Some h \<Rightarrow> h | None \<Rightarrow> []))
           in if name = [] \<or> name = ''localhost'' then fallback else name)"

text \<open>The first listed product with the given identifier, or of the type \<open>thinremote\<close>.\<close>

fun has_product :: "string \<Rightarrow> json list \<Rightarrow> bool res" where
  "has_product wanted [] = Inr False"
| "has_product wanted (p # ps) =
     rbind (jvalue get_string p ''product'' []) (\<lambda>i.
       if i = wanted then rbind (jvalue get_string p ''name'' wanted) (\<lambda>name. Inr True)
       else has_product wanted ps)"

fun first_thinremote :: "json list \<Rightarrow> string res" where
  "first_thinremote [] = Inr []"
| "first_thinremote (p # ps) =
     rbind (product_type p) (\<lambda>type.
       if type = ''thinremote'' then
         rbind (jvalue get_string p ''product'' []) (\<lambda>i.
           if i \<noteq> [] then rbind (jvalue get_string p ''name'' i) (\<lambda>name. Inr i) else first_thinremote ps)
       else first_thinremote ps)"

definition array_of :: "json \<Rightarrow> json list" where
  "array_of j = (case j of JArr xs \<Rightarrow> xs | _ \<Rightarrow> [])"

definition seed_default_alarms :: "'r desk auth_env \<Rightarrow> string \<Rightarrow> string \<Rightarrow> string \<Rightarrow> ('r desk, unit) act" where
  "seed_default_alarms E host username tok =
     abind (ensure_default_alarms E host username tok False) (\<lambda>result. aret ())"

definition resolve_product :: "'r desk auth_env \<Rightarrow> string \<Rightarrow> string \<Rightarrow> string \<Rightarrow> string \<Rightarrow> ('r desk, string) act" where
  "resolve_product E host username tok provided =
     abind (list_products E host username tok) (\<lambda>l.
     if \<not> li_success l then aret provided else
     abind (if provided \<noteq> [] then
              abind (alift (has_product provided (array_of (li_items l)))) (\<lambda>found.
              if found then aret provided
              else abind (create_product E host username tok (build_default_product provided provided)) (\<lambda>created. aret provided))
            else
              abind (alift (first_thinremote (array_of (li_items l)))) (\<lambda>i.
              if i \<noteq> [] then aret i
              else abind (create_product E host username tok (build_default_product ''thinremote'' ''ThinRemote'')) (\<lambda>created.
                aret (if ct_success created then ''thinremote'' else []))))
       (\<lambda>resolved_id.
          if resolved_id \<noteq> [] then abind (seed_default_alarms E host username tok) (\<lambda>_. aret resolved_id)
          else aret resolved_id))"

text \<open>What is written into the update section after the credentials were saved.\<close>

definition recorded_policy :: "string \<Rightarrow> json \<Rightarrow> json option" where
  "recorded_policy policy existing_raw =
     (let settings = settings_from_json existing_raw in
      if policy \<noteq> [] then
        (case policy_from_string policy of
           Some p \<Rightarrow> Some (settings_to_json (settings\<lparr>us_policy := p, us_source := LocalExplicit\<rparr>))
         | None \<Rightarrow> None)
      else if jempty existing_raw then Some (settings_to_json settings) else None)"

definition save_and_install_service ::
    "'r command_env \<Rightarrow> string \<Rightarrow> bool \<Rightarrow> string \<Rightarrow> credentials \<Rightarrow> bool \<Rightarrow> ('r desk, bool) iact" where
  "save_and_install_service C path verify_ssl update_policy c no_start =
     (let St = store_at C path in
      ibind (config_save St (c\<lparr>cr_verify_ssl := verify_ssl\<rparr>)) (\<lambda>_.
      ibind (ilift (config_update_section St)) (\<lambda>existing_raw.
      ibind (case recorded_policy update_policy existing_raw of
               Some j \<Rightarrow> config_write_update St j | None \<Rightarrow> iret ()) (\<lambda>_.
      if cm_android C then iret True
      else
        ibind (ilift (install_service (cm_host C) (su_init (cm_setup C)) AUTO)) (\<lambda>installed.
        if \<not> installed then iret False
        else if no_start then iret True
        else ibind (ilift (start_service (su_init (cm_setup C)))) (\<lambda>started. iret True))))))"

definition complete_provisioning ::
    "'r command_env \<Rightarrow> string \<Rightarrow> install_options \<Rightarrow> string \<Rightarrow> string \<Rightarrow> string \<Rightarrow> string \<Rightarrow> string \<Rightarrow> string
      \<Rightarrow> ('r desk, bool) iact" where
  "complete_provisioning C path opts host username device_id device_name tok product_id =
     (let E = cm_auth C;
          provision = provision_device E host username device_id device_name tok product_id;
          finish = (\<lambda>c. save_and_install_service C path (\<not> io_no_verify_ssl opts) (io_update_policy opts) c (io_no_start opts))
      in ibind (ilift provision) (\<lambda>result.
         if pv_success result then finish (pv_credentials result)
         else if pv_status result = 409 \<and> io_overwrite opts then
           ibind (ilift (delete_device E host username device_id tok)) (\<lambda>deleted.
           ibind (ilift provision) (\<lambda>retry.
           if pv_success retry then finish (pv_credentials retry) else iret False))
         else iret False))"

definition install_with_token :: "'r command_env \<Rightarrow> string \<Rightarrow> install_options \<Rightarrow> ('r desk, bool) iact" where
  "install_with_token C path opts =
     (let E = cm_auth C; tok = io_token opts in
      icatch
        (ibind (ires (token_claims E tok)) (\<lambda>claims.
         case claims of
           None \<Rightarrow> iret False
         | Some (host, username) \<Rightarrow>
             ibind (ilift (resolve_product E host username tok (io_product opts))) (\<lambda>product_id.
             let device_id = determine_device_id C (io_device_id opts);
                 device_name = determine_device_name (ma_hostname (su_machine (cm_setup C))) (io_name opts) device_id
             in complete_provisioning C path opts host username device_id device_name tok product_id)))
        (\<lambda>e. iret False))"

definition install_interactive :: "'r command_env \<Rightarrow> string \<Rightarrow> install_options \<Rightarrow> ('r desk, bool) iact" where
  "install_interactive C path opts =
     (if \<not> is_interactive_terminal C then iret False else
      ibind (iline (cm_tty C)) (\<lambda>username.
      if username = [] then iret False else
      ibind (iline (cm_tty C)) (\<lambda>password.
      let E = cm_auth C; host = io_host opts;
          device_id = determine_device_id C (io_device_id opts);
          device_name = determine_device_name (ma_hostname (su_machine (cm_setup C))) (io_name opts) device_id
      in ibind (ilift (oauth_password_flow E host username password)) (\<lambda>result.
         if \<not> au_success result then iret False else
         ibind (ilift (resolve_product E host username (au_token result) (io_product opts))) (\<lambda>product_id.
           complete_provisioning C path opts host username device_id device_name (au_token result) product_id)))))"

definition exit_code :: "bool \<Rightarrow> int" where "exit_code ok = (if ok then 0 else 1)"

definition handle_install :: "'r command_env \<Rightarrow> string \<Rightarrow> install_options \<Rightarrow> ('r desk, int) iact" where
  "handle_install C path opts =
     ibind (ilift (config_exists (store_at C path))) (\<lambda>there.
     if there \<and> \<not> (io_overwrite opts \<and> io_token opts \<noteq> []) then iret 1
     else if io_update_policy opts \<noteq> [] \<and> policy_from_string (io_update_policy opts) = None then iret 1
     else ibind (if io_token opts \<noteq> [] then install_with_token C path opts else install_interactive C path opts) (\<lambda>success.
       iret (exit_code success)))"

section \<open>The other commands\<close>

definition handle_uninstall :: "'r command_env \<Rightarrow> ('r desk, int) iact" where
  "handle_uninstall C =
     (if \<not> is_interactive_terminal C then iret 1
      else ibind (uninstall_completely (cm_manager C)) (\<lambda>_. iret 0))"

definition handle_status :: "('r desk, int) iact" where "handle_status = iret 1"
definition handle_test :: "('r desk, int) iact" where "handle_test = iret 1"

text \<open>A policy change is stored and the command ends.\<close>

definition set_policy :: "'r command_env \<Rightarrow> string \<Rightarrow> update_options \<Rightarrow> ('r desk, int) iact" where
  "set_policy C path opts =
     (case policy_from_string (uo_policy opts) of
        None \<Rightarrow> iret 1
      | Some p \<Rightarrow>
          if uo_channel opts \<noteq> [] \<and> \<not> valid_channel (uo_channel opts) then iret 1
          else
            let St = store_at C path in
            ibind (ilift (config_exists St)) (\<lambda>there.
            if \<not> there then iret 1
            else
              ibind (ilift (config_update_section St)) (\<lambda>raw.
              let s = settings_from_json raw;
                  s = s\<lparr>us_policy := p, us_source := LocalExplicit\<rparr>;
                  s = (if uo_channel opts \<noteq> [] then s\<lparr>us_channel := uo_channel opts\<rparr> else s)
              in icatch (ibind (config_write_update St (settings_to_json s)) (\<lambda>_. iret 0)) (\<lambda>e. iret 1))))"

definition update_exit :: "run_result \<Rightarrow> int" where
  "update_exit r = (if rr_status r \<in> {''up_to_date'', ''update_available'', ''updated''} then 0 else 1)"

definition run_update :: "'r command_env \<Rightarrow> update_options \<Rightarrow> ('r desk, run_result) iact" where
  "run_update C opts = (\<lambda>w.
     on_files (\<lambda>h. map_option (\<lambda>(h', fl, r). (h', r))
       (Updater.run (cm_build C) (st_parse (su_store (cm_setup C))) (st_dump (su_store (cm_setup C))) (cm_sha C) (cm_update C w)
          (if uo_apply opts \<or> uo_now opts then Apply else Check) (uo_channel opts) Cli False h)) w)"

definition handle_update :: "'r command_env \<Rightarrow> string \<Rightarrow> update_options \<Rightarrow> ('r desk, int) iact" where
  "handle_update C path opts =
     (if uo_policy opts \<noteq> [] then set_policy C path opts
      else
        ibind (if \<not> uo_apply opts \<and> \<not> uo_now opts then ilift (config_exists (store_at C path)) else iret False) (\<lambda>there.
        ibind (run_update C opts) (\<lambda>r. iret (update_exit r))))"

definition handle_bootstrap :: "'r command_env \<Rightarrow> bootstrap_options \<Rightarrow> ('r desk, int) iact" where
  "handle_bootstrap C opts =
     (if bo_token opts = [] then iret 1
      else
        let E = (if bo_no_verify_ssl opts then (cm_auth C)\<lparr>ae_callback := Some (\<lambda>_ w. (True, w))\<rparr> else cm_auth C)
        in case token_claims E (bo_token opts) of
             Inl e \<Rightarrow> iret 1
           | Inr None \<Rightarrow> iret 1
           | Inr (Some (host, username)) \<Rightarrow>
               ibind (ilift (ensure_default_alarms E host username (bo_token opts) (bo_force opts))) (\<lambda>result.
                 iret (if \<not> en_listed result then 1 else if en_failed result > 0 then 1 else 0)))"

text \<open>The update section is carried over the setup, if the setup succeeds.\<close>

definition handle_reconfigure :: "'r command_env \<Rightarrow> string \<Rightarrow> ('r desk, int) iact" where
  "handle_reconfigure C path =
     (if \<not> is_interactive_terminal C then iret 1
      else
        let St = store_at C path in
        ibind (ilift (config_exists St)) (\<lambda>there.
        ibind (if there then
                 ibind (ilift (config_update_section St)) (\<lambda>saved.
                 ibind (config_remove St) (\<lambda>_. iret saved))
               else iret JNull) (\<lambda>saved_update.
        ibind (run_setup C) (\<lambda>ok.
        ibind (if ok \<and> \<not> jempty saved_update then ilift (config_exists St) else iret False) (\<lambda>there.
        ibind (if there then icatch (config_write_update St saved_update) (\<lambda>e. iret ()) else iret ()) (\<lambda>_.
          iret (exit_code ok)))))))"

section \<open>No command\<close>

definition run_agent :: "'r command_env \<Rightarrow> string \<Rightarrow> ('r desk, int) iact" where
  "run_agent C path =
     icatch
       (ibind (ilift (config_load (store_at C path))) (\<lambda>c. \<lambda>w.
          case cm_agent C c path w of
            (AgentReturned, w') \<Rightarrow> Some (Inr 0, w')
          | (AgentThrew e, w') \<Rightarrow> Some (Inl e, w')))
       (\<lambda>e. iret 1)"

definition check_system_installation :: "'r command_env \<Rightarrow> ('r desk, bool) act" where
  "check_system_installation C =
     abind (file_there (cm_host C) ''/etc/thinr-agent/config.json'') (\<lambda>there.
     if \<not> there then aret False
     else abind (check_service_status (su_init (cm_setup C)) True) (\<lambda>status. aret (status \<noteq> NOT_INSTALLED)))"

definition handle_system_installation_detected :: "'r command_env \<Rightarrow> ('r desk, int) iact" where
  "handle_system_installation_detected C =
     ibind (ilift (check_service_status (su_init (cm_setup C)) True)) (\<lambda>status.
     ibind (ilift (atry (config_load (store_at C ''/etc/thinr-agent/config.json'')))) (\<lambda>_.
     ibind (ichoice (cm_tty C) [''Create a user-specific installation'', ''Exit'']) (\<lambda>choice.
     if choice = 1 then ibind (run_setup C) (\<lambda>ok. iret (exit_code ok)) else iret 0)))"

definition handle_no_command :: "'r command_env \<Rightarrow> string \<Rightarrow> string \<Rightarrow> ('r desk, int) iact" where
  "handle_no_command C path explicit =
     ibind (ilift (config_exists (store_at C path))) (\<lambda>there.
     if there then
       ibind (ilift (mg_status (cm_manager C))) (\<lambda>status.
       ibind (if status \<in> {INSTALLED_RUNNING, INSTALLED_STOPPED} \<and> is_interactive_terminal C \<and> explicit = []
              then show_management_menu (cm_manager C) else iret False) (\<lambda>handled.
       if handled then iret 0 else run_agent C path))
     else
       ibind (if \<not> se_euid_root (cm_session C) then ilift (check_system_installation C) else iret False) (\<lambda>system.
       if system then
         (if \<not> is_interactive_terminal C then iret 1 else handle_system_installation_detected C)
       else if \<not> is_interactive_terminal C then iret 1
       else ibind (run_setup C) (\<lambda>ok. iret (exit_code ok))))"

section \<open>Dispatch\<close>

definition needs_ssl :: "command \<Rightarrow> bool" where
  "needs_ssl c \<longleftrightarrow> c \<in> {INSTALL, TEST, RECONFIGURE, UPDATE, BOOTSTRAP, NoCommand}"

text \<open>The logging level: 3 and 4 come from the parser; the branch for 1 looks at the default configuration.\<close>

definition verbosity_of :: "parse_result \<Rightarrow> bool \<Rightarrow> int" where
  "verbosity_of p config_there =
     (if pa_verbosity p = 1 then
        (if pa_command p \<in> {INSTALL, RECONFIGURE, UNINSTALL} \<or> (pa_command p = NoCommand \<and> \<not> config_there) then 0 else 1)
      else pa_verbosity p)"

definition run_command :: "'r command_env \<Rightarrow> string \<Rightarrow> parse_result \<Rightarrow> ('r desk, int) iact" where
  "run_command C path p =
     (case pa_command p of
        HELP \<Rightarrow> iret 0
      | INSTALL \<Rightarrow> handle_install C path (pa_install p)
      | UNINSTALL \<Rightarrow> handle_uninstall C
      | CMD_STATUS \<Rightarrow> handle_status
      | TEST \<Rightarrow> handle_test
      | RECONFIGURE \<Rightarrow> handle_reconfigure C path
      | UPDATE \<Rightarrow> handle_update C path (pa_update p)
      | BOOTSTRAP \<Rightarrow> handle_bootstrap C (pa_bootstrap p)
      | NoCommand \<Rightarrow> handle_no_command C path (pa_config_path p)
      | VERSION \<Rightarrow> iret 0
      | UNKNOWN \<Rightarrow> iret 1)"

definition execute :: "'r command_env \<Rightarrow> string \<Rightarrow> parse_result \<Rightarrow> ('r desk, int) iact" where
  "execute C default_path p =
     ibind (if pa_config_path p \<noteq> [] then ires (config_path_of (cm_session C) (pa_config_path p)) else iret default_path) (\<lambda>path.
     if \<not> pa_success p then iret 1
     else (\<lambda>w. run_command C path p (if needs_ssl (pa_command p) then cm_ssl C w else w)))"

definition with_installer :: "'r dialog init_impl \<Rightarrow> 'r command_env \<Rightarrow> 'r command_env" where
  "with_installer I C = C\<lparr>cm_setup := (cm_setup C)\<lparr>su_init := I\<rparr>, cm_manager := (cm_manager C)\<lparr>mg_init := I\<rparr>\<rparr>"

text \<open>
  \<open>main\<close>: the handler's members are constructed first, the configuration manager with its default
  path and the installer for the init system found; whatever throws ends in exit code 1.
\<close>

definition main :: "bool \<Rightarrow> options_parser \<Rightarrow> string list \<Rightarrow> 'r command_env \<Rightarrow> 'r desk \<Rightarrow> (int \<times> 'r desk) option" where
  "main darwin po args C w =
     (case (icatch
        (ibind (ires (default_config_path (cm_session C))) (\<lambda>path.
         ibind (ires (create_installer (cm_android C) darwin (cm_host C) w)) (\<lambda>I.
           execute (with_installer I C) path (parse po args))))
        (\<lambda>e. iret 1)) w of
        None \<Rightarrow> None
      | Some (Inr code, w') \<Rightarrow> Some (code, w')
      | Some (Inl e, w') \<Rightarrow> Some (1, w'))"

end
