(* ===== verification/Commands_Props.thy ===== *)
theory Commands_Props
  imports Commands
begin

text \<open>
  Properties of the commands: what a successful installation leaves in the configuration file,
  what a policy change does to the channel, what happens when the server's certificate cannot be
  verified, what a cancelled reconfiguration loses, and where the agent starts at all.
\<close>

section \<open>The configuration file across the commands\<close>

text \<open>The codec writes what it can read, and the file can be read.\<close>

definition readable :: "'w store \<Rightarrow> bool" where
  "readable St \<longleftrightarrow> json_text (st_parse St) (st_dump St) \<and> json_text (st_stream St) (st_dump St) \<and>
     (\<forall>t j. st_parse St t = Some j \<longrightarrow> st_stream St t = Some j) \<and>
     (\<forall>w. ce_stat_ok (st_env St w) \<and> ce_open_ok (st_env St w))"

definition store_settings :: "'w store \<Rightarrow> 'w world \<Rightarrow> update_settings" where
  "store_settings St w = settings_from_json (read_update_section (st_parse St) (st_env St w) (wo_fs w) (st_path St))"

definition store_load :: "'w store \<Rightarrow> 'w world \<Rightarrow> credentials res" where
  "store_load St w = load (st_stream St) (st_env St w) (wo_fs w) (st_path St)"

definition plain_at :: "'w store \<Rightarrow> 'w world \<Rightarrow> bool" where
  "plain_at St w \<longleftrightarrow> (\<forall>j. read_raw (st_parse St) (st_env St w) (wo_fs w) (st_path St) = Inr j \<longrightarrow> jplain j)"

lemma kept_file_reads:
  assumes "readable St" and "wo_fs w' (st_path St) = wo_fs w (st_path St)"
  shows "store_settings St w' = store_settings St w" "store_load St w' = store_load St w"
  using assms load_bytes [of "st_env St w" "st_env St w'" "wo_fs w'" "st_path St" "wo_fs w"]
  by (simp_all add: readable_def store_settings_def store_load_def)

lemma config_save_effect:
  assumes "readable St" and "config_save St c w = Some (Inr (), w')" and "cr_ascii c" and "plain_at St w"
  shows "store_load St w' = Inr (c\<lparr>cr_version := stored_version c\<rparr>)" "store_settings St w' = store_settings St w" "plain_at St w'"
proof -
  from assms(2) obtain h where h: "save (st_parse St) (st_dump St) (st_env St w) (st_path St) c [wo_fs w] = Some (h, Inr ())"
    and w': "w' = w\<lparr>wo_fs := hd h\<rparr>"
    by (auto simp: config_save_def on_files_def)
  have p: "\<forall>j. read_raw (st_parse St) (st_env St w) (hd [wo_fs w]) (st_path St) = Inr j \<longrightarrow> jplain j"
    using assms(4) by (simp add: plain_at_def)
  have r: "json_text (st_parse St) (st_dump St)" "json_text (st_stream St) (st_dump St)"
    "ce_stat_ok (st_env St w')" "ce_open_ok (st_env St w')"
    using assms(1) by (simp_all add: readable_def)
  from save_effect [OF r(1,2) h assms(3) p r(3,4)]
  show "store_load St w' = Inr (c\<lparr>cr_version := stored_version c\<rparr>)" "store_settings St w' = store_settings St w"
    by (simp_all add: store_load_def store_settings_def w')
  show "plain_at St w'"
    using save_leaves_plain [OF r(1) h assms(3) p] by (simp add: plain_at_def w')
qed

lemma config_write_effect:
  assumes "readable St" and "config_write_update St u w = Some (Inr (), w')" and "jplain u" and "plain_at St w"
  shows "store_load St w' = store_load St w" "store_settings St w' = settings_from_json u"
proof -
  from assms(2) obtain h where h: "write_update_section (st_parse St) (st_dump St) (st_env St w) (st_path St) u [wo_fs w] = Some (h, Inr ())"
    and w': "w' = w\<lparr>wo_fs := hd h\<rparr>"
    by (auto simp: config_write_update_def on_files_def)
  have p: "\<forall>j. read_raw (st_parse St) (st_env St w) (hd [wo_fs w]) (st_path St) = Inr j \<longrightarrow> jplain j"
    using assms(4) by (simp add: plain_at_def)
  have r: "json_text (st_parse St) (st_dump St)" "json_text (st_stream St) (st_dump St)"
    "\<forall>t j. st_parse St t = Some j \<longrightarrow> st_stream St t = Some j" "\<And>v. ce_stat_ok (st_env St v)" "\<And>v. ce_open_ok (st_env St v)"
    using assms(1) by (simp_all add: readable_def)
  from write_section_effect [OF r(1-3) h assms(3) p r(4) r(5)]
  have e: "load (st_stream St) (st_env St w') (hd h) (st_path St) = load (st_stream St) (st_env St w') (wo_fs w) (st_path St)"
    "settings_from_json (read_update_section (st_parse St) (st_env St w') (hd h) (st_path St)) = settings_from_json u"
    by simp_all
  have "load (st_stream St) (st_env St w') (wo_fs w) (st_path St) = load (st_stream St) (st_env St w) (wo_fs w) (st_path St)"
    by (rule load_bytes(1)) (simp_all add: r)
  with e show "store_load St w' = store_load St w" "store_settings St w' = settings_from_json u"
    by (simp_all add: store_load_def store_settings_def w')
qed

text \<open>The policy an installation asks for, on top of what is stored.\<close>

definition requested_settings :: "string \<Rightarrow> update_settings \<Rightarrow> update_settings" where
  "requested_settings policy s =
     (case policy_from_string policy of
        Some p \<Rightarrow> if policy = [] then s else s\<lparr>us_policy := p, us_source := LocalExplicit\<rparr>
      | None \<Rightarrow> s)"

lemma requested_ok: "settings_ok s \<Longrightarrow> settings_ok (requested_settings policy s)"
  by (simp add: requested_settings_def settings_ok_def split: option.splits)

lemma recorded_is_requested:
  "recorded_policy policy raw = Some u \<Longrightarrow> u = settings_to_json (requested_settings policy (settings_from_json raw))"
  "recorded_policy policy raw = None \<Longrightarrow> requested_settings policy s = s"
  by (auto simp: recorded_policy_def requested_settings_def Let_def split: if_splits option.splits)

text \<open>
  C12. A successful \<open>save_and_install_service\<close> leaves a configuration the daemon can load: the
  credentials that were provisioned, with the verification flag the user asked for; and the
  update settings are what they were before, an explicit opt-out included, except that
  \<open>--update-policy\<close> sets the policy and marks it as the user's own choice.
\<close>
theorem install_records_credentials_and_policy:
  assumes "save_and_install_service C path verify policy c no_start w = Some (Inr True, w')"
    and "readable (store_at C path)" and "plain_at (store_at C path) w" and "cr_ascii c"
    and "keeps_file path (install_service (cm_host C) (su_init (cm_setup C)) AUTO)"
    and "keeps_file path (start_service (su_init (cm_setup C)))"
  shows "store_load (store_at C path) w' = Inr (c\<lparr>cr_verify_ssl := verify, cr_version := stored_version c\<rparr>) \<and>
    store_settings (store_at C path) w' = requested_settings policy (store_settings (store_at C path) w)"
proof -
  define St where "St = store_at C path"
  let ?c = "c\<lparr>cr_verify_ssl := verify\<rparr>"
  have path: "st_path St = path" by (simp add: St_def store_at_def)
  from assms(1) obtain w1 where s: "config_save St ?c w = Some (Inr (), w1)"
    and 1: "ibind (ilift (config_update_section St)) (\<lambda>existing_raw.
      ibind (case recorded_policy policy existing_raw of Some j \<Rightarrow> config_write_update St j | None \<Rightarrow> iret ()) (\<lambda>_.
      if cm_android C then iret True
      else ibind (ilift (install_service (cm_host C) (su_init (cm_setup C)) AUTO)) (\<lambda>installed.
        if \<not> installed then iret False else if no_start then iret True
        else ibind (ilift (start_service (su_init (cm_setup C)))) (\<lambda>started. iret True)))) w1 = Some (Inr True, w')"
    unfolding save_and_install_service_def Let_def St_def by (cases rule: ibind_cases) auto
  define raw where "raw = read_update_section (st_parse St) (st_env St w1) (wo_fs w1) (st_path St)"
  from 1 obtain w2 where r: "(case recorded_policy policy raw of Some j \<Rightarrow> config_write_update St j | None \<Rightarrow> iret ()) w1 = Some (Inr (), w2)"
    and 2: "(if cm_android C then iret True
      else ibind (ilift (install_service (cm_host C) (su_init (cm_setup C)) AUTO)) (\<lambda>installed.
        if \<not> installed then iret False else if no_start then iret True
        else ibind (ilift (start_service (su_init (cm_setup C)))) (\<lambda>started. iret True))) w2 = Some (Inr True, w')"
    unfolding raw_def by (auto simp: config_update_section_def act_simps elim!: ibind_cases)
  have ascii: "cr_ascii ?c" using assms(4) by (simp add: cr_ascii_def)
  note e1 = config_save_effect [OF assms(2) [folded St_def] s ascii assms(3) [folded St_def]]
  have raw: "settings_from_json raw = store_settings St w1" by (simp add: raw_def store_settings_def)
  have e2: "store_load St w2 = store_load St w1 \<and> store_settings St w2 = requested_settings policy (store_settings St w1)"
  proof (cases "recorded_policy policy raw")
    case None
    with r recorded_is_requested(2) [OF None] show ?thesis by (simp add: act_simps)
  next
    case (Some u)
    from recorded_is_requested(1) [OF Some] have u: "u = settings_to_json (requested_settings policy (store_settings St w1))" by (simp add: raw)
    have ok: "settings_ok (requested_settings policy (store_settings St w1))"
      by (rule requested_ok) (simp add: store_settings_def settings_from_json_ok)
    have "jplain u" unfolding u by (rule settings_plain [OF ok])
    with config_write_effect [OF assms(2) [folded St_def], of u w1 w2] r Some e1(3) settings_read_back [OF ok, unfolded settings_norm] show ?thesis
      by (simp add: u)
  qed
  have "wo_fs w' path = wo_fs w2 path"
    using 2 assms(5,6) unfolding keeps_file_def
    by (auto simp: act_simps elim!: ibind_cases split: if_splits) (metis snd_conv)+
  from kept_file_reads [OF assms(2) [folded St_def], of w' w2, unfolded path, OF this] e1 e2 show ?thesis
    unfolding St_def [symmetric] by (simp add: stored_version_def)
qed

text \<open>The desk of the setup's witness, on Android (no init system), with room for two writes.\<close>

definition demo_update :: json where
  "demo_update = settings_to_json (requested_settings ''managed'' default_settings)"

definition demo_room :: string where
  "demo_room = ref_dump (JObj (put_credentials typed_credentials [])) @
     ref_dump (JObj (smap_put ''update'' demo_update (map (map_prod id jnorm) (put_credentials typed_credentials []))))"

definition roomy_setup :: "string list setup_env" where
  "roomy_setup = demo_setup\<lparr>su_store := \<lparr>st_parse = ref_parse, st_stream = ref_parse, st_dump = ref_dump,
     st_env = (\<lambda>_. demo_cfg demo_room), st_path = ''/etc/c''\<rparr>\<rparr>"

definition demo_command :: "string list command_env" where
  "demo_command = \<lparr>cm_setup = roomy_setup,
     cm_manager = \<lparr>mg_host = desk_host, mg_init = nop_init, mg_tty = lines_tty, mg_store = su_store roomy_setup,
       mg_version = ''1.2.0'', mg_popen = (\<lambda>_ w. (None, w)), mg_self = None, mg_sleep = (\<lambda>w. w)\<rparr>,
     cm_android = True, cm_build = demo_build, cm_sha = (\<lambda>_. None),
     cm_update = (\<lambda>_. \<lparr>re_http = (\<lambda>_. HttpError ''down''), re_what = (\<lambda>_. []), re_state_dir = ''/etc/t'', re_apply = demo_env\<rparr>),
     cm_agent = (\<lambda>c p w. (AgentReturned, w)), cm_ssl = (\<lambda>w. w)\<rparr>"

lemma typed_valid: "cr_is_valid typed_credentials" "cr_ascii typed_credentials"
  by (simp_all add: cr_is_valid_def cr_ascii_def typed_credentials_def no_credentials_def ascii_def code_of_def)

lemma roomy_fields: "st_parse (store_at demo_command p) = ref_parse" "st_stream (store_at demo_command p) = ref_parse"
  "st_dump (store_at demo_command p) = ref_dump" "st_env (store_at demo_command p) w = demo_cfg demo_room" "st_path (store_at demo_command p) = p"
  by (simp_all add: store_at_def demo_command_def roomy_setup_def)

lemma roomy_readable: "readable (store_at demo_command ''/etc/c'')"
  by (simp add: readable_def roomy_fields json_text_ref) (simp add: demo_cfg_def)

abbreviation demo_put :: "(string \<times> json) list" where
  "demo_put \<equiv> put_credentials typed_credentials []"

lemma demo_space: "length (ref_dump (JObj demo_put)) \<le> length demo_room"
  "length (ref_dump (JObj (smap_put ''update'' demo_update (map (map_prod id jnorm) demo_put)))) \<le> length demo_room"
  unfolding demo_room_def length_append by (rule le_add1, rule le_add2)

lemma demo_plain: "jplain (JObj demo_put)"
  by (rule put_credentials_plain [OF typed_valid(2)]) (simp add: smap_inv_def)

lemma demo_requested: "requested_settings ''managed'' default_settings = default_settings\<lparr>us_policy := Managed, us_source := LocalExplicit\<rparr>"
  "settings_from_json (JObj []) = default_settings"
  by (simp_all add: requested_settings_def policy_from_string_def settings_from_json_def parse_policy_def parse_source_def parse_channel_def
      clamp_int_def default_settings_def)

text \<open>A file that holds just the credentials: it has no section, and there is room to write one.\<close>

lemma demo_credentials_file:
  assumes d: "data_of (wo_fs w) ''/etc/c'' = Some (ref_dump (JObj demo_put))"
  shows "config_exists (store_at demo_command ''/etc/c'') w = (Inr True, w)"
    and "config_update_section (store_at demo_command ''/etc/c'') w = (Inr (JObj []), w)"
    and "plain_at (store_at demo_command ''/etc/c'') w"
    and "\<exists>w'. config_write_update (store_at demo_command ''/etc/c'') demo_update w = Some (Inr (), w')"
proof -
  define n where "n = map (map_prod id jnorm) demo_put"
  have codec: "ref_parse (ref_dump (JObj demo_put)) = Some (JObj n)"
    using json_textD [OF json_text_ref demo_plain] by (simp add: n_def)
  have up: "smap_get n ''update'' = None" by (simp add: n_def smap_get_norm get_put_credentials)
  show ex: "config_exists (store_at demo_command ''/etc/c'') w = (Inr True, w)"
    using d by (simp add: config_exists_def cfg_exists_def fexists_data roomy_fields) (simp add: demo_cfg_def)
  have "read_update_section ref_parse (demo_cfg demo_room) (wo_fs w) ''/etc/c'' = JObj []"
    using read_section_eq [of "demo_cfg demo_room" "wo_fs w" "''/etc/c''", OF _ _ d, where jp = ref_parse] codec up by (simp add: demo_cfg_def)
  then show "config_update_section (store_at demo_command ''/etc/c'') w = (Inr (JObj []), w)"
    by (simp add: config_update_section_def roomy_fields)
  show "plain_at (store_at demo_command ''/etc/c'') w"
    using d codec jplain_jnorm [OF demo_plain] by (auto simp: plain_at_def read_raw_def cfg_exists_def fexists_data roomy_fields n_def)
  obtain h where "hwrite (good_wa demo_room) ''/etc/c'' (ref_dump (JObj (smap_put ''update'' demo_update n))) 384 [wo_fs w] = Some (h, True)"
    using hwrite_works [OF long_wa_works [OF demo_space(2)]] unfolding n_def by blast
  then have "write_update_section ref_parse ref_dump (demo_cfg demo_room) ''/etc/c'' demo_update [wo_fs w] = Some (h, Inr ())"
    using d codec by (auto simp: write_update_section_def cfg_exists_def read_raw_def fexists_data demo_cfg_def write_raw_def
        ensure_config_directory_def)
  then show "\<exists>w'. config_write_update (store_at demo_command ''/etc/c'') demo_update w = Some (Inr (), w')"
    by (simp add: config_write_update_def on_files_def roomy_fields)
qed

text \<open>Both writes of the installation.\<close>

lemma demo_recorded:
  "\<exists>w'. save_and_install_service demo_command ''/etc/c'' True ''managed'' typed_credentials False (demo_desk []) = Some (Inr True, w')"
proof -
  let ?St = "store_at demo_command ''/etc/c''"
  obtain h where h: "save ref_parse ref_dump (demo_cfg demo_room) ''/etc/c'' typed_credentials [\<lambda>_. None] = Some (h, Inr ())"
    using valid_save [OF typed_valid(1) demo_space(1), of "\<lambda>_. None" "''/etc/c''"] by fast
  let ?w1 = "(demo_desk [])\<lparr>wo_fs := hd h\<rparr>"
  have empty: "read_raw ref_parse (demo_cfg demo_room) (hd [\<lambda>_. None]) ''/etc/c'' = Inr (JObj [])"
    by (simp add: read_raw_def cfg_exists_def fexists_def demo_cfg_def)
  obtain m where m: "data_of (hd h) ''/etc/c'' = Some (ref_dump (JObj (put_credentials typed_credentials m)))"
    "read_raw ref_parse (demo_cfg demo_room) (hd [\<lambda>_. None]) ''/etc/c'' = Inr (JObj m) \<or>
      ((\<exists>x. read_raw ref_parse (demo_cfg demo_room) (hd [\<lambda>_. None]) ''/etc/c'' = Inl x) \<and> m = [])"
    using h by (rule save_stores)
  with empty have "data_of (wo_fs ?w1) ''/etc/c'' = Some (ref_dump (JObj demo_put))" by auto
  note stored = demo_credentials_file [OF this]
  from stored(4) obtain w2 where wr: "config_write_update ?St demo_update ?w1 = Some (Inr (), w2)" by blast
  have s: "config_save ?St typed_credentials (demo_desk []) = Some (Inr (), ?w1)"
    by (simp add: config_save_def on_files_def roomy_fields h demo_desk_def)
  have rec: "recorded_policy ''managed'' (JObj []) = Some demo_update"
    by (simp add: recorded_policy_def demo_update_def demo_requested policy_from_string_def)
  have verify: "typed_credentials\<lparr>cr_verify_ssl := True\<rparr> = typed_credentials"
    by (simp add: typed_credentials_def no_credentials_def)
  have "cm_android demo_command" by (simp add: demo_command_def)
  then show ?thesis
    by (simp add: save_and_install_service_def Let_def verify ibind_run s ilift_def stored(2) rec wr act_simps)
qed

theorem install_records_credentials_and_policy_witness:
  "\<exists>w'. save_and_install_service demo_command ''/etc/c'' True ''managed'' typed_credentials False (demo_desk []) = Some (Inr True, w') \<and>
     us_policy (store_settings (store_at demo_command ''/etc/c'') w') = Managed"
proof -
  obtain w' where run: "save_and_install_service demo_command ''/etc/c'' True ''managed'' typed_credentials False (demo_desk []) = Some (Inr True, w')"
    using demo_recorded by blast
  have plain: "plain_at (store_at demo_command ''/etc/c'') (demo_desk [])"
    by (auto simp: plain_at_def read_raw_def cfg_exists_def fexists_def store_at_def demo_command_def roomy_setup_def demo_cfg_def demo_desk_def smap_inv_def)
  have keep: "keeps_file ''/etc/c'' (install_service (cm_host demo_command) (su_init (cm_setup demo_command)) AUTO)"
    "keeps_file ''/etc/c'' (start_service (su_init (cm_setup demo_command)))"
    using demo_settled by (simp_all add: settled_def demo_command_def roomy_setup_def demo_setup_def)
  from install_records_credentials_and_policy [OF run roomy_readable plain typed_valid(2) keep] run show ?thesis
    by (auto simp: requested_settings_def policy_from_string_def)
qed

section \<open>Policy changes\<close>

lemma update_line_channel:
  "pa_update (parse ref_po [''update'', ''--policy'', ''managed'']) =
     \<lparr>uo_channel = ''latest'', uo_policy = ''managed'', uo_apply = False, uo_now = False\<rparr>"
  by code_simp

text \<open>
  \<open>update --policy\<close> stores the policy as the user's explicit choice and keeps the
  credentials and the other settings, except the channel: the parser fills in its default for a
  missing \<open>--channel\<close>, so a policy change without that option moves the device back to the
  channel \<open>latest\<close>, whatever channel it was following.
\<close>
theorem policy_change_overwrites_channel:
  assumes "set_policy C path opts w = Some (Inr 0, w')" and "readable (store_at C path)" and "plain_at (store_at C path) w"
  shows "store_load (store_at C path) w' = store_load (store_at C path) w \<and>
    (\<exists>p. policy_from_string (uo_policy opts) = Some p \<and>
       store_settings (store_at C path) w' = (store_settings (store_at C path) w)\<lparr>us_policy := p, us_source := LocalExplicit,
         us_channel := (if uo_channel opts = [] then us_channel (store_settings (store_at C path) w) else uo_channel opts)\<rparr>) \<and>
    uo_channel (pa_update (parse ref_po [''update'', ''--policy'', ''managed''])) = ''latest''"
proof -
  define St where "St = store_at C path"
  from assms(1) obtain p where p: "policy_from_string (uo_policy opts) = Some p"
    and ch: "uo_channel opts = [] \<or> valid_channel (uo_channel opts)"
    by (auto simp: set_policy_def act_simps split: option.splits if_splits)
  define s where "s = (store_settings St w)\<lparr>us_policy := p, us_source := LocalExplicit,
         us_channel := (if uo_channel opts = [] then us_channel (store_settings St w) else uo_channel opts)\<rparr>"
  have old: "settings_ok (store_settings St w)" by (simp add: store_settings_def settings_from_json_ok)
  then have ok: "settings_ok s" using ch by (auto simp: s_def settings_ok_def)
  have "config_write_update St (settings_to_json s) w = Some (Inr (), w')"
    using assms(1) p ch unfolding set_policy_def Let_def St_def [symmetric]
    by (auto simp: act_simps config_exists_def config_update_section_def s_def store_settings_def
        elim!: ibind_cases icatch_cases split: if_splits)
  from config_write_effect [OF assms(2) [folded St_def] this settings_plain [OF ok] assms(3) [folded St_def]]
  have "store_load St w' = store_load St w" "store_settings St w' = s"
    using settings_read_back [OF ok, unfolded settings_norm] by simp_all
  with p show ?thesis unfolding St_def [symmetric] s_def update_line_channel by simp
qed

theorem policy_change_overwrites_channel_witness:
  "\<exists>w'. set_policy demo_command ''/etc/c'' \<lparr>uo_channel = [], uo_policy = ''managed'', uo_apply = False, uo_now = False\<rparr>
       ((demo_desk [])\<lparr>wo_fs := [''/etc/c'' \<mapsto> \<lparr>f_data = ref_dump (JObj demo_put), f_mode = 384\<rparr>]\<rparr>) = Some (Inr 0, w') \<and>
     us_policy (store_settings (store_at demo_command ''/etc/c'') w') = Managed"
proof -
  let ?opts = "\<lparr>uo_channel = [], uo_policy = ''managed'', uo_apply = False, uo_now = False\<rparr>"
  let ?w = "(demo_desk [])\<lparr>wo_fs := [''/etc/c'' \<mapsto> \<lparr>f_data = ref_dump (JObj demo_put), f_mode = 384\<rparr>]\<rparr>"
  note stored = demo_credentials_file [of ?w, unfolded data_of_def, simplified]
  from stored(4) obtain w' where wr: "config_write_update (store_at demo_command ''/etc/c'') demo_update ?w = Some (Inr (), w')" by auto
  have u: "settings_to_json (default_settings\<lparr>us_policy := Managed, us_source := LocalExplicit\<rparr>) = demo_update"
    by (simp add: demo_update_def demo_requested)
  have run: "set_policy demo_command ''/etc/c'' ?opts ?w = Some (Inr 0, w')"
    by (simp add: set_policy_def policy_from_string_def Let_def ibind_def ilift_def icatch_def iret_def stored(1,2) demo_requested(2) u wr)
  from policy_change_overwrites_channel [OF run roomy_readable stored(3)] run show ?thesis
    by (auto simp: policy_from_string_def)
qed

section \<open>Certificates\<close>

lemma unverified_request_fails:
  assumes "\<And>q w. rq_verify q \<Longrightarrow> \<exists>e w'. exchange E q w = (Inl e, w')" and "ae_callback E = None"
    and "meth \<in> {''GET'', ''POST''}"
  shows "\<exists>e w'. make_http_request_with_fallback E url meth j au w = (Inl e, w')"
proof -
  have "\<exists>e w'. make_http_request E url meth j au True w = (Inl e, w')"
    using assms(3) by (auto simp: make_http_request_def Let_def intro!: assms(1))
  then show ?thesis
    by (auto simp: make_http_request_with_fallback_def ssl_fallback_def acatch_def athrow_def assms(2))
qed

text \<open>
  \<open>install --token\<close> cannot provision a device on a server whose certificate does not verify,
  with or without \<open>--no-verify-ssl\<close>: that flag only reaches the stored configuration, the
  handler's own requests are always verified and have no fallback, so the installation ends with
  an error and exit code 1.
\<close>
theorem install_ignores_no_verify:
  assumes "\<And>q w. rq_verify q \<Longrightarrow> \<exists>e w'. exchange (cm_auth C) q w = (Inl e, w')"
  shows "\<exists>w'. install_with_token C path opts w = Some (Inr False, w')"
proof -
  let ?E = "cm_auth C"
  have none: "ae_callback ?E = None" by (simp add: cm_auth_def)
  note fails = unverified_request_fails [OF assms none]
  show ?thesis
  proof (cases "token_claims ?E (io_token opts)")
    case (Inl e)
    then show ?thesis by (simp add: install_with_token_def Let_def icatch_def ibind_def ires_def iret_def)
  next
    case (Inr claims)
    show ?thesis
    proof (cases claims)
      case None
      with Inr show ?thesis by (simp add: install_with_token_def Let_def icatch_def ibind_def ires_def iret_def)
    next
      case (Some hu)
      obtain host user where hu: "hu = (host, user)" by (cases hu)
      let ?tok = "io_token opts"
      obtain e1 w1 where l: "make_http_request_with_fallback ?E (user_url host user ''/products'') ''GET'' JNull (bearer ?tok) w = (Inl e1, w1)"
        using fails by blast
      have r: "resolve_product ?E host user ?tok (io_product opts) w = (Inr (io_product opts), w1)"
        by (simp add: resolve_product_def list_products_def list_items_def abind_def atry_def aret_def l)
      define i where "i = determine_device_id C (io_device_id opts)"
      define n where "n = determine_device_name (ma_hostname (su_machine (cm_setup C))) (io_name opts) i"
      obtain secret w2 where g: "generate_device_credentials ?E w1 = (Inr secret, w2)"
        by (auto simp: generate_device_credentials_def split_def Let_def)
      obtain e2 w3 where p: "make_http_request_with_fallback ?E (user_url host user ''/devices'') ''POST''
          (device_payload ?E i n secret (io_product opts)) (bearer ?tok) w2 = (Inl e2, w3)"
        using fails by blast
      have "provision_device ?E host user i n ?tok (io_product opts) w1 = (Inl e2, w3)"
        by (simp add: provision_device_def abind_def g p)
      then have "complete_provisioning C path opts host user i n ?tok (io_product opts) w1 = Some (Inl e2, w3)"
        by (simp add: complete_provisioning_def Let_def ibind_def ilift_def)
      with Inr Some hu r show ?thesis
        by (simp add: install_with_token_def Let_def icatch_def ibind_def ires_def ilift_def iret_def i_def n_def)
    qed
  qed
qed

theorem install_ignores_no_verify_witness:
  "\<exists>w'. install_with_token demo_command ''/etc/c'' (default_install\<lparr>io_token := ''a.b.c'', io_no_verify_ssl := True\<rparr>) (demo_desk []) =
     Some (Inr False, w')"
  by (rule install_ignores_no_verify)
    (simp add: exchange_def cm_auth_def demo_command_def roomy_setup_def demo_setup_def quiet_auth_def)

section \<open>Reconfiguration and start\<close>

text \<open>A reconfiguration that is cancelled has already removed the file.\<close>

lemma reconfigure_cancelled_loses:
  assumes "is_interactive_terminal C" and "config_exists (store_at C path) w = (Inr True, w)"
    and "config_remove (store_at C path) w = Some (Inr (), w1)" and "run_setup C w1 = Some (Inr False, w2)"
    and "wo_fs w2 path = wo_fs w1 path"
  shows "handle_reconfigure C path w = Some (Inr 1, w2) \<and> wo_fs w2 path = None"
proof -
  have "wo_fs w1 path = None"
    using assms(2,3) by (auto simp: config_exists_def config_remove_def on_files_def remove_config_def cfg_exists_def
        store_at_def hstep_def fremove_def split: if_splits sum.splits bool.splits)
  moreover have "handle_reconfigure C path w = Some (Inr 1, w2)"
  proof -
    obtain raw where raw: "config_update_section (store_at C path) w = (Inr raw, w)" by (simp add: config_update_section_def)
    then show ?thesis
      by (simp add: handle_reconfigure_def Let_def ibind_def ilift_def iret_def assms exit_code_def)
  qed
  ultimately show ?thesis using assms(5) by simp
qed

lemma verbosity_given: "verbosity_of (parse po args) b = pa_verbosity (parse po args)"
  using parse_verbosity [of po args] by (auto simp: verbosity_of_def)

text \<open>
  Without a known init system no command works: on a machine (a bare container, say) where
  none of the factory's probes succeeds, the command handler's members cannot be constructed, so
  \<open>main\<close> ends with exit code 1 whatever the arguments are, \<open>--version\<close>, \<open>update\<close> and the agent mode
  included, and does nothing.
\<close>
theorem main_needs_known_init:
  assumes "\<not> cm_android C" and "detect_init_system darwin (cm_host C) w = ''Unknown''"
  shows "main darwin po args C w = Some (1, w)"
proof -
  have "create_installer (cm_android C) darwin (cm_host C) w = Inl (RuntimeError (''Unsupported init system: '' @ ''Unknown''))"
    using assms by (simp add: create_installer_def)
  then show ?thesis
    by (cases "default_config_path (cm_session C)") (simp_all add: main_def icatch_def ibind_def ires_def iret_def)
qed

theorem main_needs_known_init_witness:
  "main False ref_po [''--version''] (demo_command\<lparr>cm_android := False\<rparr>) (demo_desk []) = Some (1, demo_desk [])"
  by (rule main_needs_known_init)
    (simp_all add: detect_init_system_def hexists_def fexists_def demo_command_def roomy_setup_def demo_setup_def desk_host_def demo_desk_def)

end
