(* ===== verification/Connection_Test.thy ===== *)
theory Connection_Test
  imports Setup
begin

text \<open>
  The live test of the setup (\<open>test_connection\<close> of
  \<open>src/thinr/installer/interactive_setup.cpp\<close>): an agent is started and asked every half second,
  for thirty seconds at most, whether its client runs; and the link to the device it shows then
  (\<open>supportsHyperlinks\<close>, \<open>hyperlink\<close> of \<open>src/thinr/utils/console.cpp\<close>). The agent's client is
  a parameter, as is the clock.
\<close>

section \<open>The test\<close>

text \<open>The world holds the clock, in milliseconds; constructing and starting the agent may throw.\<close>

record 'w live_env =
  lv_start :: "credentials \<Rightarrow> 'w \<Rightarrow> unit res \<times> 'w"
  lv_run :: "'w \<Rightarrow> bool \<times> 'w"
  lv_now :: "'w \<Rightarrow> int"
  lv_sleep :: "'w \<Rightarrow> 'w"
  lv_stop :: "'w \<Rightarrow> 'w"

definition TEST_TIMEOUT :: int where "TEST_TIMEOUT = 30000"

partial_function (option) wait_connected :: "'w live_env \<Rightarrow> int \<Rightarrow> 'w \<Rightarrow> (bool \<times> 'w) option" where
  "wait_connected L start w =
     (if lv_now L w - start < TEST_TIMEOUT then
        (case lv_run L w of (running, w') \<Rightarrow>
           if running then Some (True, w') else wait_connected L start (lv_sleep L w'))
      else Some (False, w))"

definition test_agent :: "'w live_env \<Rightarrow> credentials \<Rightarrow> 'w \<Rightarrow> (live_out \<times> 'w) option" where
  "test_agent L c w =
     (case lv_start L c w of
        (Inl e, w1) \<Rightarrow> Some (LiveThrows e, w1)
      | (Inr _, w1) \<Rightarrow>
          (case wait_connected L (lv_now L w1) w1 of
             None \<Rightarrow> None
           | Some (True, w2) \<Rightarrow> Some (Live, w2)
           | Some (False, w2) \<Rightarrow> Some (NotLive, lv_stop L w2)))"

definition device_url :: "credentials \<Rightarrow> string" where
  "device_url c = ''https://'' @ cr_host c @ ''/console/devices/'' @ cr_id c"

section \<open>The link\<close>

record terminal =
  te_program :: "string option"
  te_vte :: "string option"
  te_term :: "string option"

text \<open>\<open>std::atoi\<close>: no number is zero; a value beyond \<open>int\<close> is undefined in C++ and keeps its low bits here.\<close>

definition atoi :: "string \<Rightarrow> int" where
  "atoi s = (case take_number s of None \<Rightarrow> 0 | Some (sg, n, rest) \<Rightarrow> as_int32 (sg * n))"

definition supports_hyperlinks :: "terminal \<Rightarrow> bool" where
  "supports_hyperlinks T =
     ((case te_program T of
         Some p \<Rightarrow> p = ''iTerm.app'' \<or> p = ''vscode'' \<or> p = ''Hyper'' \<or> p = ''WezTerm''
       | None \<Rightarrow> False) \<or>
      (case te_vte T of Some v \<Rightarrow> 5000 \<le> atoi v | None \<Rightarrow> False) \<or>
      (case te_term T of
         Some t \<Rightarrow> contains_sub ''kitty'' t \<or> contains_sub ''alacritty'' t
       | None \<Rightarrow> False))"

definition ESC :: char where "ESC = CHR 0x1B"

definition hyperlink :: "terminal \<Rightarrow> string \<Rightarrow> string \<Rightarrow> string" where
  "hyperlink T url txt =
     (if \<not> supports_hyperlinks T then
        (if txt = [] \<or> txt = url then url else txt @ '' ('' @ url @ '')'')
      else ESC # '']8;;'' @ url @ ESC # [CHR 0x5C] @ (if txt = [] then url else txt) @ ESC # '']8;;'' @ ESC # [CHR 0x5C])"

section \<open>Lemmas\<close>

text \<open>What the test relies on: sleeping takes its time, asking takes none away.\<close>

definition ticking :: "'w live_env \<Rightarrow> bool" where
  "ticking L \<longleftrightarrow> (\<forall>w. lv_now L w + 500 \<le> lv_now L (lv_sleep L w)) \<and> (\<forall>w. lv_now L w \<le> lv_now L (snd (lv_run L w)))"

lemma wait_connected_returns:
  assumes "ticking L"
  shows "\<exists>b w'. wait_connected L start w = Some (b, w')"
proof (induction "nat (start + TEST_TIMEOUT - lv_now L w)" arbitrary: w rule: less_induct)
  case less
  obtain running w1 where r: "lv_run L w = (running, w1)" by (cases "lv_run L w")
  show ?case
  proof (cases "lv_now L w - start < TEST_TIMEOUT \<and> \<not> running")
    case True
    have "lv_now L w + 500 \<le> lv_now L (lv_sleep L w1)"
      using assms r unfolding ticking_def by (metis order_trans add_mono_thms_linordered_semiring(3) snd_conv)
    with True have "nat (start + TEST_TIMEOUT - lv_now L (lv_sleep L w1)) < nat (start + TEST_TIMEOUT - lv_now L w)" by auto
    from less [OF this] True r show ?thesis by (subst wait_connected.simps) auto
  next
    case False
    with r show ?thesis by (subst wait_connected.simps) auto
  qed
qed

lemma wait_connected_true:
  assumes "wait_connected L start w = Some (b, w')"
  shows "if b then \<exists>v. lv_run L v = (True, w') \<and> lv_now L v - start < TEST_TIMEOUT else TEST_TIMEOUT \<le> lv_now L w' - start"
proof -
  have "if fst y then \<exists>v. lv_run L v = (True, snd y) \<and> lv_now L v - start < TEST_TIMEOUT
      else TEST_TIMEOUT \<le> lv_now L (snd y) - start" if "wait_connected L start w = Some y" for y
  proof (rule wait_connected.raw_induct [where P = "\<lambda>L start w y. if fst y
      then \<exists>v. lv_run L v = (True, snd y) \<and> lv_now L v - start < TEST_TIMEOUT
      else TEST_TIMEOUT \<le> lv_now L (snd y) - start", OF _ that])
    fix loop L start w y
    assume IH: "\<And>L start (w::'a) y. loop L start w = Some y \<Longrightarrow> if fst y
        then \<exists>v. lv_run L v = (True, snd y) \<and> lv_now L v - start < TEST_TIMEOUT
        else TEST_TIMEOUT \<le> lv_now L (snd y) - start"
      and step: "(if lv_now L w - start < TEST_TIMEOUT then
          (case lv_run L w of (running, w') \<Rightarrow> if running then Some (True, w') else loop L start (lv_sleep L w'))
        else Some (False, w)) = Some y"
    obtain r w1 where r: "lv_run L w = (r, w1)" by (cases "lv_run L w")
    show "if fst y then \<exists>v. lv_run L v = (True, snd y) \<and> lv_now L v - start < TEST_TIMEOUT
        else TEST_TIMEOUT \<le> lv_now L (snd y) - start"
    proof (cases "lv_now L w - start < TEST_TIMEOUT \<and> \<not> r")
      case True
      with step r IH [of L start "lv_sleep L w1" y] show ?thesis by simp
    next
      case False
      with step r have "(y = (True, w1) \<and> r \<and> lv_now L w - start < TEST_TIMEOUT) \<or> (y = (False, w) \<and> \<not> lv_now L w - start < TEST_TIMEOUT)"
        by (simp split: if_splits)
      then show ?thesis
      proof (elim disjE conjE)
        assume "y = (True, w1)" "r" "lv_now L w - start < TEST_TIMEOUT"
        with r show ?thesis by fastforce
      qed simp
    qed
  qed
  from this [OF assms] show ?thesis by (simp split: if_splits)
qed

text \<open>
  The connection test always ends when the clock advances. It reports a connection only when
  the client ran within thirty seconds of the start, and a failure only after they are over.
\<close>

lemma connection_test_ends:
  assumes "ticking L"
  shows "\<exists>out w'. test_agent L c w = Some (out, w') \<and>
    (case lv_start L c w of
       (Inl e, w1) \<Rightarrow> out = LiveThrows e
     | (Inr _, w1) \<Rightarrow>
         (out = Live \<and> (\<exists>v. lv_run L v = (True, w') \<and> lv_now L v - lv_now L w1 < TEST_TIMEOUT)) \<or>
         (out = NotLive \<and> (\<exists>v. w' = lv_stop L v \<and> TEST_TIMEOUT \<le> lv_now L v - lv_now L w1)))"
proof -
  obtain r w1 where s: "lv_start L c w = (r, w1)" by (cases "lv_start L c w")
  obtain b w2 where k: "wait_connected L (lv_now L w1) w1 = Some (b, w2)" using wait_connected_returns [OF assms] by blast
  from s k wait_connected_true [OF k] show ?thesis
    by (cases r; cases b) (auto simp: test_agent_def)
qed

text \<open>Without support the link is plain text, and it always shows where it leads.\<close>

lemma hyperlink_plain:
  assumes "\<not> supports_hyperlinks T" and "ESC \<notin> set url" and "ESC \<notin> set txt"
  shows "ESC \<notin> set (hyperlink T url txt)"
  using assms by (auto simp: hyperlink_def ESC_def)

lemma hyperlink_shows_url: "contains_sub url (hyperlink T url txt)"
proof -
  have "\<exists>u v. hyperlink T url txt = u @ url @ v"
  proof (cases "supports_hyperlinks T")
    case True
    then have "hyperlink T url txt = (ESC # '']8;;'') @ url @ (ESC # [CHR 0x5C] @ (if txt = [] then url else txt) @ ESC # '']8;;'' @ ESC # [CHR 0x5C])"
      by (simp add: hyperlink_def)
    then show ?thesis by blast
  next
    case False
    show ?thesis
    proof (cases "txt = [] \<or> txt = url")
      case True
      with False have "hyperlink T url txt = [] @ url @ []" by (simp add: hyperlink_def)
      then show ?thesis by blast
    next
      case False
      with \<open>\<not> supports_hyperlinks T\<close> have "hyperlink T url txt = (txt @ '' ('') @ url @ '')''" by (simp add: hyperlink_def)
      then show ?thesis by blast
    qed
  qed
  then show ?thesis by (simp add: contains_sub_iff)
qed

end
