(* ===== verification/Ssl_Config.thy ===== *)
theory Ssl_Config
  imports Paths
begin

text \<open>
  The certificate bundle the process verifies servers with
  (\<open>src/thinr/utils/ssl_config.hpp\<close>, \<open>ssl_config.cpp\<close>): the two environment variables, the
  search through the usual places and the embedded bundle written as a last resort. The
  embedded certificates are a parameter (the build makes them).
\<close>

text \<open>
  Which of the calls on the embedded bundle's path fail: making its directory, opening it,
  writing all of it, setting its mode.
\<close>

record ssl_env =
  sv_session :: session
  sv_mkdir :: bool
  sv_open :: bool
  sv_short :: "nat option"
  sv_chmod :: bool

record process =
  pr_cert_file :: "string option"
  pr_cert_dir :: "string option"
  pr_fs :: fs

definition CERT_FILE_PATHS :: "string list" where
  "CERT_FILE_PATHS =
     [''/etc/ssl/certs/ca-certificates.crt'', ''/etc/pki/tls/certs/ca-bundle.crt'', ''/etc/ssl/ca-bundle.pem'',
      ''/etc/pki/tls/cert.pem'', ''/etc/pki/ca-trust/extracted/pem/tls-ca-bundle.pem'', ''/etc/ssl/cert.pem'',
      ''/usr/local/share/certs/ca-root-nss.crt'', ''/etc/ssl/certs/ca-bundle.crt'',
      ''/etc/ca-certificates/extracted/tls-ca-bundle.pem'', ''/usr/share/ca-certificates/ca-bundle.crt'']"

definition is_env_set :: "string option \<Rightarrow> bool" where
  "is_env_set v = (case v of None \<Rightarrow> False | Some s \<Rightarrow> 0 < length s)"

text \<open>\<open>setenv(name, v, 0)\<close>: a variable that exists keeps its value.\<close>

definition setenv_keep :: "string \<Rightarrow> string option \<Rightarrow> string option" where
  "setenv_keep v old = (case old of None \<Rightarrow> Some v | Some _ \<Rightarrow> old)"

definition find_cert_file :: "fs \<Rightarrow> string" where
  "find_cert_file s = (case find (fexists s) CERT_FILE_PATHS of Some p \<Rightarrow> p | None \<Rightarrow> [])"

definition get_certs_directory :: "session \<Rightarrow> string" where
  "get_certs_directory se =
     (if se_euid_root se then ''/etc/thinr-agent''
      else case (case se_home se of Some h \<Rightarrow> Some h | None \<Rightarrow> se_pw_dir se) of
             Some home \<Rightarrow> home @ ''/.config/thinr-agent''
           | None \<Rightarrow> ''/tmp'')"

definition embedded_path :: "session \<Rightarrow> string" where
  "embedded_path se = get_certs_directory se @ ''/ca-certificates.crt''"

text \<open>The stream is not asked whether the bytes arrived; only its opening is checked.\<close>

definition write_embedded_certs_if_needed :: "ssl_env \<Rightarrow> string \<Rightarrow> string \<Rightarrow> fs \<Rightarrow> bool \<times> fs" where
  "write_embedded_certs_if_needed E certs path s =
     (if data_of s path = Some certs then (True, s)
      else if \<not> sv_mkdir E then (False, s)
      else if \<not> sv_open E then (False, s)
      else
        let bytes = (case sv_short E of None \<Rightarrow> certs | Some k \<Rightarrow> take k certs);
            mode = (if sv_chmod E then 420 else case s path of Some f \<Rightarrow> f_mode f | None \<Rightarrow> 420)
        in (True, s(path \<mapsto> \<lparr>f_data = bytes, f_mode = mode\<rparr>)))"

definition configure_ssl_certificates :: "ssl_env \<Rightarrow> string \<Rightarrow> process \<Rightarrow> process" where
  "configure_ssl_certificates E certs p =
     (if is_env_set (pr_cert_file p) \<or> is_env_set (pr_cert_dir p) then p
      else
        let cert_file = find_cert_file (pr_fs p) in
        if cert_file \<noteq> [] then
          let p = p\<lparr>pr_cert_file := setenv_keep cert_file (pr_cert_file p)\<rparr>;
              cert_dir = parent_path cert_file
          in if cert_dir \<noteq> [] then p\<lparr>pr_cert_dir := setenv_keep cert_dir (pr_cert_dir p)\<rparr> else p
        else
          let path = embedded_path (sv_session E);
              (ok, s) = write_embedded_certs_if_needed E certs path (pr_fs p);
              p = p\<lparr>pr_fs := s\<rparr>
          in if ok then p\<lparr>pr_cert_file := setenv_keep path (pr_cert_file p)\<rparr> else p)"

section \<open>Lemmas\<close>

lemma cert_paths: "p \<in> set CERT_FILE_PATHS \<Longrightarrow> p \<noteq> [] \<and> parent_path p \<noteq> []"
proof -
  have "list_all (\<lambda>p. p \<noteq> [] \<and> parent_path p \<noteq> []) CERT_FILE_PATHS" by code_simp
  then show "p \<in> set CERT_FILE_PATHS \<Longrightarrow> p \<noteq> [] \<and> parent_path p \<noteq> []" by (simp add: list_all_iff)
qed

lemma setenv_keep_simps [simp]: "setenv_keep v None = Some v" "setenv_keep v (Some w) = Some w"
  by (simp_all add: setenv_keep_def)

text \<open>
  What the file holds when the call succeeds: the whole bundle, or a beginning of it when the
  disk filled up; and the only reasons to give up.
\<close>

definition bundle_written :: "ssl_env \<Rightarrow> string \<Rightarrow> string" where
  "bundle_written E certs = (case sv_short E of None \<Rightarrow> certs | Some k \<Rightarrow> take k certs)"

lemma write_embedded:
  assumes "write_embedded_certs_if_needed E certs path s = (ok, t)"
  shows "q \<noteq> path \<Longrightarrow> t q = s q"
    and "ok \<longleftrightarrow> data_of s path = Some certs \<or> sv_mkdir E \<and> sv_open E"
    and "ok \<Longrightarrow> data_of t path = Some (if data_of s path = Some certs then certs else bundle_written E certs)"
    and "\<not> ok \<Longrightarrow> t = s"
  using assms by (auto simp: write_embedded_certs_if_needed_def bundle_written_def data_of_def Let_def split: if_splits option.splits)

section \<open>Claims\<close>

text \<open>
  C38. Started without either variable, on a system that has one of the usual bundles, the
  process ends with \<open>SSL_CERT_FILE\<close> naming the first of them and \<open>SSL_CERT_DIR\<close> its directory,
  and no file changed. Without any, it ends with \<open>SSL_CERT_FILE\<close> naming the embedded bundle,
  which that file then holds, whole unless the write was cut short, and no other file changed;
  only when that file does not hold the bundle already and its directory cannot be made or it
  cannot be opened for writing does the process stay as it was.
\<close>

theorem configured_bundle_exists:
  assumes "pr_cert_file p = None" and "pr_cert_dir p = None"
    and "q = configure_ssl_certificates E certs p"
  shows "case find (fexists (pr_fs p)) CERT_FILE_PATHS of
      Some f \<Rightarrow> fexists (pr_fs q) f \<and> q = p\<lparr>pr_cert_file := Some f, pr_cert_dir := Some (parent_path f)\<rparr>
    | None \<Rightarrow>
       (let path = embedded_path (sv_session E); there = (data_of (pr_fs p) path = Some certs) in
        if there \<or> sv_mkdir E \<and> sv_open E
        then pr_cert_file q = Some path \<and> pr_cert_dir q = None \<and>
          data_of (pr_fs q) path = Some (if there then certs else bundle_written E certs) \<and>
          (\<forall>f. f \<noteq> path \<longrightarrow> pr_fs q f = pr_fs p f)
        else q = p)"
proof (cases "find (fexists (pr_fs p)) CERT_FILE_PATHS")
  case None
  then have none: "find_cert_file (pr_fs p) = []" by (simp add: find_cert_file_def)
  obtain ok t where w: "write_embedded_certs_if_needed E certs (embedded_path (sv_session E)) (pr_fs p) = (ok, t)"
    by (cases "write_embedded_certs_if_needed E certs (embedded_path (sv_session E)) (pr_fs p)")
  have q: "q = (if ok then p\<lparr>pr_fs := t, pr_cert_file := Some (embedded_path (sv_session E))\<rparr> else p\<lparr>pr_fs := t\<rparr>)"
    using assms none w by (simp add: configure_ssl_certificates_def is_env_set_def)
  show ?thesis
  proof (cases ok)
    case True
    with write_embedded [OF w] None assms(2) q show ?thesis by (simp add: Let_def)
  next
    case False
    with write_embedded [OF w] None q show ?thesis by (auto simp: Let_def)
  qed
next
  case (Some f)
  then have f: "find_cert_file (pr_fs p) = f" "f \<in> set CERT_FILE_PATHS" "fexists (pr_fs p) f"
    by (simp add: find_cert_file_def, use Some in \<open>auto simp: find_Some_iff\<close>)
  with assms cert_paths [OF f(2)] Some show ?thesis
    by (simp add: configure_ssl_certificates_def is_env_set_def Let_def)
qed

definition root_ssl :: ssl_env where
  "root_ssl = \<lparr>sv_session = \<lparr>se_euid_root = True, se_uid_root = True, se_home = None, se_pw_dir = None, se_path = None\<rparr>,
     sv_mkdir = True, sv_open = True, sv_short = None, sv_chmod = True\<rparr>"

definition bare_process :: process where
  "bare_process = \<lparr>pr_cert_file = None, pr_cert_dir = None, pr_fs = Map.empty\<rparr>"

lemma configured_bundle_exists_witness:
  "\<exists>q. q = configure_ssl_certificates root_ssl ''PEM'' bare_process \<and>
     pr_cert_file q = Some ''/etc/thinr-agent/ca-certificates.crt'' \<and>
     data_of (pr_fs q) ''/etc/thinr-agent/ca-certificates.crt'' = Some ''PEM''"
proof -
  have e: "pr_cert_file bare_process = None" "pr_cert_dir bare_process = None" "pr_fs bare_process = Map.empty"
    "embedded_path (sv_session root_ssl) = ''/etc/thinr-agent/ca-certificates.crt''" "sv_short root_ssl = None"
    "sv_mkdir root_ssl" "sv_open root_ssl"
    by (simp_all add: bare_process_def root_ssl_def embedded_path_def get_certs_directory_def)
  have "find (fexists (pr_fs bare_process)) CERT_FILE_PATHS = None" by (simp add: find_None_iff e(3) fexists_def)
  with configured_bundle_exists [OF e(1,2) refl, of root_ssl "''PEM''"] show ?thesis
    by (simp add: e Let_def data_of_def bundle_written_def)
qed

text \<open>What the user configured stays as it is.\<close>

lemma user_choice_respected:
  "is_env_set (pr_cert_file p) \<or> is_env_set (pr_cert_dir p) \<Longrightarrow> configure_ssl_certificates E certs p = p"
  by (simp add: configure_ssl_certificates_def)

text \<open>
  A variable that is present but empty counts as not set, and is then not overwritten: the
  bundle that was found has no effect.
\<close>

lemma empty_variable_stays:
  assumes "pr_cert_file p = Some []"
  shows "pr_cert_file (configure_ssl_certificates E certs p) = Some []"
  using assms by (simp add: configure_ssl_certificates_def Let_def split: prod.splits)

text \<open>Running it again changes nothing once a bundle is configured.\<close>

lemma configured_stays:
  assumes "is_env_set (pr_cert_file (configure_ssl_certificates E certs p))"
  shows "configure_ssl_certificates E certs (configure_ssl_certificates E certs p) = configure_ssl_certificates E certs p"
  using assms by (simp add: user_choice_respected)

end
