(* ===== verification/Monitoring_Apple.thy ===== *)
theory Monitoring_Apple
  imports Monitoring
begin

text \<open>
  The Apple variants of the monitoring extension (\<open>src/thinr/extensions/monitoring.cpp\<close>). The
  answers of the Mach kernel, of \<open>sysctl\<close> and of \<open>getifaddrs\<close> are inputs, at the width the
  kernel has them: ticks, page counts and interface bytes are 32-bit counters there. What is
  shared with the other systems (clock, \<open>statvfs\<close>, \<open>getloadavg\<close>, cores) is read as there.
\<close>

section \<open>What the system answers\<close>

record cpu_load =
  cl_user :: "32 word"
  cl_nice :: "32 word"
  cl_system :: "32 word"
  cl_idle :: "32 word"

text \<open>One address of an interface: whether it is the link layer's, and its counters if it has any.\<close>

record ifaddr =
  if_link :: bool
  if_loopback :: bool
  if_data :: "(32 word \<times> 32 word) option"

text \<open>
  \<open>None\<close> is a call that fails. The page counts and the page size are what their variables hold
  after the calls, which the code does not check.
\<close>

record mach =
  mc_unix :: proc
  mc_cpus :: "cpu_load list option"
  mc_memsize :: "int option"
  mc_free_count :: "32 word"
  mc_inactive_count :: "32 word"
  mc_page_size :: "64 word"
  mc_swap :: "(64 word \<times> 64 word \<times> 64 word) option"
  mc_boottime :: "int option"
  mc_time :: int
  mc_pids :: int
  mc_ifaddrs :: "ifaddr list option"

section \<open>Samples\<close>

definition add_ticks :: "cpu_load \<Rightarrow> cpu_sample \<Rightarrow> cpu_sample" where
  "add_ticks l s = s\<lparr>cs_user := cs_user s + ucast (cl_user l), cs_nice := cs_nice s + ucast (cl_nice l),
     cs_system := cs_system s + ucast (cl_system l), cs_idle := cs_idle s + ucast (cl_idle l)\<rparr>"

definition apple_cpu_sample :: "mach \<Rightarrow> cpu_sample" where
  "apple_cpu_sample k = (case mc_cpus k of None \<Rightarrow> no_cpu | Some ls \<Rightarrow> fold add_ticks ls no_cpu)"

definition add_interface :: "ifaddr \<Rightarrow> net_sample \<Rightarrow> net_sample" where
  "add_interface i s =
     (if \<not> if_link i then s
      else if if_loopback i then s
      else case if_data i of
             None \<Rightarrow> s
           | Some (ibytes, obytes) \<Rightarrow> s\<lparr>ns_rx := ns_rx s + ucast ibytes, ns_tx := ns_tx s + ucast obytes\<rparr>)"

definition apple_network_sample :: "mach \<Rightarrow> net_sample" where
  "apple_network_sample k =
     (let s = \<lparr>ns_rx = 0, ns_tx = 0, ns_valid = False, ns_time = pr_now (mc_unix k)\<rparr>
      in case mc_ifaddrs k of None \<Rightarrow> s | Some is \<Rightarrow> fold add_interface is (s\<lparr>ns_valid := True\<rparr>))"

section \<open>Memory, uptime, processes\<close>

text \<open>The arithmetic is on \<open>int64_t\<close>; the difference, unlike on Linux, is signed.\<close>

definition apple_memory :: "fpu \<Rightarrow> mach \<Rightarrow> json" where
  "apple_memory F k =
     (let tot = (case mc_memsize k of Some n \<Rightarrow> n | None \<Rightarrow> 0);
          available = as_int64 ((uint (mc_free_count k) + uint (mc_inactive_count k)) * sint (mc_page_size k))
      in jobj ([(''total'', JUint (as_uint64 tot)), (''available'', JUint (as_uint64 available)),
            (''usage'', JFloat (if tot > 0
               then dbl F (dbl F (dbl F (of_int (as_int64 (tot - available))) / dbl F (of_int tot)) * 100) else 0))] @
           (case mc_swap k of
              Some (all_of_it, avail, used) \<Rightarrow>
                if all_of_it > 0 then
                  [(''swap'', jobj [(''total'', uint_json all_of_it), (''free'', uint_json avail),
                     (''usage'', JFloat (percent F used all_of_it))])]
                else []
            | None \<Rightarrow> [])))"

definition apple_uptime :: "mach \<Rightarrow> int" where
  "apple_uptime k = (case mc_boottime k of None \<Rightarrow> 0 | Some sec \<Rightarrow> as_uint64 (mc_time k - sec))"

definition apple_processes :: "mach \<Rightarrow> nat" where
  "apple_processes k = (if mc_pids k > 0 then nat (mc_pids k) else 0)"

section \<open>The resource\<close>

definition apple_new_monitoring :: "mach \<Rightarrow> json \<Rightarrow> string \<Rightarrow> monitoring" where
  "apple_new_monitoring k system_info version =
     (let cpu = apple_cpu_sample k;
          m = \<lparr>mo_prev_cpu = cpu, mo_prev_cpu_ts = pr_now (mc_unix k), mo_cached_cpu = 0,
               mo_cpu_available = (cpu_total cpu > 0), mo_prev_net = apple_network_sample k,
               mo_disk_paths = [], mo_system_info = system_info,
               mo_agent_info = jobj [(''version'', JStr version)]\<rparr>
      in set_disk_paths (mc_unix k) [] m)"

definition apple_collect :: "fpu \<Rightarrow> mach \<Rightarrow> monitoring \<Rightarrow> monitoring \<times> json" where
  "apple_collect F k m =
     (let p = mc_unix k;
          (m, usage) = (if mo_cpu_available m
                        then (let (m, u) = cpu_from F (pr_now p) (apple_cpu_sample k) m in (m, [(''usage'', JFloat u)]))
                        else (m, []));
          cpu = jobj (usage @ [(''cores'', JUint (int (pr_cores p)))]);
          (m, network) = network_from F (apple_network_sample k) m
      in (m, jobj
           ([(''system'', mo_system_info m), (''agent'', mo_agent_info m), (''cpu'', cpu),
             (''memory'', apple_memory F k), (''disk'', collect_disk F p m)] @
            (if network \<noteq> JNull then [(''network'', network)] else []) @
            [(''load'', collect_load F p), (''uptime'', JUint (apple_uptime k)),
             (''processes'', jobj [(''total'', JUint (int (apple_processes k)))])])))"

section \<open>Lemmas\<close>

text \<open>
  A sample is the sum over the processors, without overflow below \<open>2\<^sup>3\<^sup>2\<close> of them; so it only
  grows as long as no processor's 32-bit counter goes round.
\<close>

definition ticks_later :: "cpu_load \<Rightarrow> cpu_load \<Rightarrow> bool" where
  "ticks_later a b \<longleftrightarrow> cl_user a \<le> cl_user b \<and> cl_nice a \<le> cl_nice b \<and> cl_system a \<le> cl_system b \<and> cl_idle a \<le> cl_idle b"

lemma unat_32: "unat (w :: 32 word) < 4294967296"
  using unsigned_less [of w] by simp

lemma unat_ucast_32: "unat (ucast (w :: 32 word) :: 64 word) = unat w"
proof -
  have "unat w < 2 ^ 64" using unat_32 [of w] by simp
  then show ?thesis by (simp only: unsigned_ucast_eq take_bit_nat_eq_self len_of_numeral_defs) (simp add: take_bit_nat_eq_self)
qed

lemma fold_ticks_sum:
  assumes "unat (f s) + sum_list (map (\<lambda>l. unat (g l)) ls) < 18446744073709551616"
    and "\<And>l s. f (add_ticks l s) = f s + ucast (g l :: 32 word)"
  shows "unat (f (fold add_ticks ls s) :: 64 word) = unat (f s) + sum_list (map (\<lambda>l. unat (g l)) ls)"
  using assms(1)
proof (induction ls arbitrary: s)
  case Nil
  then show ?case by simp
next
  case (Cons l ls)
  have "unat (f (add_ticks l s)) = unat (f s) + unat (g l)"
    using Cons.prems by (simp add: assms(2) unat_word_ariths unat_ucast_32)
  with Cons show ?case by simp
qed

lemma sum_32_bound: "sum_list (map (\<lambda>l. unat (g l :: 32 word)) ls) \<le> length ls * 4294967295"
proof (induction ls)
  case Nil
  then show ?case by simp
next
  case (Cons l ls)
  then show ?case using unat_32 [of "g l"] by simp
qed

lemma no_cpu_zero: "unat (cs_user no_cpu) = 0" "unat (cs_nice no_cpu) = 0" "unat (cs_system no_cpu) = 0" "unat (cs_idle no_cpu) = 0"
  by (simp_all add: no_cpu_def)

lemma fold_ticks_rest:
  "cs_iowait (fold add_ticks ls s) = cs_iowait s" "cs_irq (fold add_ticks ls s) = cs_irq s"
  "cs_softirq (fold add_ticks ls s) = cs_softirq s" "cs_steal (fold add_ticks ls s) = cs_steal s"
  by (induction ls arbitrary: s) (simp_all add: add_ticks_def)

lemma apple_sample_sums:
  assumes "mc_cpus k = Some ls" and "length ls < 1024"
  shows "unat (cs_user (apple_cpu_sample k)) = sum_list (map (\<lambda>l. unat (cl_user l)) ls)"
    and "unat (cs_nice (apple_cpu_sample k)) = sum_list (map (\<lambda>l. unat (cl_nice l)) ls)"
    and "unat (cs_system (apple_cpu_sample k)) = sum_list (map (\<lambda>l. unat (cl_system l)) ls)"
    and "unat (cs_idle (apple_cpu_sample k)) = sum_list (map (\<lambda>l. unat (cl_idle l)) ls)"
proof -
  have b: "sum_list (map (\<lambda>l. unat (g l :: 32 word)) ls) < 18446744073709551616" for g
    using sum_32_bound [of g ls] assms(2) by linarith
  have s: "apple_cpu_sample k = fold add_ticks ls no_cpu" using assms(1) by (simp add: apple_cpu_sample_def)
  show "unat (cs_user (apple_cpu_sample k)) = sum_list (map (\<lambda>l. unat (cl_user l)) ls)"
    unfolding s using fold_ticks_sum [of cs_user no_cpu cl_user ls] b [of cl_user] by (simp add: no_cpu_zero add_ticks_def)
  show "unat (cs_nice (apple_cpu_sample k)) = sum_list (map (\<lambda>l. unat (cl_nice l)) ls)"
    unfolding s using fold_ticks_sum [of cs_nice no_cpu cl_nice ls] b [of cl_nice] by (simp add: no_cpu_zero add_ticks_def)
  show "unat (cs_system (apple_cpu_sample k)) = sum_list (map (\<lambda>l. unat (cl_system l)) ls)"
    unfolding s using fold_ticks_sum [of cs_system no_cpu cl_system ls] b [of cl_system] by (simp add: no_cpu_zero add_ticks_def)
  show "unat (cs_idle (apple_cpu_sample k)) = sum_list (map (\<lambda>l. unat (cl_idle l)) ls)"
    unfolding s using fold_ticks_sum [of cs_idle no_cpu cl_idle ls] b [of cl_idle] by (simp add: no_cpu_zero add_ticks_def)
qed

lemma apple_cpu_later:
  assumes "mc_cpus k = Some ls" and "mc_cpus k' = Some ls'" and "list_all2 ticks_later ls ls'" and "length ls < 1024"
  shows "cpu_later (apple_cpu_sample k) (apple_cpu_sample k')"
proof -
  have len: "length ls' < 1024" using assms(3,4) by (simp add: list_all2_lengthD)
  note a = apple_sample_sums [OF assms(1,4)] and b = apple_sample_sums [OF assms(2) len]
  have mono: "sum_list (map (\<lambda>l. unat (g l :: 32 word)) ls) \<le> sum_list (map (\<lambda>l. unat (g l)) ls')"
    if "\<And>x y. ticks_later x y \<Longrightarrow> g x \<le> g y" for g
    using assms(3) by (induction rule: list_all2_induct) (auto simp: word_le_nat_alt [symmetric] dest!: that intro: add_mono)
  have z: "cs_iowait (apple_cpu_sample x) = 0" "cs_irq (apple_cpu_sample x) = 0"
    "cs_softirq (apple_cpu_sample x) = 0" "cs_steal (apple_cpu_sample x) = 0" for x
    by (simp_all add: apple_cpu_sample_def fold_ticks_rest no_cpu_def split: option.splits)
  have bound: "sum_list (map (\<lambda>l. unat (g l :: 32 word)) ls') \<le> 1024 * 4294967295" for g
    using sum_32_bound [of g ls'] len by linarith
  have "sum_list (map unat (cpu_fields (apple_cpu_sample k'))) < 18446744073709551616"
    using bound [of cl_user] bound [of cl_nice] bound [of cl_system] bound [of cl_idle]
    by (simp add: cpu_fields_def z b)
  then show ?thesis
    using mono [of cl_user] mono [of cl_nice] mono [of cl_system] mono [of cl_idle]
    by (simp add: cpu_later_def cpu_fields_def z word_le_nat_alt a b ticks_later_def)
qed

section \<open>Properties\<close>

text \<open>
  The usage an Apple machine of less than 1024 processors reports stays between 0 and 100 as
  long as no processor's 32-bit tick counter goes round between two samples.
\<close>

theorem apple_usage_bounds:
  assumes "ieee F" and "dbl F 100 = 100"
    and "mo_prev_cpu m = apple_cpu_sample k" and "mc_cpus k = Some ls" and "mc_cpus k' = Some ls'"
    and "list_all2 ticks_later ls ls'" and "length ls < 1024"
    and "0 \<le> mo_cached_cpu m" and "mo_cached_cpu m \<le> 100" and "cpu_from F now (apple_cpu_sample k') m = (m', usage)"
  shows "0 \<le> usage \<and> usage \<le> 100"
proof -
  have one: "dbl F 1 = 1" using assms(1) by (simp add: ieee_def)
  have "cpu_later (mo_prev_cpu m) (apple_cpu_sample k')" using apple_cpu_later [OF assms(4-7)] assms(3) by simp
  note b = percent_bounds [OF assms(1,2) active_le_total [OF this] _ one]
  show ?thesis using assms(8-10) b by (auto simp: cpu_from_def Let_def split: if_splits)
qed

definition demo_ticks :: "32 word \<Rightarrow> cpu_load" where
  "demo_ticks n = \<lparr>cl_user = n, cl_nice = 0, cl_system = 0, cl_idle = n\<rparr>"

definition demo_mach :: "32 word \<Rightarrow> mach" where
  "demo_mach n = \<lparr>mc_unix = demo_proc, mc_cpus = Some [demo_ticks n, demo_ticks n], mc_memsize = None, mc_free_count = 0,
     mc_inactive_count = 0, mc_page_size = 4096, mc_swap = None, mc_boottime = None, mc_time = 0, mc_pids = 0,
     mc_ifaddrs = Some [\<lparr>if_link = True, if_loopback = False, if_data = Some (n, 0)\<rparr>]\<rparr>"

theorem apple_usage_bounds_witness:
  "0 \<le> snd (cpu_from exact_fpu 20000000000 (apple_cpu_sample (demo_mach 9)) (demo_monitoring\<lparr>mo_prev_cpu := apple_cpu_sample (demo_mach 5)\<rparr>))"
proof -
  have "list_all2 ticks_later [demo_ticks 5, demo_ticks 5] [demo_ticks 9, demo_ticks 9]"
    by (simp add: demo_ticks_def ticks_later_def)
  from apple_usage_bounds [OF ieee_exact _ _ _ _ this, of "demo_monitoring\<lparr>mo_prev_cpu := apple_cpu_sample (demo_mach 5)\<rparr>"
      "demo_mach 5" "demo_mach 9" 20000000000] show ?thesis
    by (simp add: exact_fpu_def demo_mach_def demo_monitoring_def prod_eq_iff)
qed

text \<open>
  The interface counters are 32 bits wide: when one goes round between two samples, the
  reported rate is that of almost \<open>2\<^sup>6\<^sup>4\<close> bytes instead of the few it moved on.
\<close>

theorem apple_interface_wraps:
  assumes "mc_ifaddrs k = Some [\<lparr>if_link = True, if_loopback = False, if_data = Some (prev, tx)\<rparr>]"
    and "mc_ifaddrs k' = Some [\<lparr>if_link = True, if_loopback = False, if_data = Some (prev + moved, tx')\<rparr>]"
    and "prev + moved < prev"
  shows "unat (ns_rx (apple_network_sample k') - ns_rx (apple_network_sample k)) = 18446744069414584320 + unat moved"
proof -
  have s: "ns_rx (apple_network_sample k) = ucast prev" "ns_rx (apple_network_sample k') = ucast (prev + moved)"
    using assms(1,2) by (simp_all add: apple_network_sample_def add_interface_def)
  have round: "4294967296 \<le> unat prev + unat moved"
    using assms(3) unat_add_lem [of prev moved] by (auto simp: word_less_nat_alt)
  then have m: "unat (prev + moved) = unat prev + unat moved - 4294967296"
    using unat_32 [of prev] unat_32 [of moved] by (simp add: unat_word_ariths mod_if)
  have "unat (ucast (prev + moved) - ucast prev :: 64 word) = 18446744073709551616 - (unat prev - unat (prev + moved))"
    using assms(3) unat_32 [of prev] by (subst unat_sub_if_size) (simp add: word_size unat_ucast_32 word_less_nat_alt)
  then show ?thesis using m round unat_32 [of prev] unat_32 [of moved] by (simp add: s)
qed

theorem apple_interface_wraps_witness:
  "unat (ns_rx (apple_network_sample (demo_mach 4)) - ns_rx (apple_network_sample (demo_mach 4294967290))) = 18446744069414584330"
  using apple_interface_wraps [of "demo_mach 4294967290" 4294967290 0 "demo_mach 4" 10 0]
  by (simp add: demo_mach_def)

end
