(* ===== verification/Terminal.thy ===== *)
theory Terminal
  imports Console
begin

text \<open>
  The terminal around the arrow-key menu (\<open>Console::selectOption\<close> and
  \<open>restore_terminal_handler\<close> of \<open>src/thinr/utils/console.cpp\<close>): raw mode, the hidden cursor,
  the handler of SIGINT and the global pointer to the saved settings, as a step machine into
  which a Ctrl+C may fall between any two steps. A handler of somebody else returns, and
  setting the terminal back to what it was succeeds.
\<close>

section \<open>State\<close>

datatype disposition = Sig_Dfl | Sig_Ign | Sig_Handler | Sig_Restore

datatype menu_pc =
    Check_Terminal | Save_Pointer | Install_Handler | Set_Raw | Hide_Cursor | Read_Key nat
  | Show_Cursor int | Restore_Mode int | Restore_Handler int | Clear_Pointer int
  | Returned int | Exited int | Killed | Endless_Handler

record ('t, 'w) menu_state =
  ms_mode :: 't
  ms_hidden :: bool
  ms_sigint :: disposition
  ms_old :: disposition
  ms_saved :: "'t option"
  ms_original :: 't
  ms_pc :: menu_pc
  ms_world :: 'w

text \<open>What is there beside the menu: the settings of raw mode, and which of the two calls succeed.\<close>

record 't termios =
  tc_raw :: "'t \<Rightarrow> 't"
  tc_get_ok :: bool
  tc_set_ok :: bool

section \<open>Steps\<close>

definition start_selection :: "string list \<Rightarrow> int \<Rightarrow> nat" where
  "start_selection options d = (if 0 \<le> d \<and> d < int (length options) then nat d else 0)"

definition menu_step :: "'t termios \<Rightarrow> 'w tty \<Rightarrow> string list \<Rightarrow> int \<Rightarrow> ('t, 'w) menu_state \<Rightarrow> ('t, 'w) menu_state" where
  "menu_step C T options d s =
     (case ms_pc s of
        Check_Terminal \<Rightarrow>
          if options = [] \<or> \<not> te_interactive T \<or> \<not> tc_get_ok C then s\<lparr>ms_pc := Returned (- 1)\<rparr>
          else s\<lparr>ms_original := ms_mode s, ms_pc := Save_Pointer\<rparr>
      | Save_Pointer \<Rightarrow> s\<lparr>ms_saved := Some (ms_original s), ms_pc := Install_Handler\<rparr>
      | Install_Handler \<Rightarrow> s\<lparr>ms_old := ms_sigint s, ms_sigint := Sig_Restore, ms_pc := Set_Raw\<rparr>
      | Set_Raw \<Rightarrow>
          if tc_set_ok C then s\<lparr>ms_mode := tc_raw C (ms_original s), ms_pc := Hide_Cursor\<rparr>
          else s\<lparr>ms_pc := Restore_Handler (- 1)\<rparr>
      | Hide_Cursor \<Rightarrow> s\<lparr>ms_hidden := True, ms_pc := Read_Key (start_selection options d)\<rparr>
      | Read_Key k \<Rightarrow>
          (case read_key T (ms_world s) of (key, w) \<Rightarrow>
             s\<lparr>ms_world := w, ms_pc :=
               (case key of
                  KeyUp \<Rightarrow> Read_Key (if 0 < k then k - 1 else length options - 1)
                | KeyDown \<Rightarrow> Read_Key (if k < length options - 1 then k + 1 else 0)
                | KeyEnter \<Rightarrow> Show_Cursor (int k)
                | KeyCancel \<Rightarrow> Show_Cursor (- 1)
                | KeyOther \<Rightarrow> Read_Key k)\<rparr>)
      | Show_Cursor r \<Rightarrow> s\<lparr>ms_hidden := False, ms_pc := Restore_Mode r\<rparr>
      | Restore_Mode r \<Rightarrow> s\<lparr>ms_mode := ms_original s, ms_pc := Restore_Handler r\<rparr>
      | Restore_Handler r \<Rightarrow> s\<lparr>ms_sigint := ms_old s, ms_pc := Clear_Pointer r\<rparr>
      | Clear_Pointer r \<Rightarrow> s\<lparr>ms_saved := None, ms_pc := Returned r\<rparr>
      | _ \<Rightarrow> s)"

text \<open>
  The handler: the cursor, the settings and the pointer, then the handler there was before, or
  the exit with \<open>128 + SIGINT\<close>. It would call itself without end if it had replaced itself.
\<close>

definition restore_terminal_handler :: "('t, 'w) menu_state \<Rightarrow> ('t, 'w) menu_state" where
  "restore_terminal_handler s =
     (let s = (case ms_saved s of
                 Some t \<Rightarrow> s\<lparr>ms_hidden := False, ms_mode := t, ms_saved := None\<rparr>
               | None \<Rightarrow> s)
      in case ms_old s of
           Sig_Handler \<Rightarrow> s
         | Sig_Restore \<Rightarrow> s\<lparr>ms_pc := Endless_Handler\<rparr>
         | _ \<Rightarrow> s\<lparr>ms_pc := Exited 130\<rparr>)"

text \<open>A Ctrl+C while the menu runs.\<close>

definition ended :: "menu_pc \<Rightarrow> bool" where
  "ended pc \<longleftrightarrow> (case pc of Returned _ \<Rightarrow> True | Exited _ \<Rightarrow> True | Killed \<Rightarrow> True | Endless_Handler \<Rightarrow> True | _ \<Rightarrow> False)"

definition sigint :: "('t, 'w) menu_state \<Rightarrow> ('t, 'w) menu_state" where
  "sigint s =
     (if ended (ms_pc s) then s
      else case ms_sigint s of
             Sig_Dfl \<Rightarrow> s\<lparr>ms_pc := Killed\<rparr>
           | Sig_Ign \<Rightarrow> s
           | Sig_Handler \<Rightarrow> s
           | Sig_Restore \<Rightarrow> restore_terminal_handler s)"

inductive menu_reaches :: "'t termios \<Rightarrow> 'w tty \<Rightarrow> string list \<Rightarrow> int \<Rightarrow>
    ('t, 'w) menu_state \<Rightarrow> ('t, 'w) menu_state \<Rightarrow> bool"
  for C T options d s0 where
  start: "menu_reaches C T options d s0 s0"
| turn: "menu_reaches C T options d s0 s \<Longrightarrow> menu_reaches C T options d s0 (menu_step C T options d s)"
| ctrl_c: "menu_reaches C T options d s0 s \<Longrightarrow> menu_reaches C T options d s0 (sigint s)"

definition menu_entry :: "'t \<Rightarrow> disposition \<Rightarrow> 'w \<Rightarrow> ('t, 'w) menu_state" where
  "menu_entry mode h w = \<lparr>ms_mode = mode, ms_hidden = False, ms_sigint = h, ms_old = Sig_Dfl, ms_saved = None,
     ms_original = mode, ms_pc = Check_Terminal, ms_world = w\<rparr>"

section \<open>The terminal is left as it was found\<close>

text \<open>
  What holds at each point of the program, for the settings and the handler at its entry: the
  terminal is disturbed only while a handler that restores it is in place, or while one that
  returns was in place before.
\<close>

definition menu_inv :: "'t \<Rightarrow> disposition \<Rightarrow> ('t, 'w) menu_state \<Rightarrow> bool" where
  "menu_inv mode h s \<longleftrightarrow>
     (let calm = (ms_mode s = mode \<and> \<not> ms_hidden s);
          armed = (ms_sigint s = Sig_Restore \<and> ms_old s = h \<and> ms_original s = mode \<and>
                   (ms_saved s = Some mode \<or> h = Sig_Handler \<and> ms_saved s = None))
      in case ms_pc s of
           Check_Terminal \<Rightarrow> calm \<and> ms_sigint s = h \<and> ms_saved s = None
         | Save_Pointer \<Rightarrow> calm \<and> ms_sigint s = h \<and> ms_original s = mode
         | Install_Handler \<Rightarrow> calm \<and> ms_sigint s = h \<and> ms_original s = mode \<and> ms_saved s = Some mode
         | Set_Raw \<Rightarrow> calm \<and> armed
         | Hide_Cursor \<Rightarrow> armed
         | Read_Key k \<Rightarrow> armed
         | Show_Cursor r \<Rightarrow> armed
         | Restore_Mode r \<Rightarrow> armed \<and> \<not> ms_hidden s
         | Restore_Handler r \<Rightarrow> armed \<and> calm
         | Clear_Pointer r \<Rightarrow> calm \<and> ms_sigint s = h
         | Returned r \<Rightarrow> calm \<and> ms_sigint s = h \<and> ms_saved s = None
         | Exited c \<Rightarrow> calm \<and> c = 130
         | Killed \<Rightarrow> calm
         | Endless_Handler \<Rightarrow> False)"

lemma menu_inv_entry: "menu_inv mode h (menu_entry mode h w)"
  by (simp add: menu_inv_def menu_entry_def)

lemma menu_inv_step: "menu_inv mode h s \<Longrightarrow> menu_inv mode h (menu_step C T options d s)"
  by (cases "ms_pc s") (auto simp: menu_inv_def menu_step_def Let_def split: prod.splits menu_key.splits)

lemma menu_inv_sigint:
  assumes "h \<noteq> Sig_Restore" and "menu_inv mode h s"
  shows "menu_inv mode h (sigint s)"
proof (cases "ms_sigint s = Sig_Restore")
  case True
  with assms show ?thesis
    by (cases "ms_pc s"; cases h) (auto simp: menu_inv_def sigint_def ended_def restore_terminal_handler_def Let_def)
next
  case False
  with assms show ?thesis
    by (cases "ms_pc s"; cases "ms_sigint s") (auto simp: menu_inv_def sigint_def ended_def Let_def)
qed

lemma menu_inv_reaches:
  assumes "menu_reaches C T options d s0 s" and "menu_inv mode h s0" and "h \<noteq> Sig_Restore"
  shows "menu_inv mode h s"
  using assms by (induction rule: menu_reaches.induct) (blast intro: menu_inv_step menu_inv_sigint)+

section \<open>Undisturbed, the machine is the menu\<close>

abbreviation menu_steps :: "'t termios \<Rightarrow> 'w tty \<Rightarrow> string list \<Rightarrow> int \<Rightarrow> nat \<Rightarrow> ('t, 'w) menu_state \<Rightarrow> ('t, 'w) menu_state" where
  "menu_steps C T options d n s \<equiv> (menu_step C T options d ^^ n) s"

text \<open>From the end of the loop on, the result and the input are fixed.\<close>

definition leaving :: "int \<Rightarrow> 'w \<Rightarrow> ('t, 'w) menu_state \<Rightarrow> bool" where
  "leaving r w s \<longleftrightarrow> ms_world s = w \<and>
     ms_pc s \<in> {Show_Cursor r, Restore_Mode r, Restore_Handler r, Clear_Pointer r, Returned r}"

lemma leaving_steps: "leaving r w s \<Longrightarrow> leaving r w (menu_steps C T options d n s)"
  by (induction n) (auto simp: leaving_def menu_step_def)

lemma leaving_returned:
  assumes "leaving r w s" and "ms_pc (menu_steps C T options d n s) = Returned r'" and "ms_world (menu_steps C T options d n s) = w'"
  shows "r' = r \<and> w' = w"
  using leaving_steps [OF assms(1), where C = C and T = T and options = options and d = d and n = n] assms(2,3) by (simp add: leaving_def)

lemma steps_first: "menu_steps C T options d (Suc n) s = menu_steps C T options d n (menu_step C T options d s)"
  by (simp only: funpow_Suc_right o_apply)

lemma leaving_pc:
  "ms_pc s = Show_Cursor q \<Longrightarrow> ms_pc (menu_step C T options d s) = Restore_Mode q"
  "ms_pc s = Restore_Mode q \<Longrightarrow> ms_pc (menu_step C T options d s) = Restore_Handler q"
  "ms_pc s = Restore_Handler q \<Longrightarrow> ms_pc (menu_step C T options d s) = Clear_Pointer q"
  "ms_pc s = Clear_Pointer q \<Longrightarrow> ms_pc (menu_step C T options d s) = Returned q"
  "ms_pc s = Returned q \<Longrightarrow> ms_pc (menu_step C T options d s) = Returned q"
  by (simp_all add: menu_step_def)

lemma leaving_returns:
  assumes "leaving r w s"
  shows "\<exists>n. ms_pc (menu_steps C T options d n s) = Returned r \<and> ms_world (menu_steps C T options d n s) = w"
proof -
  let ?f = "menu_step C T options d"
  have "ms_pc (?f (?f (?f (?f s)))) = Returned r"
    using assms by (auto simp: leaving_def leaving_pc)
  moreover have "menu_steps C T options d (Suc (Suc (Suc (Suc 0)))) s = ?f (?f (?f (?f s)))" by simp
  ultimately have "ms_pc (menu_steps C T options d (Suc (Suc (Suc (Suc 0)))) s) = Returned r" by simp
  with leaving_steps [OF assms] show ?thesis unfolding leaving_def by blast
qed

text \<open>One turn of the loop on both sides.\<close>

lemma key_turn:
  assumes "ms_pc s = Read_Key k" and "read_key T (ms_world s) = (key, w)"
  shows "menu_step C T options d s = s\<lparr>ms_world := w, ms_pc :=
      (case key of
         KeyUp \<Rightarrow> Read_Key (if 0 < k then k - 1 else length options - 1)
       | KeyDown \<Rightarrow> Read_Key (if k < length options - 1 then k + 1 else 0)
       | KeyEnter \<Rightarrow> Show_Cursor (int k)
       | KeyCancel \<Rightarrow> Show_Cursor (- 1)
       | KeyOther \<Rightarrow> Read_Key k)\<rparr>"
  using assms by (simp add: menu_step_def)

lemma loop_sound:
  assumes "ms_pc s = Read_Key k" and "ms_pc (menu_steps C T options d n s) = Returned r"
  shows "select_loop T (length options) k (ms_world s) = Some (r, ms_world (menu_steps C T options d n s))"
  using assms
proof (induction n arbitrary: s k)
  case 0
  then show ?case by simp
next
  case (Suc n)
  obtain key w where key: "read_key T (ms_world s) = (key, w)" by (rule prod.exhaust)
  note turn = key_turn [OF Suc.prems(1) key, of C options d]
  note later = Suc.prems(2) [unfolded steps_first turn]
  have leave: "leaving q w (menu_step C T options d s) \<Longrightarrow>
      r = q \<and> ms_world (menu_steps C T options d (Suc n) s) = w" for q
    using leaving_returned [where r = q and w = w and s = "menu_step C T options d s" and C = C and T = T
      and options = options and d = d and n = n and r' = r] Suc.prems(2)
    unfolding steps_first by blast
  have again: "menu_step C T options d s = s\<lparr>ms_world := w, ms_pc := Read_Key j\<rparr> \<Longrightarrow>
      select_loop T (length options) j w = Some (r, ms_world (menu_steps C T options d (Suc n) s))" for j
    using Suc.IH [of "s\<lparr>ms_world := w, ms_pc := Read_Key j\<rparr>" j] Suc.prems(2) unfolding steps_first by simp
  show ?case
  proof (cases key)
    case KeyEnter
    with leave [of "int k"] show ?thesis
      by (subst select_loop.simps) (simp add: key turn leaving_def)
  next
    case KeyCancel
    with leave [of "- 1"] show ?thesis
      by (subst select_loop.simps) (simp add: key turn leaving_def)
  qed (use again turn in \<open>subst select_loop.simps, simp add: key del: funpow.simps\<close>)+
qed

definition returns :: "'t termios \<Rightarrow> 'w tty \<Rightarrow> string list \<Rightarrow> int \<Rightarrow> ('t, 'w) menu_state \<Rightarrow> int \<Rightarrow> 'w \<Rightarrow> bool" where
  "returns C T options d s r w \<longleftrightarrow>
     (\<exists>n. ms_pc (menu_steps C T options d n s) = Returned r \<and> ms_world (menu_steps C T options d n s) = w)"

lemma returns_step: "returns C T options d s r w \<longleftrightarrow> returns C T options d (menu_step C T options d s) r w"
proof
  assume "returns C T options d s r w"
  then obtain n where n: "ms_pc (menu_steps C T options d n s) = Returned r" "ms_world (menu_steps C T options d n s) = w"
    unfolding returns_def by blast
  show "returns C T options d (menu_step C T options d s) r w"
  proof (cases n)
    case 0
    with n have "ms_pc s = Returned r" "ms_world s = w" by simp_all
    then have "menu_step C T options d s = s" by (simp add: menu_step_def)
    with n 0 show ?thesis unfolding returns_def by metis
  next
    case (Suc m)
    show ?thesis using n unfolding Suc steps_first returns_def by blast
  qed
next
  assume "returns C T options d (menu_step C T options d s) r w"
  then show "returns C T options d s r w" unfolding returns_def steps_first [symmetric] by blast
qed

lemma returns_leaving: "leaving q w s \<Longrightarrow> returns C T options d s r w' \<longleftrightarrow> r = q \<and> w' = w"
  unfolding returns_def using leaving_returns leaving_returned by metis

lemma loop_complete:
  fixes C :: "'t termios" and s :: "('t, 'w) menu_state"
  assumes "select_loop T n k w = Some (r, w')"
    and "n = length options" and "ms_pc s = Read_Key k" and "ms_world s = w"
  shows "returns C T options d s r w'"
proof -
  have "n = length options \<longrightarrow> (\<forall>s :: ('t, 'w) menu_state. ms_pc s = Read_Key k \<and> ms_world s = w \<longrightarrow> returns C T options d s (fst (r, w')) (snd (r, w')))"
  proof (rule select_loop.raw_induct [where P = "\<lambda>T n k w y. n = length options \<longrightarrow>
      (\<forall>s :: ('t, 'w) menu_state. ms_pc s = Read_Key k \<and> ms_world s = w \<longrightarrow> returns C T options d s (fst y) (snd y))", OF _ assms(1)], intro impI allI)
    fix loop and T :: "'w tty" and n k :: nat and w and y :: "int \<times> 'w" and s :: "('t, 'w) menu_state"
    assume IH: "\<And>T n k w y. loop T n k w = Some y \<Longrightarrow> n = length options \<longrightarrow>
        (\<forall>s. ms_pc s = Read_Key k \<and> ms_world s = w \<longrightarrow> returns C T options d (s :: ('t, 'w) menu_state) (fst y) (snd y))"
      and step: "(case read_key T w of (key, w') \<Rightarrow>
        (case key of
           KeyUp \<Rightarrow> loop T n (if 0 < k then k - 1 else n - 1) w'
         | KeyDown \<Rightarrow> loop T n (if k < n - 1 then k + 1 else 0) w'
         | KeyEnter \<Rightarrow> Some (int k, w')
         | KeyCancel \<Rightarrow> Some (- 1, w')
         | KeyOther \<Rightarrow> loop T n k w')) = Some y"
      and n: "n = length options" and s: "ms_pc s = Read_Key k \<and> ms_world s = w"
    obtain key w1 where key: "read_key T (ms_world s) = (key, w1)" by (rule prod.exhaust)
    have kw: "read_key T w = (key, w1)" using key s by simp
    note turn = key_turn [OF conjunct1 [OF s] key, of C options d]
    have again: "returns C T options d s (fst y) (snd y)"
      if "loop T n j w1 = Some y" "menu_step C T options d s = s\<lparr>ms_world := w1, ms_pc := Read_Key j\<rparr>" for j
    proof -
      have "returns C T options d (s\<lparr>ms_world := w1, ms_pc := Read_Key j\<rparr>) (fst y) (snd y)"
        using IH [OF that(1)] n by simp
      then show ?thesis unfolding returns_step [of C T options d s] that(2) .
    qed
    have leave: "returns C T options d s q w1" if "leaving q w1 (menu_step C T options d s)" for q
      unfolding returns_step [of C T options d s] returns_leaving [OF that] by simp
    show "returns C T options d s (fst y) (snd y)"
    proof (cases key)
      case KeyUp
      have l: "loop T n (if 0 < k then k - 1 else n - 1) w1 = Some y"
        using step unfolding kw KeyUp prod.case menu_key.case .
      show ?thesis by (rule again [OF l]) (simp only: turn KeyUp menu_key.case n)
    next
      case KeyDown
      have l: "loop T n (if k < n - 1 then k + 1 else 0) w1 = Some y"
        using step unfolding kw KeyDown prod.case menu_key.case .
      show ?thesis by (rule again [OF l]) (simp only: turn KeyDown menu_key.case n)
    next
      case KeyEnter
      with step leave [of "int k"] show ?thesis by (auto simp: kw turn leaving_def)
    next
      case KeyCancel
      with step leave [of "- 1"] show ?thesis by (auto simp: kw turn leaving_def)
    next
      case KeyOther
      have l: "loop T n k w1 = Some y" using step unfolding kw KeyOther prod.case menu_key.case .
      show ?thesis by (rule again [OF l]) (simp only: turn KeyOther menu_key.case)
    qed
  qed
  with assms(2-4) show ?thesis by simp
qed

lemma returns_loop:
  assumes "ms_pc s = Read_Key k"
  shows "returns C T options d s r w \<longleftrightarrow> select_loop T (length options) k (ms_world s) = Some (r, w)"
  using loop_sound [OF assms] loop_complete [OF _ refl assms refl] unfolding returns_def by blast

text \<open>
  Undisturbed, the sequence of system calls and keys is the menu the callers see: it ends
  with a number exactly when \<open>select_option\<close> yields it, and has read the same input.
\<close>

lemma menu_machine_is_the_menu:
  assumes "te_raw_ok T \<longleftrightarrow> tc_get_ok C \<and> tc_set_ok C"
  shows "returns C T options d (menu_entry mode h w) r w' \<longleftrightarrow> select_option T options d w = Some (r, w')"
proof -
  let ?e = "menu_entry mode h w" and ?f = "menu_step C T options d"
  have shift: "returns C T options d ?e r w' \<longleftrightarrow> returns C T options d (?f (?f (?f ?e))) r w'"
    using returns_step by metis
  consider (none) "options = [] \<or> \<not> te_interactive T \<or> \<not> tc_get_ok C"
    | (entered) "options \<noteq> []" "te_interactive T" "tc_get_ok C" by blast
  then show ?thesis
  proof cases
    case none
    then have "leaving (- 1) w (?f ?e)" by (simp add: leaving_def menu_step_def menu_entry_def)
    then have "returns C T options d ?e r w' \<longleftrightarrow> r = - 1 \<and> w' = w"
      using returns_leaving returns_step by metis
    with none show ?thesis using assms by (auto simp: select_option_def)
  next
    case entered
    then have three: "ms_pc (?f (?f (?f ?e))) = Set_Raw" "ms_world (?f (?f (?f ?e))) = w"
      by (simp_all add: menu_step_def menu_entry_def)
    show ?thesis
    proof (cases "tc_set_ok C")
      case True
      with three have five: "ms_pc (?f (?f (?f (?f (?f ?e))))) = Read_Key (start_selection options d)"
          "ms_world (?f (?f (?f (?f (?f ?e))))) = w"
        by (simp_all add: menu_step_def)
      have "returns C T options d ?e r w' \<longleftrightarrow> select_loop T (length options) (start_selection options d) w = Some (r, w')"
        using returns_loop [OF five(1)] five(2) shift returns_step by metis
      with entered True show ?thesis using assms by (simp add: select_option_def start_selection_def)
    next
      case False
      with three have "leaving (- 1) w (?f (?f (?f (?f ?e))))" by (simp add: leaving_def menu_step_def)
      then have "returns C T options d ?e r w' \<longleftrightarrow> r = - 1 \<and> w' = w"
        using returns_leaving returns_step shift by metis
      with entered False show ?thesis using assms by (auto simp: select_option_def)
    qed
  qed
qed

section \<open>What the arrows select\<close>

text \<open>
  What a user types before the end, as bytes, with the number of entries it moves by: the
  arrows, any other escape sequence and any byte that is neither an escape, an Enter nor a
  Ctrl+C.
\<close>

datatype typed = Typed_Up | Typed_Down | Typed_Sequence char | Typed_Byte char

fun typed_bytes :: "typed \<Rightarrow> string" where
  "typed_bytes Typed_Up = [CHR 0x1B, CHR ''['', CHR ''A'']"
| "typed_bytes Typed_Down = [CHR 0x1B, CHR ''['', CHR ''B'']"
| "typed_bytes (Typed_Sequence c) = [CHR 0x1B, CHR ''['', c]"
| "typed_bytes (Typed_Byte c) = [c]"

fun typed_move :: "typed \<Rightarrow> int" where
  "typed_move Typed_Up = - 1"
| "typed_move Typed_Down = 1"
| "typed_move _ = 0"

fun typed_ok :: "typed \<Rightarrow> bool" where
  "typed_ok (Typed_Sequence c) \<longleftrightarrow> c \<noteq> CHR ''A'' \<and> c \<noteq> CHR ''B''"
| "typed_ok (Typed_Byte c) \<longleftrightarrow> c \<notin> {CHR 0x1B, CHR 0x0D, CHR 0x0A, CHR 0x03}"
| "typed_ok _ \<longleftrightarrow> True"

text \<open>The three ways to end it: Enter, Ctrl+C as a byte, an escape that starts no sequence.\<close>

fun typed_end :: "string \<Rightarrow> int \<Rightarrow> int option" where
  "typed_end [c] k = (if c = CHR 0x0D \<or> c = CHR 0x0A then Some k else if c = CHR 0x03 then Some (- 1) else None)"
| "typed_end [c, c2] k = (if c = CHR 0x1B \<and> c2 \<noteq> CHR ''['' then Some (- 1) else None)"
| "typed_end _ _ = None"

text \<open>A terminal whose input is a text, read byte by byte.\<close>

definition types :: "string tty \<Rightarrow> bool" where
  "types T \<longleftrightarrow> (\<forall>c cs. te_key T (c # cs) = (Some c, cs))"

lemma wrap_down: "k < n \<Longrightarrow> int (if k < n - 1 then k + 1 else 0) = (int k + 1) mod int n"
  by (cases "k = n - 1") (auto simp: mod_pos_pos_trivial)

lemma wrap_up: "k < n \<Longrightarrow> int (if 0 < k then k - 1 else n - 1) = (int k - 1) mod int n"
  by (cases k) (auto simp: mod_pos_pos_trivial zmod_minus1 of_nat_diff)

lemma typed_turn:
  assumes "types T" and "typed_ok t" and "k < n"
  shows "\<exists>j < n. int j = (int k + typed_move t) mod int n \<and>
    select_loop T n k (typed_bytes t @ cs) = select_loop T n j cs"
proof (cases t)
  case Typed_Up
  with assms wrap_up [OF assms(3)] show ?thesis
    by (intro exI [of _ "if 0 < k then k - 1 else n - 1"], subst select_loop.simps) (auto simp: types_def read_key_def)
next
  case Typed_Down
  with assms wrap_down [OF assms(3)] show ?thesis
    by (intro exI [of _ "if k < n - 1 then k + 1 else 0"], subst select_loop.simps) (auto simp: types_def read_key_def)
next
  case (Typed_Sequence c)
  with assms show ?thesis
    by (intro exI [of _ k], subst select_loop.simps) (auto simp: types_def read_key_def)
next
  case (Typed_Byte c)
  with assms show ?thesis
    by (intro exI [of _ k], subst select_loop.simps) (auto simp: types_def read_key_def)
qed

lemma typed_loop:
  assumes "types T" and "\<forall>t \<in> set ts. typed_ok t" and "k < n"
    and "typed_end key ((int k + sum_list (map typed_move ts)) mod int n) = Some r"
  shows "select_loop T n k (concat (map typed_bytes ts) @ key @ rest) = Some (r, rest)"
  using assms(2-4)
proof (induction ts arbitrary: k)
  case Nil
  then have "typed_end key (int k) = Some r" by simp
  then show ?case
    using assms(1) by (cases "(key, int k)" rule: typed_end.cases)
      (auto simp: types_def read_key_def select_loop.simps [of T n k] split: if_splits)
next
  case (Cons t ts)
  obtain j where j: "j < n" "int j = (int k + typed_move t) mod int n"
    "select_loop T n k (typed_bytes t @ concat (map typed_bytes ts) @ key @ rest) =
     select_loop T n j (concat (map typed_bytes ts) @ key @ rest)"
    using typed_turn [OF assms(1), of t k n "concat (map typed_bytes ts) @ key @ rest"] Cons.prems by auto
  have "(int j + sum_list (map typed_move ts)) mod int n = (int k + sum_list (map typed_move (t # ts))) mod int n"
    by (simp add: j(2) mod_add_left_eq add.assoc)
  with Cons.IH [of j] Cons.prems j show ?case by simp
qed

section \<open>Claims\<close>

text \<open>
  C40. What the arrow keys select: whatever a user types up to the end, with any bytes and
  escape sequences in between that mean nothing, the menu returns the entry that lies as many
  places after its default as there were arrows down, less the arrows up, counted around the
  list; a default outside the list counts as the first entry; and an escape or a Ctrl+C read as
  a byte returns -1. It returns having read nothing after the key that ends it, and both as the
  sequence of system calls and as the function its callers use.
\<close>

theorem arrows_move_the_selection:
  assumes "types T" and "te_interactive T" and "te_raw_ok T" and "tc_get_ok C" and "tc_set_ok C"
    and "options \<noteq> []" and "\<forall>t \<in> set ts. typed_ok t"
    and "typed_end key (((if d \<in> {0..<int (length options)} then d else 0) + sum_list (map typed_move ts))
           mod int (length options)) = Some r"
    and "typed = concat (map typed_bytes ts) @ key @ rest"
  shows "returns C T options d (menu_entry mode h typed) r rest \<and> select_option T options d typed = Some (r, rest)"
proof -
  let ?k = "start_selection options d"
  have k: "?k < length options" "int ?k = (if d \<in> {0..<int (length options)} then d else 0)"
    using assms(6) by (auto simp: start_selection_def)
  have "select_loop T (length options) ?k typed = Some (r, rest)"
    unfolding assms(9) using assms(8) k(2) by (intro typed_loop [OF assms(1,7) k(1)]) simp
  then have "select_option T options d typed = Some (r, rest)"
    using assms(2,3,6) by (simp add: select_option_def start_selection_def)
  with menu_machine_is_the_menu [of T C options d mode h typed r rest] assms(3-5) show ?thesis by simp
qed

text \<open>
  C39. However often and wherever a Ctrl+C falls into the menu: once it has returned or the
  process has ended, the terminal has the settings it had and shows its cursor; after a return
  SIGINT is handled as before and the global pointer is clear; and the handler never calls
  itself.
\<close>

theorem terminal_left_as_found:
  assumes "menu_reaches C T options d (menu_entry mode h w) s" and "h \<noteq> Sig_Restore" and "ended (ms_pc s)"
  shows "ms_mode s = mode \<and> \<not> ms_hidden s \<and> ms_pc s \<noteq> Endless_Handler \<and>
    (ms_pc s = Returned r \<longrightarrow> ms_sigint s = h \<and> ms_saved s = None)"
  using menu_inv_reaches [OF assms(1) menu_inv_entry assms(2)] assms(3)
  by (cases "ms_pc s") (auto simp: menu_inv_def ended_def Let_def)

text \<open>Settings as a flag for the normal mode; a machine on which both calls succeed.\<close>

definition demo_termios :: "bool termios" where
  "demo_termios = \<lparr>tc_raw = (\<lambda>_. False), tc_get_ok = True, tc_set_ok = True\<rparr>"

lemma arrows_move_the_selection_witness:
  "select_option (demo_tty True) [''a'', ''b'', ''c''] 7
     [CHR 0x1B, CHR ''['', CHR ''A'', CHR ''x'', CHR 0x1B, CHR ''['', CHR ''A'', CHR 0x0A, CHR ''y''] = Some (1, ''y'')"
  using arrows_move_the_selection [where T = "demo_tty True" and C = demo_termios and options = "[''a'', ''b'', ''c'']"
    and d = 7 and ts = "[Typed_Up, Typed_Byte CHR ''x'', Typed_Up]" and key = "[CHR 0x0A]" and rest = "''y''" and r = 1]
  by (simp add: types_def demo_tty_def demo_termios_def)

text \<open>A Ctrl+C while the menu waits for a key: the process ends, the terminal is as it was.\<close>

lemma terminal_left_as_found_witness:
  "\<exists>s. menu_reaches demo_termios (demo_tty True) [''a''] 0 (menu_entry True Sig_Dfl []) s \<and>
     ms_pc s = Exited 130 \<and> ms_mode s \<and> \<not> ms_hidden s"
proof -
  let ?f = "menu_step demo_termios (demo_tty True) [''a''] 0"
  let ?r = "menu_reaches demo_termios (demo_tty True) [''a''] 0 (menu_entry True Sig_Dfl [])"
  let ?s = "?f (?f (?f (?f (?f (menu_entry True Sig_Dfl [])))))"
  have r: "?r (sigint ?s)" by (intro menu_reaches.intros)
  have "?s = \<lparr>ms_mode = False, ms_hidden = True, ms_sigint = Sig_Restore, ms_old = Sig_Dfl, ms_saved = Some True,
      ms_original = True, ms_pc = Read_Key 0, ms_world = []\<rparr>"
    by (simp add: menu_step_def menu_entry_def demo_termios_def demo_tty_def start_selection_def)
  then have e: "ms_pc (sigint ?s) = Exited 130" by (simp add: sigint_def ended_def restore_terminal_handler_def)
  have "ms_mode (sigint ?s) = True \<and> \<not> ms_hidden (sigint ?s)"
    using terminal_left_as_found [OF r, of 0] by (simp add: e ended_def)
  with r e show ?thesis by blast
qed

end
