(* ===== verification/Spec2Isabelle.thy ===== *)
theory Spec2Isabelle
  imports Program Rollout Manifest_Contract Agent_Resources Arg_Parser Device_Id Auth Commands_Props Connection_Test Ssl_Config Monitoring_Apple
    Terminal
begin

text \<open>
  A model of the ThinRemote agent (thinr-agent, C++20): the program that runs on a device,
  keeps a tunnel to the cloud open, reports what the device does, installs itself as a service
  and replaces its own binary. The theories follow the source files; a definition has the name
  of the function it translates unless that clashes with a constant of HOL.

  \<^bold>\<open>The parts and how they meet.\<close> \<open>main\<close> parses the arguments (\<open>Arg_Parser\<close>) and hands them to
  the command handler (\<open>Commands\<close>). Its commands either set the agent up, by provisioning over
  HTTP (\<open>Auth\<close>) or through the interactive setup (\<open>Setup\<close>), both of which end in the
  configuration file (\<open>Config\<close>) and an init system (\<open>Service_Installer\<close>, \<open>Init_Systems\<close>, \<open>Sysv\<close>),
  or run it. A running agent (\<open>Agent\<close>) first lets the watchdog look at a pending update
  (\<open>check_boot\<close>), then opens its client, one dispatcher of connection states (\<open>Dispatcher\<close>) that
  feeds the watchdog (\<open>Watchdog\<close>) and the poller (\<open>Poller\<close>), and its resources (\<open>Agent_Resources\<close>,
  \<open>Scripts\<close>, \<open>Monitoring\<close>, \<open>Updater\<close>). The poller and the \<open>update\<close> resource apply an update
  (\<open>apply_with_watchdog\<close>): download, checksum, preflight, backup, marker, swap, restart; the next
  start counts the trial and the watchdog confirms it or puts the backup back.

  \<^bold>\<open>Theories and sources\<close> (under \<open>src/src/thinr/\<close>):

    \<^item> \<open>Prelude\<close>: exceptions as a datatype, results as \<open>exn + 'a\<close>, narrowing conversions written out
      on \<open>int\<close>, the operations of \<open>std::string\<close> and of ordered maps, the locale \<open>string_map\<close>.
      \<open>Actions\<close>, \<open>Console\<close>: actions on a state of the outside world, those that may not return,
      and the menus of \<open>utils/console.cpp\<close>. \<open>Terminal\<close>: the settings, the cursor and the SIGINT
      handler around them. \<open>Json_Values\<close>: the values of \<open>nlohmann::json\<close> with its
      accessors and their exceptions; the text codec is a parameter \<open>jp\<close>, \<open>jd\<close> under the law
      \<open>json_text\<close>.
    \<^item> \<open>Atomic_File\<close>: file systems as maps, \<open>utils/atomic_file\<close> with every failure, and histories
      (the list of file systems an operation goes through), on which a power failure is the choice
      of an element. \<open>Paths\<close>: \<open>installer/installation_config\<close> and the paths of the configuration.
    \<^item> \<open>Update_Settings\<close>, \<open>Update_Marker\<close>, \<open>Manifest\<close>, \<open>Watchdog_Core\<close>: \<open>update/\<close>, the pure part of the
      updates; \<open>Manifest_Contract\<close>: \<open>docs/update-manifest.md\<close> on the document. \<open>Updater\<close>:
      \<open>extensions/updater.cpp\<close>. \<open>Watchdog\<close>: \<open>runtime/update_watchdog.cpp\<close>, its two threads as an
      interleaving step relation. \<open>Poller\<close>: \<open>runtime/update_poller.cpp\<close>.
      \<open>Dispatcher\<close>: \<open>runtime/client_state_dispatcher.hpp\<close>. \<open>Lifecycle\<close>: the abstract machine these
      parts implement. \<open>Program\<close>: the entry points as steps of it. \<open>Rollout\<close>: the good path
      of a release through them.
    \<^item> \<open>Config\<close>: \<open>config/config_manager\<close>; \<open>Store\<close>: the same file as actions on a machine.
    \<^item> \<open>Http\<close>, \<open>Alarm_Rules\<close>, \<open>Auth\<close>, \<open>Auth_Frame\<close>: \<open>auth/auth_manager\<close>.
    \<^item> \<open>Agent\<close>, \<open>Agent_Resources\<close>: \<open>agent/agent\<close>. \<open>Monitoring\<close> (Linux, Android),
      \<open>Monitoring_Apple\<close>, \<open>Scripts\<close>: \<open>extensions/\<close>.
      \<open>Device_Id\<close>, \<open>Ssl_Config\<close>, \<open>System_Info\<close>: \<open>utils/\<close>.
    \<^item> \<open>Service_Installer\<close> (the template and the locale \<open>init_system\<close>), \<open>Init_Systems\<close> (systemd,
      launchd, OpenRC, Upstart, Android) and \<open>Sysv\<close> (SysV, procd, rc.conf; the factory): \<open>installer/\<close>.
      \<open>Setup\<close>, \<open>Setup_Props\<close>, \<open>Connection_Test\<close>: \<open>installer/interactive_setup.cpp\<close>.
    \<^item> \<open>Arg_Parser\<close>, \<open>Commands\<close>, \<open>Commands_Props\<close>, \<open>Service_Manager\<close>: \<open>cli/\<close> and \<open>main.cpp\<close>.

  \<^bold>\<open>What the lemmas show.\<close> For the updates: an atomic write shows the old bytes or the new ones at
  every instant; an apply leaves the old binary or the verified new one with the old one kept;
  a rollback shows exactly the backup; a trial that never confirms is reverted at its fourth
  start; at most one of confirm, report and rollback happens however the threads interleave;
  rollouts follow the documented contract and only grow unless frozen; and all of it together
  refines the machine of \<open>Lifecycle\<close>, while a good release goes all the way (\<open>Rollout\<close>). For the
  configuration: round trips of settings, credentials, marker and record; what a policy
  change or a failing write leaves. For the cloud: requests without certificate verification
  follow consent; seeding never overwrites; polling for a token ends. For the installation: what
  the services and \<open>rc.conf\<close> look like afterwards, that uninstalling undoes it, and what the
  setup saves. For the resources: the table follows the scripts directory. For the terminal: a
  menu, ended by a key or by Ctrl+C, leaves it as it found it.

  \<^bold>\<open>Loops, bounds and fuel.\<close> Loops over data are structural. Loops that wait for the outside are
  \<open>partial_function (option)\<close>, so \<open>None\<close> is a loop that never returns: the menus, the conflict and
  authentication loops, the token poll, the connection test; where they end this is proved
  (the token poll and the test need a clock that advances), and where they do not this is proved
  too (a menu at the end of its input). The write loop runs over the list of outcomes of \<open>write\<close>
  and is \<open>None\<close> when the list ends first; enough progress in it is shown to be enough. Integers
  keep their width: counters are \<open>64 word\<close>, \<open>int\<close> and \<open>int64_t\<close> wrap explicitly. Floating point
  values are rationals under rounding functions that are parameters.

  \<^bold>\<open>Parameters.\<close> The client library (IOTMP client, its resource table, process runner and
  extensions), the HTTP client, OpenSSL, the JSON text codec, SHA-256, the regular expressions'
  inputs, system calls and their outcomes, clocks and random numbers come from outside the
  sources. Their documented laws are named hypotheses (\<open>json_text\<close>, \<open>table_laws\<close>, \<open>clock_ok\<close>,
  \<open>ticking\<close>, monotone rounding) and every one is instantiated in a witness.

  \<^bold>\<open>Not modelled.\<close> Help and status texts and everything else that is only printed, the logging
  setup, signals other than SIGINT in a menu, directories as such (creating or removing an empty one has no effect on a file),
  JSON text that is not UTF-8, the scheduling of the client's threads beyond the interleavings of
  the watchdog, the embedded certificates (data made by the build) and the unit tests.
\<close>

section \<open>Claims\<close>

text \<open>
  C2. Every history of the program's entry points (starts of the agent, poll cycles, updates
  asked for by a user or the cloud, state changes and deadlines of the running watchdog), each
  possibly cut short by a power failure after any of its system calls, is matched event by event
  by the lifecycle machine on what the disk shows: only an installation leaves a settled binary,
  and what it leaves is on trial (or reports another version than announced) with the predecessor
  kept; only starts count a trial, up to three; only a ready connection confirms it; and only a
  refused authentication, the deadline or a start after three counted ones restores the
  predecessor. The server may deliver anything; that no apply asks for the version that runs is
  not assumed but follows from the guards of the cycle and of the update action.
\<close>

theorem program_refines_lifecycle:
  assumes "json_text (si_parse X) (si_dump X)" and "run_of (program_step X) s r" and "displays X s L"
  shows "\<exists>ls. run_of (life_step (si_version X)) L ls \<and>
    list_all2 (\<lambda>(ev, t) (ev', L'). ev' = ev \<and> displays X t L') r ls"
proof -
  have "run_of (\<lambda>ev s t. t = s \<or> disk_step X ev s t) s r" using assms(2) program_step_disk by (rule run_of_mono)
  from run_simulated [OF assms(1) this assms(3)] show ?thesis
    by (simp add: shown_by_def [abs_def] case_prod_unfold)
qed

lemma program_refines_lifecycle_witness:
  "\<exists>t. program_step watch_site Starting trial_disk t \<and>
     (\<exists>ls. run_of (life_step (si_version watch_site)) (Trial ''new'' ''old'' 0) ls \<and>
       list_all2 (\<lambda>(ev, t) (ev', L'). ev' = ev \<and> displays watch_site t L') [(Starting, t)] ls)"
proof -
  obtain t where t: "program_step watch_site Starting trial_disk t" using trial_start by blast
  then have s: "run_of (program_step watch_site) trial_disk [(Starting, t)]" by simp
  have "json_text (si_parse watch_site) (si_dump watch_site)" by (simp add: json_text_ref)
  from program_refines_lifecycle [OF this s trial_disk_shown] t show ?thesis by blast
qed

end
